(* ===== verification/Prelude.thy ===== *)
theory Prelude
  imports Main "HOL-Library.Char_ord" "HOL-Library.List_Lexorder"
begin

text \<open>
  Shared vocabulary of the development. It fixes the type of a Go call's outcome (a value, an
  error, or no return at all), the collections of rewrite rules the component theories extend,
  the range of Go's 64-bit \<open>int\<close>, and the generic facts on sorted lists that the CPU-list,
  planner and verifier theories share.
\<close>

section \<open>Rule collections\<close>

named_theorems outcome_simps "rewriting of the outcome combinators"
named_theorems class_simps "tuning classes as string constants"
named_theorems cpu_simps "sets of the CPUs that the list operations produce"

section \<open>Outcomes of Go calls\<close>

text \<open>
  A Go function that returns \<open>(T, error)\<close> either returns a value, returns an error, or, where
  it contains a loop without a bound, does not return. The three cases are kept apart, so a
  statement that a call returns a value also says that it terminates.
\<close>

datatype ('e, 'a) outcome = Returns 'a | Fails 'e | Hangs

definition and_then :: "('e, 'a) outcome \<Rightarrow> ('a \<Rightarrow> ('e, 'b) outcome) \<Rightarrow> ('e, 'b) outcome" where
  "and_then m f = (case m of Returns a \<Rightarrow> f a | Fails e \<Rightarrow> Fails e | Hangs \<Rightarrow> Hangs)"

text \<open>\<open>fmt.Errorf("...: %w", err)\<close>: the error is wrapped, a value passes through.\<close>

definition wrap_err :: "('e \<Rightarrow> 'f) \<Rightarrow> ('e, 'a) outcome \<Rightarrow> ('f, 'a) outcome" where
  "wrap_err w m = (case m of Returns a \<Rightarrow> Returns a | Fails e \<Rightarrow> Fails (w e) | Hangs \<Rightarrow> Hangs)"

definition guard_err :: "bool \<Rightarrow> 'e \<Rightarrow> ('e, unit) outcome" where
  "guard_err bad e = (if bad then Fails e else Returns ())"

lemma and_then_simps [simp]:
  "and_then (Returns a) f = f a"
  "and_then (Fails e) f = Fails e"
  "and_then Hangs f = Hangs"
  by (simp_all add: and_then_def)

lemma wrap_err_simps [simp]:
  "wrap_err w (Returns a) = Returns a"
  "wrap_err w (Fails e) = Fails (w e)"
  "wrap_err w Hangs = Hangs"
  by (simp_all add: wrap_err_def)

lemma and_then_eq_Returns [outcome_simps]:
  "and_then m f = Returns b \<longleftrightarrow> (\<exists>a. m = Returns a \<and> f a = Returns b)"
  by (cases m) simp_all

lemma and_then_eq_Fails [outcome_simps]:
  "and_then m f = Fails e \<longleftrightarrow> m = Fails e \<or> (\<exists>a. m = Returns a \<and> f a = Fails e)"
  by (cases m) simp_all

lemma and_then_eq_Hangs [outcome_simps]:
  "and_then m f = Hangs \<longleftrightarrow> m = Hangs \<or> (\<exists>a. m = Returns a \<and> f a = Hangs)"
  by (cases m) simp_all

lemma wrap_err_eq_Returns [outcome_simps]: "wrap_err w m = Returns b \<longleftrightarrow> m = Returns b"
  by (cases m) simp_all

lemma wrap_err_eq_Fails [outcome_simps]:
  "wrap_err w m = Fails f \<longleftrightarrow> (\<exists>e. m = Fails e \<and> f = w e)"
  by (cases m) auto

lemma wrap_err_eq_Hangs [outcome_simps]: "wrap_err w m = Hangs \<longleftrightarrow> m = Hangs"
  by (cases m) simp_all

lemma guard_err_eq [outcome_simps]:
  "guard_err bad e = Returns u \<longleftrightarrow> \<not> bad"
  "guard_err bad e = Fails e' \<longleftrightarrow> bad \<and> e' = e"
  "guard_err bad e = Hangs \<longleftrightarrow> False"
  by (auto simp: guard_err_def)

text \<open>A loop over a slice or the keys of a map that returns at the first error.\<close>

fun for_each :: "('k \<Rightarrow> ('e, unit) outcome) \<Rightarrow> 'k list \<Rightarrow> ('e, unit) outcome" where
  "for_each check [] = Returns ()"
| "for_each check (k # ks) = and_then (check k) (\<lambda>_. for_each check ks)"

lemma for_each_Returns [outcome_simps]:
  "for_each check ks = Returns () \<longleftrightarrow> (\<forall>k \<in> set ks. check k = Returns ())"
  by (induction ks) (auto simp: outcome_simps)

lemma for_each_Fails: "for_each check ks = Fails e \<Longrightarrow> \<exists>k \<in> set ks. check k = Fails e"
  by (induction ks) (auto simp: outcome_simps)

lemma for_each_Hangs: "for_each check ks = Hangs \<Longrightarrow> \<exists>k \<in> set ks. check k = Hangs"
  by (induction ks) (auto simp: outcome_simps)

text \<open>The call returns a value, and the value satisfies \<open>P\<close>.\<close>

definition returns_with :: "('a \<Rightarrow> bool) \<Rightarrow> ('e, 'a) outcome \<Rightarrow> bool" where
  "returns_with P m = (case m of Returns a \<Rightarrow> P a | Fails e \<Rightarrow> False | Hangs \<Rightarrow> False)"

lemma returns_with_iff: "returns_with P m \<longleftrightarrow> (\<exists>a. m = Returns a \<and> P a)"
  by (cases m) (simp_all add: returns_with_def)

section \<open>Strictly sorted lists\<close>

abbreviation strict_sorted :: "'a::linorder list \<Rightarrow> bool" where
  "strict_sorted \<equiv> sorted_wrt (<)"

lemma strict_sorted_sort:
  assumes "distinct xs" shows "strict_sorted (sort xs)"
  using assms by (simp add: strict_sorted_iff)

lemma strict_sorted_filter: "strict_sorted xs \<Longrightarrow> strict_sorted (filter P xs)"
  by (rule sorted_wrt_filter)

lemma strict_sorted_set_eq:
  assumes "strict_sorted xs" "strict_sorted ys" "set xs = set ys" shows "xs = ys"
  using assms by (simp add: strict_sorted_iff sorted_distinct_set_unique)

lemma strict_sorted_sorted_list_of_set: "strict_sorted (sorted_list_of_set A)"
  by (rule strict_sorted_list_of_set)

lemma sort_strict_sorted [simp]: "strict_sorted xs \<Longrightarrow> sort xs = xs"
  by (simp add: strict_sorted_iff sorted_sort_id)

lemma strict_sorted_take_drop:
  assumes "strict_sorted xs"
  shows "strict_sorted (take n xs)" "strict_sorted (drop n xs)"
  using assms by (simp_all add: sorted_wrt_take sorted_wrt_drop)

lemma set_take_drop_disjoint:
  assumes "distinct xs" shows "set (take n xs) \<inter> set (drop n xs) = {}"
  using assms by (rule set_take_disj_set_drop_if_distinct) simp

lemma set_take_Un_drop: "set (take n xs) \<union> set (drop n xs) = set xs"
  by (metis append_take_drop_id set_append)

section \<open>Go maps and their iteration order\<close>

text \<open>
  A Go map is an association list, read with \<open>map_of\<close>. A \<open>range\<close> over it visits the keys in an
  order that the runtime picks anew each time. The order is a parameter: \<open>it k keys\<close> is the order
  of the \<open>k\<close>-th such loop of a call, and a fair order visits exactly the keys.
\<close>

type_synonym iter_order = "nat \<Rightarrow> string list \<Rightarrow> string list"

definition fair_order :: "iter_order \<Rightarrow> bool" where
  "fair_order it \<longleftrightarrow> (\<forall>k ks. distinct ks \<longrightarrow> distinct (it k ks) \<and> set (it k ks) = set ks)"

lemma fair_order_set: "fair_order it \<Longrightarrow> distinct ks \<Longrightarrow> set (it k ks) = set ks"
  by (simp add: fair_order_def)

lemma fair_order_distinct: "fair_order it \<Longrightarrow> distinct ks \<Longrightarrow> distinct (it k ks)"
  by (simp add: fair_order_def)

lemma fair_order_id: "fair_order (\<lambda>k ks. ks)"
  by (simp add: fair_order_def)

lemma fair_order_rev: "fair_order (\<lambda>k ks. rev ks)"
  by (simp add: fair_order_def)

definition map_keys :: "(string \<times> 'v) list \<Rightarrow> string list" where
  "map_keys m = remdups (map fst m)"

lemma distinct_map_keys [simp]: "distinct (map_keys m)"
  by (simp add: map_keys_def)

lemma set_map_keys: "set (map_keys m) = dom (map_of m)"
  by (simp add: map_keys_def dom_map_of_conv_image_fst)

lemma sort_keys_order:
  assumes "fair_order it" "fair_order it'"
  shows "sort (it k (map_keys m)) = sort (it' k' (map_keys m))"
  using assms fair_order_set [of _ "map_keys m"] fair_order_distinct [of _ "map_keys m"]
  by (intro strict_sorted_set_eq strict_sorted_sort) simp_all

section \<open>Go's int\<close>

text \<open>
  \<open>int\<close> is 64 bits wide on the supported targets (linux amd64 and arm64). Values are
  mathematical integers; \<open>wrap64\<close> is the two's complement result of an addition that
  overflows, written out at the places where the overflow is visible.
\<close>

definition max_int :: int where
  "max_int = 9223372036854775807"

definition min_int :: int where
  "min_int = - 9223372036854775808"

definition wrap64 :: "int \<Rightarrow> int" where
  "wrap64 i = (i + 9223372036854775808) mod 18446744073709551616 - 9223372036854775808"

lemma wrap64_id: "min_int \<le> i \<Longrightarrow> i \<le> max_int \<Longrightarrow> wrap64 i = i"
  by (simp add: wrap64_def min_int_def max_int_def)

lemma wrap64_add_left [simp]: "wrap64 (wrap64 a + b) = wrap64 (a + b)"
proof -
  have "wrap64 a + b + 9223372036854775808 = (a + 9223372036854775808) mod 18446744073709551616 + b"
    by (simp add: wrap64_def)
  also have "\<dots> mod 18446744073709551616 = (a + 9223372036854775808 + b) mod 18446744073709551616"
    by (rule mod_add_left_eq)
  also have "a + 9223372036854775808 + b = a + b + 9223372036854775808" by simp
  finally show ?thesis by (simp add: wrap64_def)
qed

lemma wrap64_add_right [simp]: "wrap64 (a + wrap64 b) = wrap64 (a + b)"
  using wrap64_add_left [of b a] by (simp add: add.commute)

lemma wrap64_zero [simp]: "wrap64 0 = 0"
  by (simp add: wrap64_def)

lemma wrap64_max_int: "wrap64 (max_int + 1) = min_int"
  by (simp add: wrap64_def min_int_def max_int_def)


lemma append_last_sep_inj:
  assumes "xs @ c # ys = xs' @ c # ys'" "c \<notin> set ys" "c \<notin> set ys'"
  shows "xs = xs' \<and> ys = ys'"
  using assms
proof (induction xs arbitrary: xs')
  case Nil
  then show ?case by (cases xs') auto
next
  case (Cons x xs)
  then show ?case by (cases xs') auto
qed

end
