(* ===== verification/GoStrings.thy ===== *)
theory GoStrings
  imports Prelude
begin

text \<open>
  The parts of Go's standard library that the program computes with: \<open>strings.TrimSpace\<close>,
  \<open>Fields\<close>, \<open>Split\<close>, \<open>Index\<close>, \<open>HasPrefix\<close>, \<open>TrimPrefix\<close>, \<open>Contains\<close>, and
  \<open>strconv.Itoa\<close>, \<open>Atoi\<close>, \<open>ParseInt\<close>, \<open>ParseUint\<close>. A Go string is a sequence of bytes,
  an Isabelle \<open>string\<close> is a list of 8-bit characters, so the two agree byte for byte.
\<close>

section \<open>White space\<close>

text \<open>
  \<open>unicode.IsSpace\<close> on UTF-8 bytes: one-byte spaces, the two-byte U+0085 and U+00A0, and the
  three-byte U+1680, U+2000 to U+200A, U+2028, U+2029, U+202F, U+205F and U+3000. UTF-8 is
  self-synchronising, so a match of one of these byte sequences is always a match of the rune.
\<close>

definition byte :: "char \<Rightarrow> int" where
  "byte c = of_char c"

definition space1 :: "char \<Rightarrow> bool" where
  "space1 c \<longleftrightarrow> (9 \<le> byte c \<and> byte c \<le> 13) \<or> byte c = 32"

definition space2 :: "char \<Rightarrow> char \<Rightarrow> bool" where
  "space2 c d \<longleftrightarrow> byte c = 194 \<and> (byte d = 133 \<or> byte d = 160)"

definition space3 :: "char \<Rightarrow> char \<Rightarrow> char \<Rightarrow> bool" where
  "space3 c d e \<longleftrightarrow>
     (byte c = 225 \<and> byte d = 154 \<and> byte e = 128) \<or>
     (byte c = 226 \<and> byte d = 128 \<and> (128 \<le> byte e \<and> byte e \<le> 138 \<or> byte e \<in> {168, 169, 175})) \<or>
     (byte c = 226 \<and> byte d = 129 \<and> byte e = 159) \<or>
     (byte c = 227 \<and> byte d = 128 \<and> byte e = 128)"

text \<open>Drops spaces from the front; the two predicates on pairs and triples give the byte order.\<close>

fun strip_runes ::
  "(char \<Rightarrow> char \<Rightarrow> bool) \<Rightarrow> (char \<Rightarrow> char \<Rightarrow> char \<Rightarrow> bool) \<Rightarrow> string \<Rightarrow> string" where
  "strip_runes p2 p3 [] = []"
| "strip_runes p2 p3 [c] = (if space1 c then [] else [c])"
| "strip_runes p2 p3 [c, d] =
     (if space1 c then strip_runes p2 p3 [d] else if p2 c d then [] else [c, d])"
| "strip_runes p2 p3 (c # d # e # s) =
     (if space1 c then strip_runes p2 p3 (d # e # s)
      else if p2 c d then strip_runes p2 p3 (e # s)
      else if p3 c d e then strip_runes p2 p3 s
      else c # d # e # s)"

definition TrimSpace :: "string \<Rightarrow> string" where
  "TrimSpace s =
     rev (strip_runes (\<lambda>c d. space2 d c) (\<lambda>c d e. space3 e d c)
       (rev (strip_runes space2 space3 s)))"

text \<open>A printable ASCII byte is no part of any space.\<close>

definition plain :: "char \<Rightarrow> bool" where
  "plain c \<longleftrightarrow> 33 \<le> byte c \<and> byte c < 128"

lemma strip_runes_plain:
  assumes "s = [] \<or> plain (hd s)"
    and "\<And>c d. plain c \<Longrightarrow> \<not> p2 c d" and "\<And>c d e. plain c \<Longrightarrow> \<not> p3 c d e"
  shows "strip_runes p2 p3 s = s"
proof -
  have "\<not> space1 c" if "plain c" for c
    using that by (auto simp: space1_def plain_def)
  with assms show ?thesis
    by (cases "(p2, p3, s)" rule: strip_runes.cases) auto
qed

lemma TrimSpace_plain:
  assumes "s \<noteq> []" "plain (hd s)" "plain (last s)" shows "TrimSpace s = s"
proof -
  have "strip_runes space2 space3 s = s"
    using assms by (intro strip_runes_plain) (auto simp: space2_def space3_def plain_def)
  moreover have "strip_runes (\<lambda>c d. space2 d c) (\<lambda>c d e. space3 e d c) (rev s) = rev s"
    using assms
    by (intro strip_runes_plain) (auto simp: space2_def space3_def plain_def hd_rev)
  ultimately show ?thesis by (simp add: TrimSpace_def)
qed

lemma TrimSpace_Nil [simp]: "TrimSpace [] = []"
  by (simp add: TrimSpace_def)

lemma strip_runes_space: "space1 c \<Longrightarrow> strip_runes p2 p3 (c # s) = strip_runes p2 p3 s"
  by (cases s; cases "tl s") auto

lemma TrimSpace_space: "space1 c \<Longrightarrow> TrimSpace (c # s) = TrimSpace s"
  by (simp add: TrimSpace_def strip_runes_space)

section \<open>Splitting\<close>

text \<open>\<open>strings.Split\<close> with a one-byte separator.\<close>

fun Split :: "char \<Rightarrow> string \<Rightarrow> string list" where
  "Split c [] = [[]]"
| "Split c (x # xs) =
     (if x = c then [] # Split c xs
      else (case Split c xs of [] \<Rightarrow> [[x]] | p # ps \<Rightarrow> (x # p) # ps))"

text \<open>\<open>strings.Fields\<close>: the maximal runs of bytes that belong to no space. The first argument is
  the field being read.\<close>

fun fields_from :: "string \<Rightarrow> string \<Rightarrow> string list" where
  "fields_from acc [] = (if acc = [] then [] else [acc])"
| "fields_from acc [c] =
     (if space1 c then (if acc = [] then [] else [acc]) else [acc @ [c]])"
| "fields_from acc [c, d] =
     (if space1 c then (if acc = [] then [] else [acc]) @ fields_from [] [d]
      else if space2 c d then (if acc = [] then [] else [acc])
      else fields_from (acc @ [c]) [d])"
| "fields_from acc (c # d # e # s) =
     (if space1 c then (if acc = [] then [] else [acc]) @ fields_from [] (d # e # s)
      else if space2 c d then (if acc = [] then [] else [acc]) @ fields_from [] (e # s)
      else if space3 c d e then (if acc = [] then [] else [acc]) @ fields_from [] s
      else fields_from (acc @ [c]) (d # e # s))"

definition Fields :: "string \<Rightarrow> string list" where
  "Fields s = fields_from [] s"

fun join :: "string \<Rightarrow> string list \<Rightarrow> string" where
  "join sep [] = []"
| "join sep [p] = p"
| "join sep (p # q # ps) = p @ sep @ join sep (q # ps)"

lemma Split_nonempty [simp]: "Split c s \<noteq> []"
  by (cases s) (auto split: list.splits)

lemma Split_no_sep: "c \<notin> set s \<Longrightarrow> Split c s = [s]"
  by (induction s) auto

lemma Split_append: "c \<notin> set p \<Longrightarrow> Split c (p @ c # s) = p # Split c s"
  by (induction p) auto

lemma Split_join:
  "ps \<noteq> [] \<Longrightarrow> \<forall>p \<in> set ps. c \<notin> set p \<Longrightarrow> Split c (join [c] ps) = ps"
  by (induction "[c]" ps rule: join.induct) (auto simp: Split_append Split_no_sep)

lemma join_Split: "join [c] (Split c s) = s"
proof (induction s)
  case (Cons x s)
  then show ?case by (cases "Split c s"; cases "tl (Split c s)") auto
qed simp

lemma Split_pieces: "p \<in> set (Split c s) \<Longrightarrow> c \<notin> set p"
  by (induction s arbitrary: p) (auto split: if_splits list.splits)

section \<open>Searching\<close>

text \<open>\<open>strings.Index\<close> of a one-byte string: the first position, or -1.\<close>

fun Index :: "string \<Rightarrow> char \<Rightarrow> int" where
  "Index [] c = - 1"
| "Index (x # xs) c =
     (if x = c then 0 else (let i = Index xs c in if i < 0 then - 1 else i + 1))"

definition HasPrefix :: "string \<Rightarrow> string \<Rightarrow> bool" where
  "HasPrefix s p \<longleftrightarrow> length p \<le> length s \<and> take (length p) s = p"

definition TrimPrefix :: "string \<Rightarrow> string \<Rightarrow> string" where
  "TrimPrefix s p = (if HasPrefix s p then drop (length p) s else s)"

fun Contains :: "string \<Rightarrow> string \<Rightarrow> bool" where
  "Contains [] sub \<longleftrightarrow> sub = []"
| "Contains (c # s) sub \<longleftrightarrow> HasPrefix (c # s) sub \<or> Contains s sub"

lemma Index_notin: "c \<notin> set s \<Longrightarrow> Index s c = - 1"
  by (induction s) auto

lemma Index_ge: "Index s c \<ge> - 1"
  by (induction s) (auto simp: Let_def)

lemma Index_first: "c \<notin> set p \<Longrightarrow> Index (p @ c # s) c = int (length p)"
  by (induction p) (auto simp: Let_def)

lemma Index_less_length: "Index s c < int (length s)"
  by (induction s) (auto simp: Let_def)

lemma Index_take: "Index s c \<ge> 0 \<Longrightarrow> c \<notin> set (take (nat (Index s c)) s)"
proof (induction s)
  case (Cons x s)
  show ?case
  proof (cases "x = c")
    case False
    with Cons have i: "0 \<le> Index s c" by (auto simp: Let_def split: if_splits)
    then have "nat (Index s c + 1) = Suc (nat (Index s c))" by simp
    with False Cons.IH i show ?thesis by (simp add: Let_def)
  qed simp
qed simp

lemma HasPrefix_append [simp]: "HasPrefix (p @ s) p"
  by (simp add: HasPrefix_def)

lemma HasPrefix_iff: "HasPrefix s p \<longleftrightarrow> (\<exists>t. s = p @ t)"
  by (auto simp: HasPrefix_def) (metis append_take_drop_id)

lemma TrimPrefix_append [simp]: "TrimPrefix (p @ s) p = s"
  by (simp add: TrimPrefix_def)

lemma Contains_split: "Contains s sub \<longleftrightarrow> (\<exists>a b. s = a @ sub @ b)"
proof (induction s)
  case (Cons c s)
  have "Contains (c # s) sub \<longleftrightarrow> (\<exists>b. c # s = sub @ b) \<or> (\<exists>a b. s = a @ sub @ b)"
    by (simp only: Contains.simps Cons.IH HasPrefix_iff)
  also have "\<dots> \<longleftrightarrow> (\<exists>a b. c # s = a @ sub @ b)"
    by (metis Cons_eq_append_conv append_Cons append_Nil)
  finally show ?case .
qed simp

lemma Contains_mid [simp]: "Contains (a @ sub @ b) sub"
  by (auto simp: Contains_split)

section \<open>Decimal numbers\<close>

text \<open>The digits of a non-negative number.\<close>

function dec_digits :: "int \<Rightarrow> string" where
  "dec_digits n =
     (if n < 10 then [char_of (48 + n)] else dec_digits (n div 10) @ [char_of (48 + n mod 10)])"
  by pat_completeness auto
termination
  by (relation "measure nat") auto

declare dec_digits.simps [simp del]

definition Itoa :: "int \<Rightarrow> string" where
  "Itoa i = (if i < 0 then CHR ''-'' # dec_digits (- i) else dec_digits i)"

datatype num_error = ErrSyntax | ErrRange

definition digit_val :: "char \<Rightarrow> int option" where
  "digit_val c = (if 48 \<le> byte c \<and> byte c \<le> 57 then Some (byte c - 48) else None)"

definition max_uint64 :: int where
  "max_uint64 = 18446744073709551615"

text \<open>
  \<open>strconv.ParseUint(s, 10, 64)\<close>. Both results of the Go function are kept, since callers that
  drop the error use the value: 0 after a syntax error, the largest value after a range error.
  The range error is returned as soon as the number read so far overflows.
\<close>

fun parse_digits :: "string \<Rightarrow> int \<Rightarrow> int \<times> num_error option" where
  "parse_digits [] n = (n, None)"
| "parse_digits (c # cs) n =
     (case digit_val c of
        None \<Rightarrow> (0, Some ErrSyntax)
      | Some d \<Rightarrow>
          if max_uint64 < n * 10 + d then (max_uint64, Some ErrRange)
          else parse_digits cs (n * 10 + d))"

definition ParseUint :: "string \<Rightarrow> int \<times> num_error option" where
  "ParseUint s = (if s = [] then (0, Some ErrSyntax) else parse_digits s 0)"

text \<open>\<open>strconv.ParseInt(s, 10, 64)\<close>, and \<open>strconv.Atoi\<close>, which agrees with it on 64-bit targets.\<close>

definition ParseInt :: "string \<Rightarrow> int \<times> num_error option" where
  "ParseInt s =
     (let neg = (s \<noteq> [] \<and> hd s = CHR ''-'');
          signed = (s \<noteq> [] \<and> (hd s = CHR ''-'' \<or> hd s = CHR ''+''));
          (un, err) = ParseUint (if signed then tl s else s)
      in if err = Some ErrSyntax then (0, Some ErrSyntax)
         else if \<not> neg \<and> max_int < un then (max_int, Some ErrRange)
         else if neg \<and> - min_int < un then (min_int, Some ErrRange)
         else ((if neg then - un else un), err))"

definition Atoi :: "string \<Rightarrow> int \<times> num_error option" where
  "Atoi s = ParseInt s"

lemma byte_digit [simp]: "0 \<le> n \<Longrightarrow> n < 10 \<Longrightarrow> byte (char_of (48 + n)) = 48 + n"
  by (simp add: byte_def)

lemma dec_digits_nonempty [simp]: "dec_digits n \<noteq> []"
  by (subst dec_digits.simps) simp

lemma dec_digits_range: "0 \<le> n \<Longrightarrow> c \<in> set (dec_digits n) \<Longrightarrow> 48 \<le> byte c \<and> byte c \<le> 57"
proof (induction n rule: dec_digits.induct)
  case (1 n)
  show ?case
  proof (cases "n < 10")
    case True
    with "1.prems" show ?thesis by (simp add: dec_digits.simps [of n])
  next
    case False
    have "c \<in> set (dec_digits (n div 10)) \<or> c = char_of (48 + n mod 10)"
      using "1.prems" False by (auto simp: dec_digits.simps [of n])
    with "1.IH" False show ?thesis by auto
  qed
qed

lemma dec_digits_plain: "0 \<le> n \<Longrightarrow> c \<in> set (dec_digits n) \<Longrightarrow> plain c"
  using dec_digits_range [of n c] by (auto simp: plain_def)

lemma parse_digits_append:
  "parse_digits cs n = (m, None) \<Longrightarrow> parse_digits (cs @ ds) n = parse_digits ds m"
  by (induction cs n rule: parse_digits.induct) (auto split: option.splits if_splits)

lemma parse_digits_dec_digits:
  "0 \<le> n \<Longrightarrow> n \<le> max_uint64 \<Longrightarrow> parse_digits (dec_digits n) 0 = (n, None)"
proof (induction n rule: dec_digits.induct)
  case (1 n)
  show ?case
  proof (cases "n < 10")
    case True
    then show ?thesis using "1.prems"
      by (simp add: dec_digits.simps [of n] digit_val_def max_uint64_def)
  next
    case False
    with 1 have "parse_digits (dec_digits (n div 10)) 0 = (n div 10, None)"
      by (simp add: max_uint64_def)
    then have "parse_digits (dec_digits (n div 10) @ [char_of (48 + n mod 10)]) 0
      = parse_digits [char_of (48 + n mod 10)] (n div 10)"
      by (rule parse_digits_append)
    also have "\<dots> = (n, None)"
      using "1.prems" by (simp add: digit_val_def)
    finally show ?thesis using False by (simp add: dec_digits.simps [of n])
  qed
qed

lemma parse_digits_nonneg: "0 \<le> n \<Longrightarrow> parse_digits s n = (m, err) \<Longrightarrow> 0 \<le> m"
  by (induction s n rule: parse_digits.induct)
     (auto simp: digit_val_def max_uint64_def split: if_splits)

lemma ParseUint_nonneg: "ParseUint s = (m, err) \<Longrightarrow> 0 \<le> m"
  using parse_digits_nonneg [of 0 s m err] by (auto simp: ParseUint_def split: if_splits)

lemma hd_dec_digits_digit:
  "0 \<le> n \<Longrightarrow> 48 \<le> byte (hd (dec_digits n)) \<and> byte (hd (dec_digits n)) \<le> 57"
  by (rule dec_digits_range [OF _ hd_in_set [OF dec_digits_nonempty]])

lemma byte_CHR [simp]:
  "byte CHR ''-'' = 45" "byte CHR ''+'' = 43" "byte CHR '','' = 44"
  by (simp_all add: byte_def)

lemma Atoi_Itoa:
  assumes "min_int \<le> i" "i \<le> max_int" shows "Atoi (Itoa i) = (i, None)"
proof (cases "i < 0")
  case True
  with assms show ?thesis
    by (simp add: Atoi_def ParseInt_def Itoa_def ParseUint_def parse_digits_dec_digits
        min_int_def max_uint64_def)
next
  case False
  have "hd (dec_digits i) \<noteq> CHR ''-''" "hd (dec_digits i) \<noteq> CHR ''+''"
    using hd_dec_digits_digit [of i] False by auto
  moreover have "i \<le> max_uint64" using assms by (simp add: max_int_def max_uint64_def)
  ultimately show ?thesis using False assms
    by (simp add: Atoi_def ParseInt_def Itoa_def ParseUint_def parse_digits_dec_digits)
qed

text \<open>Reading the digits back gives the number, so the rendering is injective.\<close>

lemma dec_digits_value: "0 \<le> n \<Longrightarrow> foldl (\<lambda>v c. 10 * v + (byte c - 48)) 0 (dec_digits n) = n"
proof (induction n rule: dec_digits.induct)
  case (1 n)
  show ?case
  proof (cases "n < 10")
    case True
    with 1 show ?thesis by (simp add: dec_digits.simps [of n])
  next
    case False
    with 1 have "foldl (\<lambda>v c. 10 * v + (byte c - 48)) 0 (dec_digits (n div 10)) = n div 10" by simp
    with 1 False show ?thesis by (simp add: dec_digits.simps [of n])
  qed
qed

lemma Itoa_inj:
  assumes "Itoa i = Itoa j" "0 \<le> i" "0 \<le> j" shows "i = j"
proof -
  have "dec_digits i = dec_digits j" using assms by (simp add: Itoa_def)
  with assms dec_digits_value show ?thesis by metis
qed

lemma Itoa_nonneg_chars: "0 \<le> i \<Longrightarrow> c \<in> set (Itoa i) \<Longrightarrow> 48 \<le> byte c \<and> byte c \<le> 57"
  by (auto simp: Itoa_def dest: dec_digits_range)

lemma Itoa_chars: "c \<in> set (Itoa i) \<Longrightarrow> c = CHR ''-'' \<or> 48 \<le> byte c \<and> byte c \<le> 57"
  using dec_digits_range [of "\<bar>i\<bar>" c] by (auto simp: Itoa_def split: if_splits)

lemma Itoa_nonempty [simp]: "Itoa i \<noteq> []"
  by (simp add: Itoa_def)

lemma Itoa_plain: "c \<in> set (Itoa i) \<Longrightarrow> plain c"
  using Itoa_chars [of c i] by (auto simp: plain_def)

lemma Itoa_no_comma: "CHR '','' \<notin> set (Itoa i)"
  using Itoa_chars [of "CHR '',''" i] by auto

lemma Itoa_nonneg_no_minus: "0 \<le> i \<Longrightarrow> CHR ''-'' \<notin> set (Itoa i)"
  by (auto dest: Itoa_nonneg_chars)

lemma TrimSpace_Itoa [simp]: "TrimSpace (Itoa i) = Itoa i"
  by (rule TrimSpace_plain) (simp_all add: Itoa_plain [of _ i])

text \<open>The value of a number without a minus sign is never negative.\<close>

lemma Atoi_no_minus_nonneg: "CHR ''-'' \<notin> set s \<Longrightarrow> Atoi s = (i, err) \<Longrightarrow> 0 \<le> i"
  by (cases s)
     (auto simp: Atoi_def ParseInt_def Let_def max_int_def
       dest: ParseUint_nonneg split: prod.splits if_splits)

lemma Atoi_bounds: "Atoi s = (i, None) \<Longrightarrow> min_int \<le> i \<and> i \<le> max_int"
  by (auto simp: Atoi_def ParseInt_def Let_def max_int_def min_int_def
      dest: ParseUint_nonneg split: prod.splits if_splits)

section \<open>Ranging over a string\<close>

text \<open>
  \<open>for _, r := range s\<close> decodes UTF-8. The number of bytes of the rune at the front, 0 when the
  bytes there are no valid encoding.
\<close>

definition cont :: "char \<Rightarrow> bool" where
  "cont c \<longleftrightarrow> 128 \<le> byte c \<and> byte c \<le> 191"

definition second_ok :: "int \<Rightarrow> char \<Rightarrow> bool" where
  "second_ok b c \<longleftrightarrow>
     (if b = 224 then 160 \<le> byte c \<and> byte c \<le> 191
      else if b = 237 then 128 \<le> byte c \<and> byte c \<le> 159
      else if b = 240 then 144 \<le> byte c \<and> byte c \<le> 191
      else if b = 244 then 128 \<le> byte c \<and> byte c \<le> 143
      else cont c)"

fun rune_len :: "string \<Rightarrow> nat" where
  "rune_len [] = 0"
| "rune_len (c # s) =
     (if byte c < 128 then 1
      else if 194 \<le> byte c \<and> byte c \<le> 223
      then (case s of d # _ \<Rightarrow> if second_ok (byte c) d then 2 else 0 | _ \<Rightarrow> 0)
      else if 224 \<le> byte c \<and> byte c \<le> 239
      then (case s of d # e # _ \<Rightarrow> if second_ok (byte c) d \<and> cont e then 3 else 0 | _ \<Rightarrow> 0)
      else if 240 \<le> byte c \<and> byte c \<le> 244
      then (case s of d # e # f # _ \<Rightarrow> if second_ok (byte c) d \<and> cont e \<and> cont f then 4 else 0 | _ \<Rightarrow> 0)
      else 0)"

text \<open>U+FFFD, which stands for a byte that is no part of a valid encoding.\<close>

definition rune_error :: string where
  "rune_error = [CHR 0xEF, CHR 0xBF, CHR 0xBD]"

text \<open>The runes of a string, each as \<open>string(r)\<close> renders it again.\<close>

function runes_of :: "string \<Rightarrow> string list" where
  "runes_of s =
     (if s = [] then []
      else if rune_len s = 0 then rune_error # runes_of (drop 1 s)
      else take (rune_len s) s # runes_of (drop (rune_len s) s))"
  by pat_completeness auto
termination
  by (relation "measure length") auto

declare runes_of.simps [simp del]

lemma runes_of_Nil [simp]: "runes_of [] = []"
  by (simp add: runes_of.simps)

lemma runes_of_ascii [simp]: "byte c < 128 \<Longrightarrow> runes_of (c # s) = [c] # runes_of s"
  by (simp add: runes_of.simps [of "c # s"])

definition valid_utf8 :: "string \<Rightarrow> bool" where
  "valid_utf8 s \<longleftrightarrow> concat (runes_of s) = s"

lemma ascii_valid_utf8: "\<forall>c \<in> set s. byte c < 128 \<Longrightarrow> valid_utf8 s"
  by (induction s) (simp_all add: valid_utf8_def)

section \<open>Durations\<close>

text \<open>
  \<open>time.Duration.String\<close> on nanoseconds. \<open>frac_digits\<close> renders the low \<open>prec\<close> decimal digits
  after a point, without trailing zeros, and nothing when they are all zero.
\<close>

fun frac_digits :: "nat \<Rightarrow> int \<Rightarrow> string \<Rightarrow> string" where
  "frac_digits 0 v acc = (if acc = [] then [] else CHR ''.'' # acc)"
| "frac_digits (Suc prec) v acc =
     frac_digits prec (v div 10)
       (if acc = [] \<and> v mod 10 = 0 then [] else char_of (48 + v mod 10) # acc)"

definition Duration_String :: "int \<Rightarrow> string" where
  "Duration_String d =
     (let u = \<bar>d\<bar>; secs = u div 1000000000; mins = secs div 60; hours = mins div 60;
          body =
            (if u = 0 then ''0s''
             else if u < 1000 then Itoa u @ ''ns''
             else if u < 1000000 then Itoa (u div 1000) @ frac_digits 3 u [] @ [CHR 0xC2, CHR 0xB5, CHR ''s'']
             else if u < 1000000000 then Itoa (u div 1000000) @ frac_digits 6 u [] @ ''ms''
             else (if hours > 0 then Itoa hours @ ''h'' else []) @
                  (if mins > 0 then Itoa (mins mod 60) @ ''m'' else []) @
                  Itoa (secs mod 60) @ frac_digits 9 u [] @ ''s'')
      in if d < 0 then CHR ''-'' # body else body)"

section \<open>Counting maps\<close>

text \<open>
  A \<open>map[string]int\<close> of counters as an association list: \<open>counts[k] += n\<close>, and the rendering of
  such a map by the \<open>%v\<close> verb, which sorts the keys.
\<close>

fun bump_count :: "string \<Rightarrow> int \<Rightarrow> (string \<times> int) list \<Rightarrow> (string \<times> int) list" where
  "bump_count k n [] = [(k, n)]"
| "bump_count k n ((k', m) # cs) = (if k' = k then (k', m + n) # cs else (k', m) # bump_count k n cs)"

definition count_of :: "(string \<times> int) list \<Rightarrow> string \<Rightarrow> int" where
  "count_of counts k = (case map_of counts k of None \<Rightarrow> 0 | Some n \<Rightarrow> n)"

definition format_counts :: "(string \<times> int) list \<Rightarrow> string" where
  "format_counts counts =
     ''map['' @ join '' '' (map (\<lambda>k. k @ '':'' @ Itoa (count_of counts k)) (sort (map fst counts))) @ '']''"

lemma count_of_bump: "count_of (bump_count k n counts) k' = count_of counts k' + (if k' = k then n else 0)"
  by (induction k n counts rule: bump_count.induct) (auto simp: count_of_def)

lemma keys_bump: "set (map fst (bump_count k n counts)) = insert k (set (map fst counts))"
  by (induction k n counts rule: bump_count.induct) auto

lemma distinct_keys_bump: "distinct (map fst counts) \<Longrightarrow> distinct (map fst (bump_count k n counts))"
  by (induction k n counts rule: bump_count.induct) (use keys_bump in auto)

section \<open>Fields of plain words\<close>

lemma plain_no_space: "plain c \<Longrightarrow> \<not> space1 c \<and> \<not> space2 c d \<and> \<not> space3 c d e"
  by (auto simp: plain_def space1_def space2_def space3_def)

lemma space1_blank [simp]: "space1 CHR '' ''"
  by (simp add: space1_def byte_def)

lemma fields_from_plain_Cons:
  "plain c \<Longrightarrow> s \<noteq> [] \<Longrightarrow> fields_from acc (c # s) = fields_from (acc @ [c]) s"
  using plain_no_space [of c] by (cases s; cases "tl s") auto

lemma fields_from_plain_end:
  "\<forall>c \<in> set w. plain c \<Longrightarrow> fields_from acc w = (if acc @ w = [] then [] else [acc @ w])"
proof (induction w arbitrary: acc)
  case (Cons c w)
  then show ?case
    using plain_no_space [of c] by (cases "w = []") (simp_all add: fields_from_plain_Cons)
qed simp

lemma fields_from_space:
  "space1 c \<Longrightarrow> fields_from acc (c # s) = (if acc = [] then [] else [acc]) @ fields_from [] s"
  by (cases s; cases "tl s") auto

lemma fields_from_plain_word:
  "space1 d \<Longrightarrow> \<forall>c \<in> set w. plain c \<Longrightarrow> acc @ w \<noteq> [] \<Longrightarrow>
   fields_from acc (w @ d # s) = (acc @ w) # fields_from [] s"
  by (induction w arbitrary: acc) (simp_all add: fields_from_plain_Cons fields_from_space)

lemma Fields_join:
  "\<forall>w \<in> set ws. w \<noteq> [] \<and> (\<forall>c \<in> set w. plain c) \<Longrightarrow> Fields (join '' '' ws) = ws"
  unfolding Fields_def
proof (induction "'' ''" ws rule: join.induct)
  case (2 p)
  then show ?case by (simp add: fields_from_plain_end)
next
  case (3 p q ps)
  then show ?case using fields_from_plain_word [of "CHR '' ''" p "[]"] by simp
qed simp

text \<open>A label, blanks and a word: the shape of a line of \<open>/proc/<pid>/status\<close>.\<close>

lemma Fields_label:
  assumes "\<forall>c \<in> set l. plain c" "l \<noteq> []" "\<forall>c \<in> set blanks. space1 c" "blanks \<noteq> []"
    "\<forall>c \<in> set w. plain c" "w \<noteq> []"
  shows "Fields (l @ blanks @ w) = [l, w]"
proof -
  obtain d bs where blanks: "blanks = d # bs" using assms(4) by (cases blanks) auto
  have "fields_from [] (bs @ w) = [w]" if "\<forall>c \<in> set bs. space1 c" for bs
    using that by (induction bs) (simp_all add: fields_from_plain_end [OF assms(5)] assms(6) fields_from_space)
  then show ?thesis
    using assms(1-3) by (simp add: Fields_def blanks fields_from_plain_word)
qed

section \<open>Padding\<close>

text \<open>\<open>fmt\<close> counts a width in runes; a byte that starts no rune counts as one.\<close>

fun rune_count :: "string \<Rightarrow> nat" where
  "rune_count [] = 0"
| "rune_count (c # s) = Suc (rune_count (drop (rune_len (c # s) - 1) s))"

definition pad_right :: "nat \<Rightarrow> string \<Rightarrow> string" where
  "pad_right width s = s @ replicate (width - rune_count s) CHR '' ''"

text \<open>The marks in front of a result, as UTF-8: a check mark and a ballot cross.\<close>

definition check_mark :: string where
  "check_mark = [CHR 0xE2, CHR 0x9C, CHR 0x93]"

definition cross_mark :: string where
  "cross_mark = [CHR 0xE2, CHR 0x9C, CHR 0x97]"

section \<open>SplitN and line scanning\<close>

text \<open>\<open>strings.SplitN\<close> with a one-byte separator and a positive count.\<close>

fun SplitN :: "char \<Rightarrow> string \<Rightarrow> nat \<Rightarrow> string list" where
  "SplitN c s 0 = []"
| "SplitN c s (Suc 0) = [s]"
| "SplitN c s (Suc (Suc n)) =
     (let i = Index s c in
      if i < 0 then [s] else take (nat i) s # SplitN c (drop (nat i + 1) s) (Suc n))"

text \<open>
  The lines of a \<open>bufio.Scanner\<close> with its default limits: without the line feed and one carriage
  return before it, no empty line after the last line feed, and nothing more once a line does not
  fit the buffer of 64 KiB.
\<close>

definition max_line :: int where
  "max_line = 65535"

definition drop_cr :: "string \<Rightarrow> string" where
  "drop_cr l = (if l \<noteq> [] \<and> last l = CHR 0x0D then butlast l else l)"

definition raw_lines :: "string \<Rightarrow> string list" where
  "raw_lines s = (let ls = Split CHR 0x0A s in if last ls = [] then butlast ls else ls)"

definition scan_lines :: "string \<Rightarrow> string list" where
  "scan_lines s = map drop_cr (takeWhile (\<lambda>l. int (length l) \<le> max_line) (raw_lines s))"

section \<open>Paths\<close>

text \<open>
  \<open>filepath.Join\<close> on clean paths: where no part is empty or starts or ends with a slash or a dot
  component, joining adds one slash.
\<close>

definition path_join :: "string \<Rightarrow> string \<Rightarrow> string" where
  "path_join d f = d @ ''/'' @ f"

end
