(* ===== verification/CPUList.thy ===== *)
theory CPUList
  imports GoStrings
begin

text \<open>
  \<open>pkg/tuning/cpulist.go\<close>: parsing, rendering and set arithmetic of CPU lists. The section
  \<open>Interface\<close> states what a client may assume of the set operations as the locale \<open>cpu_set_ops\<close>
  and of a carve from a pool as the locale \<open>carver\<close>; both are interpreted on the code's own
  operations at the end.
\<close>

type_synonym cpulist = "int list"

section \<open>Parsing\<close>

datatype cpulist_error =
    BadRange string | ReverseRange string | NegativeRange string
  | BadCPU string | NegativeCPU int

text \<open>
  The loop \<open>for c := lo; c <= hi; c++\<close> over a 64-bit \<open>c\<close>. For \<open>hi\<close> the largest \<open>int\<close> the
  increment wraps and the guard never fails, so the loop does not end.
\<close>

partial_function (option) add_range :: "int \<Rightarrow> int \<Rightarrow> int set \<Rightarrow> int set option" where
  "add_range c hi seen =
     (if c \<le> hi then add_range (wrap64 (c + 1)) hi (insert c seen) else Some seen)"

declare add_range.simps [code]

fun parse_parts :: "string list \<Rightarrow> int set \<Rightarrow> (cpulist_error, int set) outcome" where
  "parse_parts [] seen = Returns seen"
| "parse_parts (p # ps) seen =
     (let part = TrimSpace p in
      if part = [] then parse_parts ps seen
      else let i = Index part CHR ''-'' in
      if i > 0 then
        (let (lo, err1) = Atoi (TrimSpace (take (nat i) part));
             (hi, err2) = Atoi (TrimSpace (drop (nat i + 1) part))
         in if err1 \<noteq> None \<or> err2 \<noteq> None then Fails (BadRange part)
            else if lo > hi then Fails (ReverseRange part)
            else if lo < 0 then Fails (NegativeRange part)
            else (case add_range lo hi seen of
                None \<Rightarrow> Hangs
              | Some seen' \<Rightarrow> parse_parts ps seen'))
      else
        (let (c, err) = Atoi part
         in if err \<noteq> None then Fails (BadCPU part)
            else if c < 0 then Fails (NegativeCPU c)
            else parse_parts ps (insert c seen)))"

text \<open>The keys of the Go map come in any order and are sorted, hence \<open>sorted_list_of_set\<close>.\<close>

definition ParseCPUList :: "string \<Rightarrow> (cpulist_error, cpulist) outcome" where
  "ParseCPUList s0 =
     (let s = TrimSpace s0 in
      if s = [] then Returns []
      else and_then (parse_parts (Split CHR '','' s) {}) (\<lambda>seen. Returns (sorted_list_of_set seen)))"

text \<open>\<open>c, _ := ParseCPUList(s)\<close>: the error is dropped, and with it the list is nil.\<close>

definition cpus_or_nil :: "(cpulist_error, cpulist) outcome \<Rightarrow> ('e, cpulist) outcome" where
  "cpus_or_nil m = (case m of Returns l \<Rightarrow> Returns l | Fails _ \<Rightarrow> Returns [] | Hangs \<Rightarrow> Hangs)"

section \<open>Rendering\<close>

definition flush_range :: "int \<Rightarrow> int \<Rightarrow> string \<Rightarrow> string" where
  "flush_range start prev sb =
     (if sb \<noteq> [] then sb @ '','' else sb) @
     (if start = prev then Itoa start else Itoa start @ ''-'' @ Itoa prev)"

fun string_loop :: "int list \<Rightarrow> int \<Rightarrow> int \<Rightarrow> string \<Rightarrow> string" where
  "string_loop [] start prev sb = flush_range start prev sb"
| "string_loop (c # cs) start prev sb =
     (if c = prev + 1 then string_loop cs start c sb
      else string_loop cs c c (flush_range start prev sb))"

definition CPUList_String :: "cpulist \<Rightarrow> string" where
  "CPUList_String l =
     (case sort l of [] \<Rightarrow> [] | c # cs \<Rightarrow> string_loop cs c c [])"

section \<open>Set operations\<close>

fun CPUList_Contains :: "cpulist \<Rightarrow> int \<Rightarrow> bool" where
  "CPUList_Contains [] cpu \<longleftrightarrow> False"
| "CPUList_Contains (c # l) cpu \<longleftrightarrow> (if c = cpu then True else CPUList_Contains l cpu)"

definition CPUList_Intersect :: "cpulist \<Rightarrow> cpulist \<Rightarrow> cpulist" where
  "CPUList_Intersect l other = sort (filter (\<lambda>c. c \<in> set other) l)"

definition CPUList_Difference :: "cpulist \<Rightarrow> cpulist \<Rightarrow> cpulist" where
  "CPUList_Difference l other = sort (filter (\<lambda>c. c \<notin> set other) l)"

definition CPUList_Union :: "cpulist \<Rightarrow> cpulist \<Rightarrow> cpulist" where
  "CPUList_Union l other = sorted_list_of_set (set l \<union> set other)"

definition CPUList_Len :: "cpulist \<Rightarrow> nat" where
  "CPUList_Len l = length l"

definition CPUList_Disjoint :: "cpulist \<Rightarrow> cpulist \<Rightarrow> bool" where
  "CPUList_Disjoint l other \<longleftrightarrow> length (CPUList_Intersect l other) = 0"

definition CPUList_Take :: "cpulist \<Rightarrow> int \<Rightarrow> cpulist \<times> cpulist" where
  "CPUList_Take l n =
     (if n \<le> 0 then ([], l)
      else let cpus = sort l in
        if n \<ge> int (length cpus) then (cpus, [])
        else (take (nat n) cpus, drop (nat n) cpus))"

section \<open>Well-formed lists\<close>

text \<open>What the type comment promises, deduplicated and sorted, with the range of a parsed CPU.\<close>

definition wf_cpus :: "cpulist \<Rightarrow> bool" where
  "wf_cpus l \<longleftrightarrow> strict_sorted l \<and> (\<forall>c \<in> set l. 0 \<le> c \<and> c \<le> max_int)"

lemma wf_cpus_Nil [simp]: "wf_cpus []"
  by (simp add: wf_cpus_def)

lemma wf_cpus_sortedD [dest]: "wf_cpus l \<Longrightarrow> strict_sorted l"
  by (simp add: wf_cpus_def)

lemma wf_cpus_distinct: "wf_cpus l \<Longrightarrow> distinct l"
  by (simp add: wf_cpus_def strict_sorted_iff)

lemma wf_cpus_eqI: "wf_cpus l \<Longrightarrow> wf_cpus l' \<Longrightarrow> set l = set l' \<Longrightarrow> l = l'"
  by (auto simp: wf_cpus_def intro: strict_sorted_set_eq)

lemma Len_def' [simp]: "CPUList_Len l = length l"
  by (simp add: CPUList_Len_def)

lemma Contains_iff [simp]: "CPUList_Contains l cpu \<longleftrightarrow> cpu \<in> set l"
  by (induction l) auto

lemma set_Intersect [cpu_simps, simp]: "set (CPUList_Intersect l k) = set l \<inter> set k"
  by (auto simp: CPUList_Intersect_def)

lemma set_Difference [cpu_simps, simp]: "set (CPUList_Difference l k) = set l - set k"
  by (auto simp: CPUList_Difference_def)

lemma set_Union [cpu_simps, simp]: "set (CPUList_Union l k) = set l \<union> set k"
  by (simp add: CPUList_Union_def)

lemma Disjoint_iff [cpu_simps, simp]: "CPUList_Disjoint l k \<longleftrightarrow> set l \<inter> set k = {}"
  using set_empty [of "CPUList_Intersect l k"] by (simp add: CPUList_Disjoint_def)

lemma length_Difference_zero [simp]: "CPUList_Difference l k = [] \<longleftrightarrow> set l \<subseteq> set k"
  using set_empty [of "CPUList_Difference l k"] by auto

lemma wf_Intersect: "wf_cpus l \<Longrightarrow> wf_cpus (CPUList_Intersect l k)"
  by (auto simp: wf_cpus_def CPUList_Intersect_def strict_sorted_filter)

lemma wf_Difference: "wf_cpus l \<Longrightarrow> wf_cpus (CPUList_Difference l k)"
  by (auto simp: wf_cpus_def CPUList_Difference_def strict_sorted_filter)

lemma wf_Union: "wf_cpus l \<Longrightarrow> wf_cpus k \<Longrightarrow> wf_cpus (CPUList_Union l k)"
  by (auto simp: wf_cpus_def CPUList_Union_def strict_sorted_sorted_list_of_set)

lemma wf_take: "wf_cpus l \<Longrightarrow> wf_cpus (take n l)"
  by (auto simp: wf_cpus_def strict_sorted_take_drop dest: in_set_takeD)

lemma wf_drop: "wf_cpus l \<Longrightarrow> wf_cpus (drop n l)"
  by (auto simp: wf_cpus_def strict_sorted_take_drop dest: in_set_dropD)

lemma Difference_wf: "wf_cpus l \<Longrightarrow> CPUList_Difference l k = filter (\<lambda>c. c \<notin> set k) l"
  by (simp add: CPUList_Difference_def strict_sorted_filter wf_cpus_sortedD)

lemma Take_wf:
  "wf_cpus l \<Longrightarrow> CPUList_Take l n = (take (nat n) l, drop (nat n) l)"
  by (auto simp: CPUList_Take_def wf_cpus_sortedD)

section \<open>The range loop\<close>

lemma add_range_step: "c \<le> hi \<Longrightarrow> add_range c hi seen = add_range (wrap64 (c + 1)) hi (insert c seen)"
  by (simp add: add_range.simps)

lemma add_range_stop: "hi < c \<Longrightarrow> add_range c hi seen = Some seen"
  by (simp add: add_range.simps)

lemma add_range_Some:
  "min_int \<le> c \<Longrightarrow> hi < max_int \<Longrightarrow> add_range c hi seen = Some (seen \<union> {c..hi})"
proof (induction "nat (hi + 1 - c)" arbitrary: c seen)
  case 0
  then show ?case by (simp add: add_range_stop)
next
  case (Suc n)
  then have le: "c \<le> hi" by simp
  have "wrap64 (c + 1) = c + 1" using Suc.prems le by (simp add: wrap64_id)
  moreover have "add_range (c + 1) hi (insert c seen) = Some (insert c seen \<union> {c + 1..hi})"
    using Suc by (intro Suc.hyps(1)) simp_all
  moreover have "insert c seen \<union> {c + 1..hi} = seen \<union> {c..hi}" using le by auto
  ultimately show ?case using le by (simp add: add_range_step)
qed

text \<open>At the largest \<open>int\<close> the loop has no result: a run that ends would have left the guard.\<close>

lemma wrap64_le_max_int: "wrap64 i \<le> max_int"
  using pos_mod_bound [of "18446744073709551616::int" "i + 9223372036854775808"]
  by (simp add: wrap64_def max_int_def)

lemma add_range_max_int: "c \<le> max_int \<Longrightarrow> add_range c max_int seen = None"
proof (rule ccontr)
  assume c: "c \<le> max_int" and "add_range c max_int seen \<noteq> None"
  then obtain r where r: "add_range c max_int seen = Some r" by auto
  have "hi = max_int \<longrightarrow> \<not> c' \<le> max_int" if "add_range c' hi s = Some r'" for c' hi s r'
  proof (rule add_range.raw_induct
      [where P = "\<lambda>c hi s r. hi = max_int \<longrightarrow> \<not> c \<le> max_int", OF _ that])
    fix f :: "int \<Rightarrow> int \<Rightarrow> int set \<Rightarrow> int set option" and c hi seen r
    assume IH: "\<And>c hi seen r. f c hi seen = Some r \<Longrightarrow> hi = max_int \<longrightarrow> \<not> c \<le> max_int"
      and eq: "(if c \<le> hi then f (wrap64 (c + 1)) hi (insert c seen) else Some seen) = Some r"
    show "hi = max_int \<longrightarrow> \<not> c \<le> max_int"
      using IH [of "wrap64 (c + 1)" hi "insert c seen" r] eq wrap64_le_max_int [of "c + 1"]
      by (auto split: if_splits)
  qed
  from this [OF r] c show False by simp
qed

lemma add_range_eq:
  assumes "min_int \<le> c" "c \<le> hi" "hi \<le> max_int"
  shows "add_range c hi seen = (if hi = max_int then None else Some (seen \<union> {c..hi}))"
  using assms by (auto simp: add_range_Some add_range_max_int)

section \<open>What a parse returns\<close>

lemma parse_parts_range:
  assumes "parse_parts ps seen = Returns seen'" "\<forall>c \<in> seen. 0 \<le> c \<and> c \<le> max_int" "finite seen"
  shows "seen \<subseteq> seen' \<and> finite seen' \<and> (\<forall>c \<in> seen'. 0 \<le> c \<and> c \<le> max_int)"
  using assms
proof (induction ps seen arbitrary: seen' rule: parse_parts.induct)
  case (2 p ps seen)
  define part where "part = TrimSpace p"
  define i where "i = Index part CHR ''-''"
  obtain lo e1 where lo: "Atoi (TrimSpace (take (nat i) part)) = (lo, e1)" by fastforce
  obtain hi e2 where hi: "Atoi (TrimSpace (drop (nat i + 1) part)) = (hi, e2)" by fastforce
  obtain c e where c: "Atoi part = (c, e)" by fastforce
  note IH = "2.IH" [OF part_def]
  consider "part = []" | "part \<noteq> []" "i > 0" | "part \<noteq> []" "\<not> i > 0" by blast
  then show ?case
  proof cases
    case 1
    then show ?thesis using IH(1) "2.prems" by (simp add: part_def)
  next
    case 2
    then have ok: "e1 = None" "e2 = None" "lo \<le> hi" "0 \<le> lo"
      using "2.prems"(1) lo hi
      by (auto simp: part_def [symmetric] i_def [symmetric] Let_def split: if_splits)
    have "min_int \<le> lo" "hi \<le> max_int"
      using ok Atoi_bounds [of _ lo] Atoi_bounds [of _ hi] lo hi by (auto simp: min_int_def)
    then have seen: "add_range lo hi seen = (if hi = max_int then None else Some (seen \<union> {lo..hi}))"
      using ok by (intro add_range_eq) auto
    then have ne: "hi \<noteq> max_int" and eq: "parse_parts ps (seen \<union> {lo..hi}) = Returns seen'"
      using "2.prems"(1) 2 ok lo hi
      by (auto simp: part_def [symmetric] i_def [symmetric] Let_def split: if_splits)
    have "seen \<union> {lo..hi} \<subseteq> seen' \<and> finite seen' \<and> (\<forall>c \<in> seen'. 0 \<le> c \<and> c \<le> max_int)"
      using 2 ok lo hi ne seen eq "2.prems" \<open>hi \<le> max_int\<close>
      by (intro IH(2) [OF _ i_def _ refl _ refl]) (auto simp: i_def)
    then show ?thesis by blast
  next
    case 3
    then have ok: "e = None" "0 \<le> c" and eq: "parse_parts ps (insert c seen) = Returns seen'"
      using "2.prems"(1) c
      by (auto simp: part_def [symmetric] i_def [symmetric] Let_def split: if_splits)
    have "c \<le> max_int" using Atoi_bounds [of part c] c ok by simp
    then have "insert c seen \<subseteq> seen' \<and> finite seen' \<and> (\<forall>c \<in> seen'. 0 \<le> c \<and> c \<le> max_int)"
      using 3 ok c eq "2.prems"
      by (intro IH(3) [OF _ i_def _ refl]) (auto simp: i_def)
    then show ?thesis by blast
  qed
qed simp

lemma wf_ParseCPUList: "ParseCPUList s = Returns l \<Longrightarrow> wf_cpus l"
  using parse_parts_range [of "Split CHR '','' (TrimSpace s)" "{}"]
  by (auto simp: ParseCPUList_def Let_def outcome_simps wf_cpus_def
      strict_sorted_sorted_list_of_set split: if_splits)

text \<open>The grammar of a CPU list: single CPUs and spans, joined by commas.\<close>

datatype piece = Single int | Span int int

fun piece_cpus :: "piece \<Rightarrow> int set" where
  "piece_cpus (Single c) = {c}"
| "piece_cpus (Span lo hi) = {lo..hi}"

fun render_piece :: "piece \<Rightarrow> string" where
  "render_piece (Single c) = Itoa c"
| "render_piece (Span lo hi) = Itoa lo @ ''-'' @ Itoa hi"

fun valid_piece :: "piece \<Rightarrow> bool" where
  "valid_piece (Single c) \<longleftrightarrow> 0 \<le> c \<and> c \<le> max_int"
| "valid_piece (Span lo hi) \<longleftrightarrow> 0 \<le> lo \<and> lo \<le> hi \<and> hi < max_int"

lemma plain_dash: "plain CHR ''-''" and plain_comma: "plain CHR '',''"
  by (simp_all add: plain_def)

lemma render_piece_plain: "c \<in> set (render_piece p) \<Longrightarrow> plain c"
  by (cases p) (auto dest: Itoa_plain simp: plain_dash)

lemma render_piece_nonempty [simp]: "render_piece p \<noteq> []"
  by (cases p) simp_all

lemma render_piece_no_comma: "CHR '','' \<notin> set (render_piece p)"
  by (cases p) (simp_all add: Itoa_no_comma)

lemma TrimSpace_all_plain: "(\<And>c. c \<in> set s \<Longrightarrow> plain c) \<Longrightarrow> TrimSpace s = s"
  by (cases "s = []") (simp_all add: TrimSpace_plain)

lemma TrimSpace_render_piece [simp]: "TrimSpace (render_piece p) = render_piece p"
  by (rule TrimSpace_all_plain) (rule render_piece_plain)

lemma join_plain:
  "(\<And>p c. p \<in> set ps \<Longrightarrow> c \<in> set p \<Longrightarrow> plain c) \<Longrightarrow> c \<in> set (join '','' ps) \<Longrightarrow> plain c"
  by (induction "'',''" ps rule: join.induct) (auto simp: plain_comma)

lemma Index_span: "0 \<le> lo \<Longrightarrow> Index (Itoa lo @ CHR ''-'' # s) CHR ''-'' = int (length (Itoa lo))"
  by (simp add: Index_first Itoa_nonneg_no_minus)

lemma parse_parts_span:
  assumes "0 \<le> lo" "lo \<le> hi" "hi \<le> max_int"
  shows "parse_parts ((Itoa lo @ ''-'' @ Itoa hi) # ps) seen =
    (case add_range lo hi seen of None \<Rightarrow> Hangs | Some seen' \<Rightarrow> parse_parts ps seen')"
proof -
  have "TrimSpace (Itoa lo @ ''-'' @ Itoa hi) = Itoa lo @ ''-'' @ Itoa hi"
    using TrimSpace_render_piece [of "Span lo hi"] by simp
  moreover have "Atoi (Itoa lo) = (lo, None)" "Atoi (Itoa hi) = (hi, None)"
    using assms by (auto intro!: Atoi_Itoa simp: min_int_def)
  ultimately show ?thesis using assms by (simp add: Let_def Index_span)
qed

lemma parse_parts_piece:
  assumes "valid_piece p"
  shows "parse_parts (render_piece p # ps) seen = parse_parts ps (seen \<union> piece_cpus p)"
proof (cases p)
  case (Single c)
  then have "Atoi (Itoa c) = (c, None)" "Index (Itoa c) CHR ''-'' = - 1"
    using assms by (auto intro!: Atoi_Itoa simp: min_int_def Index_notin Itoa_nonneg_no_minus)
  with Single assms show ?thesis by (simp add: Let_def)
next
  case (Span lo hi)
  with assms have "add_range lo hi seen = Some (seen \<union> {lo..hi})"
    by (intro add_range_Some) (auto simp: min_int_def)
  with Span assms parse_parts_span [of lo hi ps seen] show ?thesis by simp
qed

lemma parse_parts_pieces:
  "\<forall>p \<in> set ps. valid_piece p \<Longrightarrow>
   parse_parts (map render_piece ps) seen = Returns (seen \<union> (\<Union>p \<in> set ps. piece_cpus p))"
  by (induction ps arbitrary: seen) (auto simp: parse_parts_piece simp del: parse_parts.simps(2))

lemma ParseCPUList_pieces:
  assumes "\<forall>p \<in> set ps. valid_piece p"
  shows "ParseCPUList (join '','' (map render_piece ps)) =
    Returns (sorted_list_of_set (\<Union>p \<in> set ps. piece_cpus p))"
proof (cases ps)
  case Nil
  then show ?thesis by (simp add: ParseCPUList_def)
next
  case (Cons q qs)
  let ?s = "join '','' (map render_piece ps)"
  have "TrimSpace ?s = ?s"
    by (rule TrimSpace_all_plain) (rule join_plain [of "map render_piece ps"],
        auto dest: render_piece_plain)
  moreover have "Split CHR '','' ?s = map render_piece ps"
    using Cons by (intro Split_join) (auto simp: render_piece_no_comma)
  moreover have "?s \<noteq> []" using Cons by (cases qs) simp_all
  ultimately show ?thesis using assms
    by (simp add: ParseCPUList_def parse_parts_pieces)
qed

section \<open>What a rendering parses to\<close>

definition mk_piece :: "int \<Rightarrow> int \<Rightarrow> piece" where
  "mk_piece start prev = (if start = prev then Single start else Span start prev)"

fun runs :: "int list \<Rightarrow> int \<Rightarrow> int \<Rightarrow> piece list" where
  "runs [] start prev = [mk_piece start prev]"
| "runs (c # cs) start prev =
     (if c = prev + 1 then runs cs start c else mk_piece start prev # runs cs c c)"

lemma runs_nonempty [simp]: "runs cs start prev \<noteq> []"
  by (induction cs start prev rule: runs.induct) auto

lemma flush_range_eq:
  "flush_range start prev sb = (if sb = [] then [] else sb @ '','') @ render_piece (mk_piece start prev)"
  by (simp add: flush_range_def mk_piece_def)

lemma join_Cons: "ps \<noteq> [] \<Longrightarrow> join sep (p # ps) = p @ sep @ join sep ps"
  by (cases ps) simp_all

lemma string_loop_runs:
  "string_loop cs start prev sb =
     (if sb = [] then [] else sb @ '','') @ join '','' (map render_piece (runs cs start prev))"
  by (induction cs start prev sb rule: string_loop.induct)
     (auto simp: flush_range_eq join_Cons)

lemma runs_cpus:
  "start \<le> prev \<Longrightarrow> sorted_wrt (<) (prev # cs) \<Longrightarrow>
   (\<Union>p \<in> set (runs cs start prev). piece_cpus p) = {start..prev} \<union> set cs"
proof (induction cs start prev rule: runs.induct)
  case (2 c cs start prev)
  show ?case
  proof (cases "c = prev + 1")
    case True
    with 2 show ?thesis by auto
  next
    case False
    with 2 have "(\<Union>p \<in> set (runs cs c c). piece_cpus p) = {c..c} \<union> set cs" by auto
    with False 2 show ?thesis by (auto simp: mk_piece_def)
  qed
qed (auto simp: mk_piece_def)

lemma runs_valid:
  "0 \<le> start \<Longrightarrow> start \<le> prev \<Longrightarrow> \<forall>c \<in> set (prev # cs). c < max_int \<Longrightarrow>
   sorted_wrt (<) (prev # cs) \<Longrightarrow> \<forall>p \<in> set (runs cs start prev). valid_piece p"
proof (induction cs start prev rule: runs.induct)
  case (2 c cs start prev)
  then have "valid_piece (mk_piece start prev)" by (auto simp: mk_piece_def)
  with 2 show ?case by auto
qed (auto simp: mk_piece_def)

text \<open>The rendering of a sorted list is the comma-joined list of its maximal runs.\<close>

lemma String_eq_runs:
  "strict_sorted (c # cs) \<Longrightarrow> CPUList_String (c # cs) = join '','' (map render_piece (runs cs c c))"
  unfolding CPUList_String_def by (simp only: sort_strict_sorted) (simp add: string_loop_runs)

lemma String_Nil [simp]: "CPUList_String [] = []"
  by (simp add: CPUList_String_def)

lemma flush_range_not_Nil: "flush_range start prev sb \<noteq> []"
  by (simp add: flush_range_def)

lemma string_loop_not_Nil: "string_loop cs start prev sb \<noteq> []"
  by (induction cs arbitrary: start prev sb) (simp_all add: flush_range_not_Nil)

lemma String_eq_Nil [simp]: "CPUList_String l = [] \<longleftrightarrow> l = []"
proof
  assume "CPUList_String l = []"
  then have "sort l = []" by (auto simp: CPUList_String_def string_loop_not_Nil split: list.splits)
  then have "length l = 0" by (metis length_sort list.size(3))
  then show "l = []" by simp
qed simp

lemma parse_String:
  assumes "wf_cpus l" "max_int \<notin> set l" shows "ParseCPUList (CPUList_String l) = Returns l"
proof (cases l)
  case Nil
  then show ?thesis by (simp add: ParseCPUList_def)
next
  case (Cons c cs)
  have sorted: "strict_sorted (c # cs)" using assms Cons by (simp add: wf_cpus_def)
  have "\<forall>x \<in> set l. x < max_int" using assms by (metis wf_cpus_def order_le_less)
  then have "\<forall>x \<in> set (c # cs). x < max_int" by (simp only: Cons)
  then have "\<forall>p \<in> set (runs cs c c). valid_piece p"
    using assms Cons sorted by (intro runs_valid) (auto simp: wf_cpus_def)
  then have "ParseCPUList (CPUList_String l) =
      Returns (sorted_list_of_set (\<Union>p \<in> set (runs cs c c). piece_cpus p))"
    using Cons sorted by (simp add: String_eq_runs ParseCPUList_pieces)
  also have "(\<Union>p \<in> set (runs cs c c). piece_cpus p) = set l"
    using Cons sorted by (subst runs_cpus) auto
  also have "sorted_list_of_set (set l) = l"
    using assms by (intro strict_sorted_set_eq strict_sorted_sorted_list_of_set) auto
  finally show ?thesis .
qed

section \<open>Interface\<close>

text \<open>
  What the planner, the profile validator and the verifier use of CPU lists: set operations that
  compute the set operations on the represented CPUs, keep well-formedness, and a canonical
  representation.
\<close>

locale cpu_set_ops =
  fixes invar :: "'s \<Rightarrow> bool" and cpus :: "'s \<Rightarrow> 'c set"
    and inter :: "'s \<Rightarrow> 's \<Rightarrow> 's" and diff :: "'s \<Rightarrow> 's \<Rightarrow> 's"
    and union :: "'s \<Rightarrow> 's \<Rightarrow> 's" and disj :: "'s \<Rightarrow> 's \<Rightarrow> bool"
  assumes cpus_inter: "cpus (inter a b) = cpus a \<inter> cpus b"
    and cpus_diff: "cpus (diff a b) = cpus a - cpus b"
    and cpus_union: "cpus (union a b) = cpus a \<union> cpus b"
    and disj_iff: "disj a b \<longleftrightarrow> cpus a \<inter> cpus b = {}"
    and invar_inter: "invar a \<Longrightarrow> invar (inter a b)"
    and invar_diff: "invar a \<Longrightarrow> invar (diff a b)"
    and invar_union: "invar a \<Longrightarrow> invar b \<Longrightarrow> invar (union a b)"
    and canonical: "invar a \<Longrightarrow> invar b \<Longrightarrow> cpus a = cpus b \<Longrightarrow> a = b"
begin

lemmas ops = cpus_inter cpus_diff cpus_union disj_iff

lemma partition: "invar a \<Longrightarrow> union (inter a b) (diff a b) = a"
  by (rule canonical) (auto simp: ops intro: invar_union invar_inter invar_diff)

lemma disj_sym: "disj a b \<longleftrightarrow> disj b a"
  by (auto simp: ops)

lemma disj_diff: "disj (diff a b) b"
  by (auto simp: ops)

lemma invar_foldl_diff: "invar a \<Longrightarrow> invar (foldl diff a bs)"
  by (induction bs arbitrary: a) (auto intro: invar_diff)

lemma cpus_foldl_diff: "cpus (foldl diff a bs) = cpus a - (\<Union>b \<in> set bs. cpus b)"
  by (induction bs arbitrary: a) (auto simp: ops)

lemma foldl_diff_order:
  "invar a \<Longrightarrow> set bs = set bs' \<Longrightarrow> foldl diff a bs = foldl diff a bs'"
  by (rule canonical) (auto simp: cpus_foldl_diff intro: invar_foldl_diff)

lemma cpus_foldl_union: "cpus (foldl union a bs) = cpus a \<union> (\<Union>b \<in> set bs. cpus b)"
  by (induction bs arbitrary: a) (auto simp: ops)

lemma disj_foldl_union: "disj a (foldl union b bs) \<longleftrightarrow> disj a b \<and> (\<forall>c \<in> set bs. disj a c)"
  by (auto simp: ops cpus_foldl_union)

end

text \<open>
  A carve hands out part of a pool and returns the rest. Slices carved one after another from
  one pool never share a CPU, whichever end of the pool they come from.
\<close>

primrec carve_all :: "('p \<Rightarrow> nat \<Rightarrow> 'c list \<times> 'p) \<Rightarrow> 'p \<Rightarrow> nat list \<Rightarrow> 'c list list \<times> 'p" where
  "carve_all carve p [] = ([], p)"
| "carve_all carve p (n # ns) =
     (let (xs, q) = carve p n; (xss, r) = carve_all carve q ns in (xs # xss, r))"

locale carver =
  fixes inv :: "'p \<Rightarrow> bool" and free :: "'p \<Rightarrow> 'c set"
    and carve :: "'p \<Rightarrow> nat \<Rightarrow> 'c list \<times> 'p"
  assumes carve_taken: "inv p \<Longrightarrow> carve p n = (xs, q) \<Longrightarrow> set xs \<subseteq> free p"
    and carve_rest: "inv p \<Longrightarrow> carve p n = (xs, q) \<Longrightarrow> free q = free p - set xs"
    and carve_inv: "inv p \<Longrightarrow> carve p n = (xs, q) \<Longrightarrow> inv q"
begin

lemma carve_all_slices:
  "inv p \<Longrightarrow> carve_all carve p ns = (xss, q) \<Longrightarrow>
   inv q \<and> (\<Union>xs \<in> set xss. set xs) \<subseteq> free p \<and> free q = free p - (\<Union>xs \<in> set xss. set xs) \<and>
   sorted_wrt (\<lambda>xs ys. set xs \<inter> set ys = {}) xss"
proof (induction ns arbitrary: p xss q)
  case (Cons n ns)
  obtain xs r where r: "carve p n = (xs, r)" by fastforce
  obtain yss where yss: "carve_all carve r ns = (yss, q)" "xss = xs # yss"
    using Cons.prems r by (auto split: prod.splits)
  note IH = Cons.IH [OF carve_inv [OF Cons.prems(1) r] yss(1)]
  show ?case
    using IH yss(2) carve_taken [OF Cons.prems(1) r] carve_rest [OF Cons.prems(1) r] by auto
qed simp

end

interpretation cpu_ops: cpu_set_ops wf_cpus set
  CPUList_Intersect CPUList_Difference CPUList_Union CPUList_Disjoint
  by unfold_locales (auto intro: wf_Intersect wf_Difference wf_Union wf_cpus_eqI)

text \<open>
  The planner's two carves: \<open>Take\<close> from the front of the free pool, and the slice expression
  \<open>free[len-n:]\<close> from its end.
\<close>

definition carve_front :: "cpulist \<Rightarrow> nat \<Rightarrow> cpulist \<times> cpulist" where
  "carve_front free n = CPUList_Take free (int n)"

definition carve_back :: "cpulist \<Rightarrow> nat \<Rightarrow> cpulist \<times> cpulist" where
  "carve_back free n = (drop (length free - n) free, take (length free - n) free)"

lemma take_drop_rest: "distinct l \<Longrightarrow> set (drop n l) = set l - set (take n l)"
  using set_take_drop_disjoint [of l n] set_take_Un_drop [of n l] by blast

lemma drop_take_rest: "distinct l \<Longrightarrow> set (take n l) = set l - set (drop n l)"
  using set_take_drop_disjoint [of l n] set_take_Un_drop [of n l] by blast

interpretation front_pool: carver wf_cpus set carve_front
  by unfold_locales
    (auto simp: carve_front_def Take_wf take_drop_rest wf_cpus_distinct wf_drop dest: in_set_takeD)

interpretation back_pool: carver wf_cpus set carve_back
  by unfold_locales
    (auto simp: carve_back_def drop_take_rest wf_cpus_distinct wf_take dest: in_set_dropD)

section \<open>Properties\<close>

text \<open>
  C31. Rendering and parsing are inverse: a well-formed CPU list, rendered as a range list and
  parsed again, is the same list. The only CPU excluded is the largest int, on which the parser's
  range loop does not end.
\<close>

theorem cpulist_roundtrip:
  assumes "wf_cpus l" and "max_int \<notin> set l"
  shows "ParseCPUList (CPUList_String l) = Returns l"
  using assms by (rule parse_String)

theorem cpulist_roundtrip_witness:
  "CPUList_String [0, 1, 2, 3, 8, 12, 13] = ''0-3,8,12-13'' \<and>
   ParseCPUList (CPUList_String [0, 1, 2, 3, 8, 12, 13]) = Returns [0, 1, 2, 3, 8, 12, 13]"
proof
  show "CPUList_String [0, 1, 2, 3, 8, 12, 13] = ''0-3,8,12-13''" by code_simp
  show "ParseCPUList (CPUList_String [0, 1, 2, 3, 8, 12, 13]) = Returns [0, 1, 2, 3, 8, 12, 13]"
    by (rule cpulist_roundtrip) (simp_all add: wf_cpus_def max_int_def)
qed

text \<open>
  C32. The parser computes the denotation of the CPU-list grammar: a comma-joined list of single
  CPUs and spans lo-hi, in any order and overlapping at will, parses to the sorted list of the
  CPUs they name.
\<close>

theorem cpulist_parse_denotes:
  assumes "\<forall>p \<in> set ps. valid_piece p"
  shows "ParseCPUList (join '','' (map render_piece ps)) =
    Returns (sorted_list_of_set (\<Union>p \<in> set ps. piece_cpus p))"
  using assms by (rule ParseCPUList_pieces)

theorem cpulist_parse_denotes_witness:
  "join '','' (map render_piece [Single 9, Span 1 3, Span 2 4]) = ''9,1-3,2-4'' \<and>
   ParseCPUList (join '','' (map render_piece [Single 9, Span 1 3, Span 2 4])) =
     Returns (sorted_list_of_set (\<Union>p \<in> set [Single 9, Span 1 3, Span 2 4]. piece_cpus p))"
proof
  show "join '','' (map render_piece [Single 9, Span 1 3, Span 2 4]) = ''9,1-3,2-4''" by code_simp
  show "ParseCPUList (join '','' (map render_piece [Single 9, Span 1 3, Span 2 4])) =
     Returns (sorted_list_of_set (\<Union>p \<in> set [Single 9, Span 1 3, Span 2 4]. piece_cpus p))"
    by (rule cpulist_parse_denotes) (simp add: max_int_def)
qed

text \<open>
  Whatever text is parsed, a list that is returned is deduplicated, sorted and holds no
  negative CPU, and rendering it gives a text that parses back to it.
\<close>

theorem cpulist_parse_sound:
  assumes "ParseCPUList s = Returns l"
  shows "wf_cpus l \<and> (max_int \<notin> set l \<longrightarrow> ParseCPUList (CPUList_String l) = ParseCPUList s)"
  using assms wf_ParseCPUList parse_String by auto

theorem cpulist_parse_sound_witness:
  "wf_cpus [0, 1, 2, 5] \<and> ParseCPUList (CPUList_String [0, 1, 2, 5]) = ParseCPUList '' 5, 1-2,0-1 ''"
proof -
  have "ParseCPUList '' 5, 1-2,0-1 '' = Returns [0, 1, 2, 5]" by code_simp
  from cpulist_parse_sound [OF this] show ?thesis by (simp add: max_int_def)
qed

text \<open>
  A span that ends at the largest 64-bit int is never rejected and never parsed: the loop
  variable wraps around before the guard can fail, so the parser does not return.
\<close>

theorem cpulist_max_int_hangs:
  assumes "0 \<le> lo" and "lo \<le> max_int"
  shows "ParseCPUList (Itoa lo @ ''-'' @ Itoa max_int) = Hangs"
proof -
  let ?s = "Itoa lo @ ''-'' @ Itoa max_int"
  have "TrimSpace ?s = ?s" using TrimSpace_render_piece [of "Span lo max_int"] by simp
  moreover have "Split CHR '','' ?s = [?s]"
    using render_piece_no_comma [of "Span lo max_int"] by (simp add: Split_no_sep)
  moreover have "parse_parts [?s] {} = Hangs"
    using assms parse_parts_span [of lo max_int "[]" "{}"] by (simp add: add_range_max_int)
  ultimately show ?thesis by (simp add: ParseCPUList_def)
qed

theorem cpulist_max_int_hangs_witness:
  "ParseCPUList (Itoa 0 @ ''-'' @ Itoa max_int) = Hangs"
  by (rule cpulist_max_int_hangs) (simp_all add: max_int_def)

end
