(* ===== verification/PerfProfile.thy ===== *)
theory PerfProfile
  imports CPUList
begin

text \<open>
  \<open>pkg/tuning/profile.go\<close>: the PerformanceProfile document, its validation and its accessors.
  The YAML decoder and the file system are parameters. \<open>valid_profile\<close> states declaratively what
  a profile must satisfy; the code's \<open>Validate\<close> is shown to accept exactly those profiles.
\<close>

section \<open>Data\<close>

type_synonym TuningClass = string

definition ClassReserved :: TuningClass where
  "ClassReserved = ''reserved''"
definition ClassIsolatedExclusive :: TuningClass where
  "ClassIsolatedExclusive = ''isolated-exclusive''"
definition ClassIsolatedShared :: TuningClass where
  "ClassIsolatedShared = ''isolated-shared''"
definition ClassBurstable :: TuningClass where
  "ClassBurstable = ''burstable''"
definition ClassBestEffort :: TuningClass where
  "ClassBestEffort = ''best-effort''"

lemmas class_defs [class_simps] =
  ClassReserved_def ClassIsolatedExclusive_def ClassIsolatedShared_def
  ClassBurstable_def ClassBestEffort_def

record Metadata =
  md_Name :: string
  md_Annotations :: "(string \<times> string) list"
  md_Labels :: "(string \<times> string) list"

record CPUSpec =
  cpu_Reserved :: string
  cpu_Isolated :: string
  cpu_Shared :: string
  cpu_BalanceIsolated :: "bool option"
  cpu_Offlined :: string

record HugepagePage =
  hp_Size :: string
  hp_Count :: int
  hp_Node :: "int option"

record Hugepages =
  DefaultHugepagesSize :: string
  Pages :: "HugepagePage list"

record WorkloadHints =
  HighPowerConsumption :: "bool option"
  RealTime :: "bool option"
  PerPodPowerManagement :: "bool option"

record ComponentTuning =
  ct_Class :: TuningClass
  ct_CPUs :: string
  ct_GOMAXPROCSOverride :: int
  ct_MemoryMaxBytes :: int
  ct_RTPriority :: int
  ct_Notes :: string

text \<open>
  One-field structs (\<open>RealTimeKernel\<close>, \<open>NUMA\<close>, \<open>Net\<close>) are represented by their field, and a
  pointer to a bool by an option.
\<close>

record Spec =
  CPU :: CPUSpec
  Hugepages :: Hugepages
  RealTimeKernel_Enabled :: "bool option"
  NUMA_TopologyPolicy :: string
  WorkloadHints :: WorkloadHints
  NodeSelector :: "(string \<times> string) list"
  GloballyDisableIrqLoadBalancing :: "bool option"
  AdditionalKernelArgs :: "string list"
  Net_UserLevelNetworking :: "bool option"
  ComponentMap :: "(string \<times> ComponentTuning) list"
  DefaultClass :: TuningClass

record PerformanceProfile =
  APIVersion :: string
  Kind :: string
  Metadata :: Metadata
  Spec :: Spec

section \<open>Validation\<close>

datatype profile_error =
    BadAPIVersion string | BadKind string
  | ReservedErr cpulist_error | IsolatedErr cpulist_error
  | ReservedRequired | IsolatedRequired | PoolsOverlap cpulist
  | SharedErr cpulist_error | SharedOutside cpulist
  | OfflinedErr cpulist_error | OfflinedOverlaps
  | BadPageSize string | BadPageCount int string
  | BadTopologyPolicy string
  | ClassRequired string | ClassInvalid string string
  | ComponentCPUsErr string cpulist_error | ComponentCPUsOutside string cpulist
  | RTPriorityNeedsRTKernel string | RTPriorityRange string int
  | DefaultClassInvalid string

definition known_class :: "TuningClass \<Rightarrow> bool" where
  "known_class c \<longleftrightarrow>
     c = ClassReserved \<or> c = ClassIsolatedExclusive \<or> c = ClassIsolatedShared \<or>
     c = ClassBurstable \<or> c = ClassBestEffort"

definition known_policy :: "string \<Rightarrow> bool" where
  "known_policy tp \<longleftrightarrow>
     tp = ''none'' \<or> tp = ''best-effort'' \<or> tp = ''restricted'' \<or> tp = ''single-numa-node''"

definition RTEnabled :: "PerformanceProfile \<Rightarrow> bool" where
  "RTEnabled p \<longleftrightarrow> RealTimeKernel_Enabled (Spec p) = Some True"

definition check_page :: "HugepagePage \<Rightarrow> (profile_error, unit) outcome" where
  "check_page page =
     (if hp_Size page \<noteq> ''1G'' \<and> hp_Size page \<noteq> ''2M'' then Fails (BadPageSize (hp_Size page))
      else if hp_Count page \<le> 0 then Fails (BadPageCount (hp_Count page) (hp_Size page))
      else Returns ())"

definition check_shared :: "string \<Rightarrow> cpulist \<Rightarrow> cpulist \<Rightarrow> (profile_error, unit) outcome" where
  "check_shared s reserved isolated =
     (if s \<noteq> [] then
        and_then (wrap_err SharedErr (ParseCPUList s)) (\<lambda>shared.
          let outside = CPUList_Difference shared (CPUList_Union reserved isolated) in
          guard_err (CPUList_Len outside > 0) (SharedOutside outside))
      else Returns ())"

definition check_offlined :: "string \<Rightarrow> cpulist \<Rightarrow> cpulist \<Rightarrow> (profile_error, unit) outcome" where
  "check_offlined s reserved isolated =
     (if s \<noteq> [] then
        and_then (wrap_err OfflinedErr (ParseCPUList s)) (\<lambda>off.
          guard_err (\<not> CPUList_Disjoint off (CPUList_Union reserved isolated)) OfflinedOverlaps)
      else Returns ())"

text \<open>The body of the loop over \<open>componentMap\<close>.\<close>

definition check_component ::
  "cpulist \<Rightarrow> cpulist \<Rightarrow> bool \<Rightarrow> string \<Rightarrow> ComponentTuning \<Rightarrow> (profile_error, unit) outcome" where
  "check_component reserved isolated rtEnabled name ct =
     (if ct_Class ct = [] then Fails (ClassRequired name)
      else if \<not> known_class (ct_Class ct) then Fails (ClassInvalid name (ct_Class ct))
      else and_then
        (if ct_CPUs ct \<noteq> [] then
           and_then (wrap_err (ComponentCPUsErr name) (ParseCPUList (ct_CPUs ct))) (\<lambda>cpus.
             let outside = CPUList_Difference cpus (CPUList_Union reserved isolated) in
             guard_err (CPUList_Len outside > 0) (ComponentCPUsOutside name outside))
         else Returns ())
        (\<lambda>_. if ct_RTPriority ct \<noteq> 0 \<and> \<not> rtEnabled then Fails (RTPriorityNeedsRTKernel name)
             else guard_err (ct_RTPriority ct < 0 \<or> ct_RTPriority ct > 99)
                    (RTPriorityRange name (ct_RTPriority ct))))"

definition check_entry ::
  "cpulist \<Rightarrow> cpulist \<Rightarrow> bool \<Rightarrow> (string \<times> ComponentTuning) list \<Rightarrow> string \<Rightarrow>
   (profile_error, unit) outcome" where
  "check_entry reserved isolated rtEnabled cm name =
     (case map_of cm name of
        None \<Rightarrow> Returns ()
      | Some ct \<Rightarrow> check_component reserved isolated rtEnabled name ct)"

text \<open>Everything after the two pools are parsed.\<close>

definition check_spec ::
  "iter_order \<Rightarrow> PerformanceProfile \<Rightarrow> cpulist \<Rightarrow> cpulist \<Rightarrow> (profile_error, unit) outcome" where
  "check_spec it p reserved isolated =
     (if CPUList_Len reserved = 0 then Fails ReservedRequired
      else if CPUList_Len isolated = 0 then Fails IsolatedRequired
      else if \<not> CPUList_Disjoint reserved isolated
      then Fails (PoolsOverlap (CPUList_Intersect reserved isolated))
      else
        and_then (check_shared (cpu_Shared (CPU (Spec p))) reserved isolated) (\<lambda>_.
        and_then (check_offlined (cpu_Offlined (CPU (Spec p))) reserved isolated) (\<lambda>_.
        and_then (for_each check_page (Pages (Hugepages (Spec p)))) (\<lambda>_.
        and_then (guard_err
            (NUMA_TopologyPolicy (Spec p) \<noteq> [] \<and> \<not> known_policy (NUMA_TopologyPolicy (Spec p)))
            (BadTopologyPolicy (NUMA_TopologyPolicy (Spec p)))) (\<lambda>_.
        and_then (for_each
            (check_entry reserved isolated (RTEnabled p) (ComponentMap (Spec p)))
            (it 0 (map_keys (ComponentMap (Spec p))))) (\<lambda>_.
          guard_err (DefaultClass (Spec p) \<noteq> [] \<and> \<not> known_class (DefaultClass (Spec p)))
            (DefaultClassInvalid (DefaultClass (Spec p)))))))))"

definition Profile_Validate ::
  "iter_order \<Rightarrow> PerformanceProfile \<Rightarrow> (profile_error, unit) outcome" where
  "Profile_Validate it p =
     (if APIVersion p \<noteq> [] \<and> \<not> HasPrefix (APIVersion p) ''performance.openshift.io/''
      then Fails (BadAPIVersion (APIVersion p))
      else if Kind p \<noteq> [] \<and> Kind p \<noteq> ''PerformanceProfile'' then Fails (BadKind (Kind p))
      else
        and_then (wrap_err ReservedErr (ParseCPUList (cpu_Reserved (CPU (Spec p))))) (\<lambda>reserved.
        and_then (wrap_err IsolatedErr (ParseCPUList (cpu_Isolated (CPU (Spec p))))) (\<lambda>isolated.
          check_spec it p reserved isolated)))"

section \<open>Accessors\<close>

definition ReservedCPUs :: "PerformanceProfile \<Rightarrow> ('e, cpulist) outcome" where
  "ReservedCPUs p = cpus_or_nil (ParseCPUList (cpu_Reserved (CPU (Spec p))))"

definition IsolatedCPUs :: "PerformanceProfile \<Rightarrow> ('e, cpulist) outcome" where
  "IsolatedCPUs p = cpus_or_nil (ParseCPUList (cpu_Isolated (CPU (Spec p))))"

definition SharedCPUs :: "PerformanceProfile \<Rightarrow> ('e, cpulist) outcome" where
  "SharedCPUs p = cpus_or_nil (ParseCPUList (cpu_Shared (CPU (Spec p))))"

definition IRQLoadBalancingDisabled :: "PerformanceProfile \<Rightarrow> bool" where
  "IRQLoadBalancingDisabled p \<longleftrightarrow> GloballyDisableIrqLoadBalancing (Spec p) = Some True"

definition EffectiveDefaultClass :: "PerformanceProfile \<Rightarrow> TuningClass" where
  "EffectiveDefaultClass p =
     (if DefaultClass (Spec p) = [] then ClassBurstable else DefaultClass (Spec p))"

section \<open>Loading\<close>

datatype 'e load_error = ReadErr 'e | ParseErr 'e | InvalidErr profile_error

text \<open>The YAML decoder and \<open>os.ReadFile\<close> are parameters; each returns an error or a value.\<close>

definition Profile_Parse ::
  "(string \<Rightarrow> 'e + PerformanceProfile) \<Rightarrow> iter_order \<Rightarrow> string \<Rightarrow>
   ('e load_error, PerformanceProfile) outcome" where
  "Profile_Parse unmarshal it b =
     (case unmarshal b of
        Inl e \<Rightarrow> Fails (ParseErr e)
      | Inr p \<Rightarrow> and_then (wrap_err InvalidErr (Profile_Validate it p)) (\<lambda>_. Returns p))"

definition Profile_LoadFile ::
  "(string \<Rightarrow> 'e + string) \<Rightarrow> (string \<Rightarrow> 'e + PerformanceProfile) \<Rightarrow> iter_order \<Rightarrow> string \<Rightarrow>
   ('e load_error, PerformanceProfile) outcome" where
  "Profile_LoadFile readfile unmarshal it path =
     (case readfile path of
        Inl e \<Rightarrow> Fails (ReadErr e)
      | Inr b \<Rightarrow> Profile_Parse unmarshal it b)"

section \<open>What a valid profile is\<close>

definition valid_component :: "cpulist \<Rightarrow> cpulist \<Rightarrow> bool \<Rightarrow> ComponentTuning \<Rightarrow> bool" where
  "valid_component reserved isolated rt ct \<longleftrightarrow>
     known_class (ct_Class ct) \<and>
     (ct_CPUs ct \<noteq> [] \<longrightarrow>
        (\<exists>cpus. ParseCPUList (ct_CPUs ct) = Returns cpus \<and> set cpus \<subseteq> set reserved \<union> set isolated)) \<and>
     (ct_RTPriority ct \<noteq> 0 \<longrightarrow> rt) \<and> 0 \<le> ct_RTPriority ct \<and> ct_RTPriority ct \<le> 99"

definition valid_pools :: "CPUSpec \<Rightarrow> cpulist \<Rightarrow> cpulist \<Rightarrow> bool" where
  "valid_pools c reserved isolated \<longleftrightarrow>
     ParseCPUList (cpu_Reserved c) = Returns reserved \<and>
     ParseCPUList (cpu_Isolated c) = Returns isolated \<and>
     reserved \<noteq> [] \<and> isolated \<noteq> [] \<and> set reserved \<inter> set isolated = {} \<and>
     (cpu_Shared c \<noteq> [] \<longrightarrow>
        (\<exists>sh. ParseCPUList (cpu_Shared c) = Returns sh \<and> set sh \<subseteq> set reserved \<union> set isolated)) \<and>
     (cpu_Offlined c \<noteq> [] \<longrightarrow>
        (\<exists>off. ParseCPUList (cpu_Offlined c) = Returns off \<and>
               set off \<inter> (set reserved \<union> set isolated) = {}))"

definition valid_pages :: "HugepagePage list \<Rightarrow> bool" where
  "valid_pages pages \<longleftrightarrow> (\<forall>page \<in> set pages. hp_Size page \<in> {''1G'', ''2M''} \<and> hp_Count page > 0)"

definition valid_components ::
  "cpulist \<Rightarrow> cpulist \<Rightarrow> bool \<Rightarrow> (string \<times> ComponentTuning) list \<Rightarrow> bool" where
  "valid_components reserved isolated rt cm \<longleftrightarrow>
     (\<forall>name ct. map_of cm name = Some ct \<longrightarrow> valid_component reserved isolated rt ct)"

definition valid_profile :: "PerformanceProfile \<Rightarrow> bool" where
  "valid_profile p \<longleftrightarrow>
     (APIVersion p = [] \<or> HasPrefix (APIVersion p) ''performance.openshift.io/'') \<and>
     (Kind p = [] \<or> Kind p = ''PerformanceProfile'') \<and>
     (\<exists>reserved isolated. valid_pools (CPU (Spec p)) reserved isolated \<and>
        valid_components reserved isolated (RTEnabled p) (ComponentMap (Spec p))) \<and>
     valid_pages (Pages (Hugepages (Spec p))) \<and>
     (NUMA_TopologyPolicy (Spec p) = [] \<or> known_policy (NUMA_TopologyPolicy (Spec p))) \<and>
     (DefaultClass (Spec p) = [] \<or> known_class (DefaultClass (Spec p)))"

lemma check_page_Returns [outcome_simps]:
  "check_page page = Returns () \<longleftrightarrow> hp_Size page \<in> {''1G'', ''2M''} \<and> hp_Count page > 0"
  by (auto simp: check_page_def)

lemma check_shared_Returns:
  "check_shared s reserved isolated = Returns () \<longleftrightarrow>
   (s \<noteq> [] \<longrightarrow> (\<exists>sh. ParseCPUList s = Returns sh \<and> set sh \<subseteq> set reserved \<union> set isolated))"
  by (auto simp: check_shared_def outcome_simps Let_def)

lemma check_offlined_Returns:
  "check_offlined s reserved isolated = Returns () \<longleftrightarrow>
   (s \<noteq> [] \<longrightarrow> (\<exists>off. ParseCPUList s = Returns off \<and> set off \<inter> (set reserved \<union> set isolated) = {}))"
  by (auto simp: check_offlined_def outcome_simps)

lemma not_known_class_Nil [simp]: "\<not> known_class []"
  by (simp add: known_class_def class_simps)

lemma check_component_Returns:
  "check_component reserved isolated rt name ct = Returns () \<longleftrightarrow>
   valid_component reserved isolated rt ct"
  by (auto simp: check_component_def valid_component_def outcome_simps Let_def)

lemma check_entries_Returns:
  assumes "fair_order it"
  shows "for_each (check_entry reserved isolated rt cm) (it 0 (map_keys cm)) = Returns () \<longleftrightarrow>
    valid_components reserved isolated rt cm"
  using assms
  by (auto simp: valid_components_def outcome_simps fair_order_set set_map_keys check_entry_def
      check_component_Returns dom_def split: option.splits)

lemma check_spec_Returns:
  assumes "fair_order it"
    and "ParseCPUList (cpu_Reserved (CPU (Spec p))) = Returns reserved"
    and "ParseCPUList (cpu_Isolated (CPU (Spec p))) = Returns isolated"
  shows "check_spec it p reserved isolated = Returns () \<longleftrightarrow>
    valid_pools (CPU (Spec p)) reserved isolated \<and>
    valid_components reserved isolated (RTEnabled p) (ComponentMap (Spec p)) \<and>
    valid_pages (Pages (Hugepages (Spec p))) \<and>
    (NUMA_TopologyPolicy (Spec p) = [] \<or> known_policy (NUMA_TopologyPolicy (Spec p))) \<and>
    (DefaultClass (Spec p) = [] \<or> known_class (DefaultClass (Spec p)))"
proof -
  have "for_each check_page ps = Returns () \<longleftrightarrow> valid_pages ps" for ps
    by (simp add: valid_pages_def outcome_simps)
  then show ?thesis
    unfolding check_spec_def valid_pools_def
    by (simp add: assms and_then_eq_Returns guard_err_eq check_entries_Returns
        check_shared_Returns check_offlined_Returns) blast
qed

lemma valid_pools_parse:
  "valid_pools c reserved isolated \<Longrightarrow>
   ParseCPUList (cpu_Reserved c) = Returns reserved \<and> ParseCPUList (cpu_Isolated c) = Returns isolated"
  by (simp add: valid_pools_def)

lemma Validate_Returns_iff:
  assumes "fair_order it"
  shows "Profile_Validate it p = Returns () \<longleftrightarrow> valid_profile p"
proof -
  have "Profile_Validate it p = Returns () \<longleftrightarrow>
    (APIVersion p = [] \<or> HasPrefix (APIVersion p) ''performance.openshift.io/'') \<and>
    (Kind p = [] \<or> Kind p = ''PerformanceProfile'') \<and>
    (\<exists>reserved isolated. ParseCPUList (cpu_Reserved (CPU (Spec p))) = Returns reserved \<and>
       ParseCPUList (cpu_Isolated (CPU (Spec p))) = Returns isolated \<and>
       check_spec it p reserved isolated = Returns ())"
    by (auto simp: Profile_Validate_def outcome_simps)
  also have "\<dots> \<longleftrightarrow> valid_profile p" (is "?L \<longleftrightarrow> _")
  proof
    assume L: ?L
    then obtain reserved isolated where
      parsed: "ParseCPUList (cpu_Reserved (CPU (Spec p))) = Returns reserved"
        "ParseCPUList (cpu_Isolated (CPU (Spec p))) = Returns isolated"
      and "check_spec it p reserved isolated = Returns ()" by blast
    with check_spec_Returns [OF assms parsed] L show "valid_profile p"
      unfolding valid_profile_def by blast
  next
    assume v: "valid_profile p"
    then obtain reserved isolated where pools: "valid_pools (CPU (Spec p)) reserved isolated"
      "valid_components reserved isolated (RTEnabled p) (ComponentMap (Spec p))"
      by (auto simp: valid_profile_def)
    note parsed = valid_pools_parse [OF pools(1)]
    then have "check_spec it p reserved isolated = Returns ()"
      using check_spec_Returns [OF assms, of p reserved isolated] v pools
      by (simp add: valid_profile_def)
    with parsed v show ?L by (auto simp: valid_profile_def)
  qed
  finally show ?thesis .
qed

text \<open>The pools of a valid profile, as the accessors return them.\<close>

lemma valid_profile_pools:
  assumes "valid_profile p"
  obtains reserved isolated where
    "ReservedCPUs p = Returns reserved" "IsolatedCPUs p = Returns isolated"
    "valid_pools (CPU (Spec p)) reserved isolated"
    "valid_components reserved isolated (RTEnabled p) (ComponentMap (Spec p))"
    "wf_cpus reserved" "wf_cpus isolated"
  using assms
  by (auto simp: valid_profile_def valid_pools_def ReservedCPUs_def IsolatedCPUs_def
      cpus_or_nil_def intro: wf_ParseCPUList)

lemma known_class_cases:
  assumes "known_class c"
  obtains "c = ClassReserved" | "c = ClassIsolatedExclusive" | "c = ClassIsolatedShared"
    | "c = ClassBurstable" | "c = ClassBestEffort"
  using assms by (auto simp: known_class_def)

lemma EffectiveDefaultClass_known:
  "valid_profile p \<Longrightarrow> known_class (EffectiveDefaultClass p)"
  by (auto simp: valid_profile_def EffectiveDefaultClass_def known_class_def)

section \<open>Properties\<close>

text \<open>
  C37. Validation is exact: whatever order the runtime picks for the component map, Validate
  accepts a profile if and only if the profile is valid: parsable, non-empty and disjoint pools,
  shared CPUs inside and offlined CPUs outside of them, positive page counts, known classes and
  policy, component CPUs inside the pools, priorities in 0..99 and only with the RT kernel.
\<close>

theorem profile_validate_exact:
  assumes "fair_order it"
  shows "Profile_Validate it p = Returns () \<longleftrightarrow> valid_profile p"
  using assms by (rule Validate_Returns_iff)

definition sample_ct :: ComponentTuning where
  "sample_ct = \<lparr>ct_Class = ''isolated-exclusive'', ct_CPUs = ''6-7'', ct_GOMAXPROCSOverride = 0,
     ct_MemoryMaxBytes = 0, ct_RTPriority = 50, ct_Notes = []\<rparr>"

definition sample_profile :: PerformanceProfile where
  "sample_profile = \<lparr>APIVersion = ''performance.openshift.io/v2'', Kind = ''PerformanceProfile'',
     Metadata = \<lparr>md_Name = ''t'', md_Annotations = [], md_Labels = []\<rparr>,
     Spec = \<lparr>CPU = \<lparr>cpu_Reserved = ''0-1'', cpu_Isolated = ''2-7'', cpu_Shared = [],
         cpu_BalanceIsolated = None, cpu_Offlined = ''8''\<rparr>,
       Hugepages = \<lparr>DefaultHugepagesSize = ''1G'', Pages = [\<lparr>hp_Size = ''1G'', hp_Count = 4, hp_Node = None\<rparr>]\<rparr>,
       RealTimeKernel_Enabled = Some True, NUMA_TopologyPolicy = ''restricted'',
       WorkloadHints = \<lparr>HighPowerConsumption = None, RealTime = None, PerPodPowerManagement = None\<rparr>,
       NodeSelector = [], GloballyDisableIrqLoadBalancing = Some True, AdditionalKernelArgs = [],
       Net_UserLevelNetworking = None,
       ComponentMap = [(''chaos-victim'', sample_ct),
         (''etcd'', sample_ct\<lparr>ct_Class := ''reserved'', ct_CPUs := [], ct_RTPriority := 0\<rparr>)],
       DefaultClass = []\<rparr>\<rparr>"

theorem profile_validate_exact_witness:
  "Profile_Validate (\<lambda>k ks. rev ks) sample_profile = Returns () \<and> valid_profile sample_profile"
proof -
  have "Profile_Validate (\<lambda>k ks. rev ks) sample_profile = Returns ()" by code_simp
  then show ?thesis using profile_validate_exact [OF fair_order_rev, of sample_profile] by simp
qed

text \<open>
  The random iteration order of the component map can decide which error is reported, never
  whether the profile is accepted.
\<close>

theorem profile_validate_order_free:
  assumes "fair_order it" and "fair_order it'"
  shows "Profile_Validate it p = Returns () \<longleftrightarrow> Profile_Validate it' p = Returns ()"
  using assms by (simp add: Validate_Returns_iff)

theorem profile_validate_order_free_witness:
  "Profile_Validate (\<lambda>k ks. ks) sample_profile = Returns () \<longleftrightarrow>
   Profile_Validate (\<lambda>k ks. rev ks) sample_profile = Returns ()"
  by (rule profile_validate_order_free [OF fair_order_id fair_order_rev])

end
