(* ===== verification/Topo.thy ===== *)
theory Topo
  imports GoStrings
begin

text \<open>
  \<open>pkg/topology/topology.go\<close>: the component layout of a host, its expansion into one entry per
  process to launch, its validation and its one-line summary. The YAML decoder and the file
  system are parameters.
\<close>

section \<open>Data\<close>

record ProcessSpec =
  ps_Profile :: string
  ps_Replicas :: int
  ps_GOMAXPROCS :: int
  ps_IdealThreads :: int
  ps_Notes :: string

record Component =
  c_Name :: string
  c_Description :: string
  c_Role :: string
  c_Processes :: "ProcessSpec list"

record Topology =
  HostType :: string
  Description :: string
  Components :: "Component list"

record FlatProcess =
  fp_Component :: string
  fp_Profile :: string
  fp_GOMAXPROCS :: int
  fp_IdealThreads :: int
  fp_ReplicaID :: string

section \<open>Flatten\<close>

text \<open>The counters \<open>indexes\<close> are a Go map read with its zero default, here a total function.\<close>

definition eff_replicas :: "ProcessSpec \<Rightarrow> int" where
  "eff_replicas p = (if ps_Replicas p \<le> 0 then 1 else ps_Replicas p)"

definition eff_gomaxprocs :: "int \<Rightarrow> ProcessSpec \<Rightarrow> int" where
  "eff_gomaxprocs gomaxprocsOverride p =
     (if gomaxprocsOverride > 0 then gomaxprocsOverride else ps_GOMAXPROCS p)"

definition replica_id :: "string \<Rightarrow> int \<Rightarrow> string" where
  "replica_id name idx = name @ ''-'' @ Itoa idx"

type_synonym flatten_state = "(string \<Rightarrow> int) \<times> FlatProcess list"

fun flatten_replicas :: "int \<Rightarrow> string \<Rightarrow> ProcessSpec \<Rightarrow> nat \<Rightarrow> flatten_state \<Rightarrow> flatten_state" where
  "flatten_replicas ov name p 0 st = st"
| "flatten_replicas ov name p (Suc n) (indexes, out) =
     flatten_replicas ov name p n
       (indexes(name := indexes name + 1),
        out @ [\<lparr>fp_Component = name, fp_Profile = ps_Profile p,
                fp_GOMAXPROCS = eff_gomaxprocs ov p, fp_IdealThreads = ps_IdealThreads p,
                fp_ReplicaID = replica_id name (indexes name)\<rparr>])"

fun flatten_processes :: "int \<Rightarrow> string \<Rightarrow> ProcessSpec list \<Rightarrow> flatten_state \<Rightarrow> flatten_state" where
  "flatten_processes ov name [] st = st"
| "flatten_processes ov name (p # ps) st =
     flatten_processes ov name ps (flatten_replicas ov name p (nat (eff_replicas p)) st)"

fun flatten_components :: "int \<Rightarrow> Component list \<Rightarrow> flatten_state \<Rightarrow> flatten_state" where
  "flatten_components ov [] st = st"
| "flatten_components ov (c # cs) st =
     flatten_components ov cs (flatten_processes ov (c_Name c) (c_Processes c) st)"

definition Topology_Flatten :: "Topology \<Rightarrow> int \<Rightarrow> FlatProcess list" where
  "Topology_Flatten t gomaxprocsOverride =
     snd (flatten_components gomaxprocsOverride (Components t) (\<lambda>_. 0, []))"

section \<open>Validate\<close>

datatype topology_error =
    HostTypeRequired | NoComponents | NameRequired nat | NoProcesses string
  | ProfileRequired string nat | NegativeReplicas string nat | NegativeGOMAXPROCS string nat

definition check_process :: "string \<Rightarrow> nat \<times> ProcessSpec \<Rightarrow> (topology_error, unit) outcome" where
  "check_process name jp =
     (case jp of (j, p) \<Rightarrow>
        if ps_Profile p = [] then Fails (ProfileRequired name j)
        else if ps_Replicas p < 0 then Fails (NegativeReplicas name j)
        else if ps_GOMAXPROCS p < 0 then Fails (NegativeGOMAXPROCS name j)
        else Returns ())"

definition check_topo_component :: "nat \<times> Component \<Rightarrow> (topology_error, unit) outcome" where
  "check_topo_component ic =
     (case ic of (i, c) \<Rightarrow>
        if c_Name c = [] then Fails (NameRequired i)
        else if c_Processes c = [] then Fails (NoProcesses (c_Name c))
        else for_each (check_process (c_Name c)) (enumerate 0 (c_Processes c)))"

definition Topology_Validate :: "Topology \<Rightarrow> (topology_error, unit) outcome" where
  "Topology_Validate t =
     (if HostType t = [] then Fails HostTypeRequired
      else if Components t = [] then Fails NoComponents
      else for_each check_topo_component (enumerate 0 (Components t)))"

datatype 'e topo_load_error = TopoReadErr 'e | TopoParseErr 'e | TopoInvalid topology_error

definition Topology_Parse ::
  "(string \<Rightarrow> 'e + Topology) \<Rightarrow> string \<Rightarrow> ('e topo_load_error, Topology) outcome" where
  "Topology_Parse unmarshal b =
     (case unmarshal b of
        Inl e \<Rightarrow> Fails (TopoParseErr e)
      | Inr t \<Rightarrow> and_then (wrap_err TopoInvalid (Topology_Validate t)) (\<lambda>_. Returns t))"

definition Topology_LoadFile ::
  "(string \<Rightarrow> 'e + string) \<Rightarrow> (string \<Rightarrow> 'e + Topology) \<Rightarrow> string \<Rightarrow>
   ('e topo_load_error, Topology) outcome" where
  "Topology_LoadFile readfile unmarshal path =
     (case readfile path of
        Inl e \<Rightarrow> Fails (TopoReadErr e)
      | Inr b \<Rightarrow> Topology_Parse unmarshal b)"

section \<open>Summary\<close>

fun count_processes :: "ProcessSpec list \<Rightarrow> int \<times> (string \<times> int) list \<Rightarrow> int \<times> (string \<times> int) list" where
  "count_processes [] st = st"
| "count_processes (p # ps) (tot, counts) =
     count_processes ps
       (tot + eff_replicas p, bump_count (ps_Profile p) (eff_replicas p) counts)"

fun count_components :: "Component list \<Rightarrow> int \<times> (string \<times> int) list \<Rightarrow> int \<times> (string \<times> int) list" where
  "count_components [] st = st"
| "count_components (c # cs) st = count_components cs (count_processes (c_Processes c) st)"

definition Topology_Summary :: "Topology \<Rightarrow> string" where
  "Topology_Summary t =
     (let (totalProcs, profileCounts) = count_components (Components t) (0, []) in
      HostType t @ '': '' @ Itoa (int (length (Components t))) @ '' components, '' @
      Itoa totalProcs @ '' processes ('' @ format_counts profileCounts @ '')'')"

section \<open>Replica identifiers\<close>

lemma replica_id_inj:
  assumes "0 \<le> i" "0 \<le> j" shows "replica_id n i = replica_id m j \<longleftrightarrow> n = m \<and> i = j"
proof
  assume "replica_id n i = replica_id m j"
  then have "n = m \<and> Itoa i = Itoa j"
    using assms by (auto simp: replica_id_def dest!: append_last_sep_inj simp: Itoa_nonneg_no_minus)
  then show "n = m \<and> i = j" using assms Itoa_inj by blast
qed simp

text \<open>
  The loop invariant of Flatten: the identifiers handed out for a name are those below its
  counter, each once.
\<close>

definition flat_inv :: "flatten_state \<Rightarrow> bool" where
  "flat_inv st \<longleftrightarrow>
     (\<forall>n. 0 \<le> fst st n) \<and> distinct (map fp_ReplicaID (snd st)) \<and>
     (\<forall>f \<in> set (snd st). \<exists>i. 0 \<le> i \<and> i < fst st (fp_Component f) \<and>
        fp_ReplicaID f = replica_id (fp_Component f) i)"

lemma flatten_step_inv:
  assumes "flat_inv (indexes, out)"
    and "fp_Component f = name" "fp_ReplicaID f = replica_id name (indexes name)"
  shows "flat_inv (indexes(name := indexes name + 1), out @ [f])"
proof -
  have nonneg: "0 \<le> indexes n" for n using assms by (simp add: flat_inv_def)
  have old: "\<exists>i. 0 \<le> i \<and> i < indexes (fp_Component g) \<and> fp_ReplicaID g = replica_id (fp_Component g) i"
    if "g \<in> set out" for g using assms(1) that by (simp add: flat_inv_def)
  have "fp_ReplicaID f \<notin> fp_ReplicaID ` set out"
  proof
    assume "fp_ReplicaID f \<in> fp_ReplicaID ` set out"
    then obtain g where g: "g \<in> set out" "fp_ReplicaID g = replica_id name (indexes name)"
      using assms by auto
    with old obtain i where "0 \<le> i" "i < indexes (fp_Component g)"
      "replica_id (fp_Component g) i = replica_id name (indexes name)" by metis
    with nonneg show False by (auto simp: replica_id_inj)
  qed
  then show ?thesis
    using assms nonneg old by (fastforce simp: flat_inv_def)
qed

lemma flatten_replicas_inv: "flat_inv st \<Longrightarrow> flat_inv (flatten_replicas ov name p n st)"
  by (induction ov name p n st rule: flatten_replicas.induct) (simp_all add: flatten_step_inv)

lemma flatten_processes_inv: "flat_inv st \<Longrightarrow> flat_inv (flatten_processes ov name ps st)"
  by (induction ps arbitrary: st) (simp_all add: flatten_replicas_inv)

lemma flatten_components_inv: "flat_inv st \<Longrightarrow> flat_inv (flatten_components ov cs st)"
  by (induction cs arbitrary: st) (simp_all add: flatten_processes_inv)

lemma Flatten_inv: "flat_inv (flatten_components ov (Components t) (\<lambda>_. 0, []))"
  by (rule flatten_components_inv) (simp add: flat_inv_def)

lemma Flatten_replica_nonempty: "f \<in> set (Topology_Flatten t ov) \<Longrightarrow> fp_ReplicaID f \<noteq> []"
  using Flatten_inv [of ov t] by (auto simp: flat_inv_def Topology_Flatten_def replica_id_def)

section \<open>Number and contents of the processes\<close>

lemma eff_replicas_pos: "0 < eff_replicas p"
  by (simp add: eff_replicas_def)

text \<open>Each loop appends entries; the entries are described by what they copy from the topology.\<close>

definition entry_of :: "int \<Rightarrow> string \<Rightarrow> ProcessSpec \<Rightarrow> FlatProcess \<Rightarrow> bool" where
  "entry_of ov name p f \<longleftrightarrow>
     fp_Component f = name \<and> fp_Profile f = ps_Profile p \<and>
     fp_GOMAXPROCS f = eff_gomaxprocs ov p \<and> fp_IdealThreads f = ps_IdealThreads p"

lemma flatten_replicas_out:
  "\<exists>fs. snd (flatten_replicas ov name p n st) = snd st @ fs \<and> length fs = n \<and>
     (\<forall>f \<in> set fs. entry_of ov name p f)"
proof (induction ov name p n st rule: flatten_replicas.induct)
  case (2 ov name p n indexes out)
  then show ?case by (auto simp: entry_of_def)
qed simp

fun procs_total :: "ProcessSpec list \<Rightarrow> int" where
  "procs_total [] = 0"
| "procs_total (p # ps) = eff_replicas p + procs_total ps"

definition total_procs :: "Component list \<Rightarrow> int" where
  "total_procs cs = (\<Sum>c \<leftarrow> cs. procs_total (c_Processes c))"

lemma flatten_processes_out:
  "\<exists>fs. snd (flatten_processes ov name ps st) = snd st @ fs \<and> int (length fs) = procs_total ps \<and>
     (\<forall>f \<in> set fs. \<exists>p \<in> set ps. entry_of ov name p f)"
proof (induction ps arbitrary: st)
  case (Cons p ps)
  obtain fs where fs: "snd (flatten_replicas ov name p (nat (eff_replicas p)) st) = snd st @ fs"
    "length fs = nat (eff_replicas p)" "\<forall>f \<in> set fs. entry_of ov name p f"
    using flatten_replicas_out by blast
  obtain gs where "snd (flatten_processes ov name ps (flatten_replicas ov name p (nat (eff_replicas p)) st))
      = (snd st @ fs) @ gs" "int (length gs) = procs_total ps"
      "\<forall>f \<in> set gs. \<exists>p \<in> set ps. entry_of ov name p f"
    using Cons.IH fs(1) by metis
  with fs eff_replicas_pos [of p] show ?case by (intro exI [of _ "fs @ gs"]) auto
qed simp

lemma flatten_components_out:
  "\<exists>fs. snd (flatten_components ov cs st) = snd st @ fs \<and> int (length fs) = total_procs cs \<and>
     (\<forall>f \<in> set fs. \<exists>c \<in> set cs. \<exists>p \<in> set (c_Processes c). entry_of ov (c_Name c) p f)"
proof (induction cs arbitrary: st)
  case (Cons c cs)
  obtain fs where fs: "snd (flatten_processes ov (c_Name c) (c_Processes c) st) = snd st @ fs"
    "int (length fs) = procs_total (c_Processes c)"
    "\<forall>f \<in> set fs. \<exists>p \<in> set (c_Processes c). entry_of ov (c_Name c) p f"
    using flatten_processes_out by blast
  obtain gs where "snd (flatten_components ov cs (flatten_processes ov (c_Name c) (c_Processes c) st))
      = (snd st @ fs) @ gs" "int (length gs) = total_procs cs"
      "\<forall>f \<in> set gs. \<exists>c \<in> set cs. \<exists>p \<in> set (c_Processes c). entry_of ov (c_Name c) p f"
    using Cons.IH fs(1) by metis
  with fs show ?case by (intro exI [of _ "fs @ gs"]) (auto simp: total_procs_def)
qed (simp add: total_procs_def)

lemma Flatten_out:
  "int (length (Topology_Flatten t ov)) = total_procs (Components t) \<and>
   (\<forall>f \<in> set (Topology_Flatten t ov).
      \<exists>c \<in> set (Components t). \<exists>p \<in> set (c_Processes c). entry_of ov (c_Name c) p f)"
  using flatten_components_out [of ov "Components t" "(\<lambda>_. 0, [])"]
  by (auto simp: Topology_Flatten_def)

lemma count_processes_total: "fst (count_processes ps st) = fst st + procs_total ps"
  by (induction ps st rule: count_processes.induct) auto

lemma count_components_total: "fst (count_components cs st) = fst st + total_procs cs"
  by (induction cs arbitrary: st) (auto simp: total_procs_def count_processes_total)

section \<open>Validation\<close>

definition valid_process :: "ProcessSpec \<Rightarrow> bool" where
  "valid_process p \<longleftrightarrow> ps_Profile p \<noteq> [] \<and> 0 \<le> ps_Replicas p \<and> 0 \<le> ps_GOMAXPROCS p"

definition valid_topology :: "Topology \<Rightarrow> bool" where
  "valid_topology t \<longleftrightarrow> HostType t \<noteq> [] \<and> Components t \<noteq> [] \<and>
     (\<forall>c \<in> set (Components t). c_Name c \<noteq> [] \<and> c_Processes c \<noteq> [] \<and>
        (\<forall>p \<in> set (c_Processes c). valid_process p))"

lemma for_each_enumerate:
  "(\<forall>ix \<in> set (enumerate n xs). P (snd ix)) \<longleftrightarrow> (\<forall>x \<in> set xs. P x)"
  by (induction xs arbitrary: n) auto

lemma check_process_Returns: "check_process name jp = Returns () \<longleftrightarrow> valid_process (snd jp)"
  by (cases jp) (auto simp: check_process_def valid_process_def)

lemma check_topo_component_Returns:
  "check_topo_component ic = Returns () \<longleftrightarrow>
   c_Name (snd ic) \<noteq> [] \<and> c_Processes (snd ic) \<noteq> [] \<and> (\<forall>p \<in> set (c_Processes (snd ic)). valid_process p)"
  by (cases ic)
     (simp add: check_topo_component_def for_each_Returns check_process_Returns for_each_enumerate)

section \<open>Properties\<close>

text \<open>
  The replica identifiers of a flattened topology are pairwise distinct, whatever the
  component names: a name may occur several times, and may itself end in a dash and digits.
\<close>

theorem flatten_replica_ids_distinct: "distinct (map fp_ReplicaID (Topology_Flatten t ov))"
  using Flatten_inv [of ov t] by (simp add: flat_inv_def Topology_Flatten_def)

text \<open>
  Flatten yields exactly one entry per replica, as many as the summary line counts, and every
  entry carries the override when one is given, else the topology's own value.
\<close>

theorem flatten_counts_and_override:
  "int (length (Topology_Flatten t ov)) = fst (count_components (Components t) (0, [])) \<and>
   (\<forall>f \<in> set (Topology_Flatten t ov).
      \<exists>c \<in> set (Components t). \<exists>p \<in> set (c_Processes c).
        fp_Component f = c_Name c \<and> fp_Profile f = ps_Profile p \<and>
        fp_IdealThreads f = ps_IdealThreads p \<and>
        fp_GOMAXPROCS f = (if ov > 0 then ov else ps_GOMAXPROCS p))"
  using Flatten_out [of t ov]
  by (fastforce simp: count_components_total entry_of_def eff_gomaxprocs_def)

definition sample_topology :: Topology where
  "sample_topology = \<lparr>HostType = ''test'', Description = [], Components =
     [\<lparr>c_Name = ''etcd'', c_Description = [], c_Role = [],
       c_Processes = [\<lparr>ps_Profile = ''etcd-like'', ps_Replicas = 0, ps_GOMAXPROCS = 0,
                       ps_IdealThreads = 2, ps_Notes = []\<rparr>]\<rparr>,
      \<lparr>c_Name = ''vector'', c_Description = [], c_Role = [],
       c_Processes = [\<lparr>ps_Profile = ''logging'', ps_Replicas = 2, ps_GOMAXPROCS = 3,
                       ps_IdealThreads = 1, ps_Notes = []\<rparr>]\<rparr>]\<rparr>"

theorem flatten_counts_and_override_witness:
  "map fp_ReplicaID (Topology_Flatten sample_topology 7) = [''etcd-0'', ''vector-0'', ''vector-1''] \<and>
   int (length (Topology_Flatten sample_topology 7)) = 3"
proof
  show "map fp_ReplicaID (Topology_Flatten sample_topology 7) = [''etcd-0'', ''vector-0'', ''vector-1'']"
    by code_simp
  have "fst (count_components (Components sample_topology) (0, [])) = 3" by code_simp
  then show "int (length (Topology_Flatten sample_topology 7)) = 3"
    using flatten_counts_and_override [of sample_topology 7] by simp
qed

text \<open>
  Validate accepts a topology if and only if it names a host type, has a component, and every
  component has a name and processes with a profile and non-negative numbers.
\<close>

theorem topology_validate_exact: "Topology_Validate t = Returns () \<longleftrightarrow> valid_topology t"
  by (simp add: Topology_Validate_def valid_topology_def for_each_Returns
      check_topo_component_Returns for_each_enumerate
        [where P = "\<lambda>c. c_Name c \<noteq> [] \<and> c_Processes c \<noteq> [] \<and> (\<forall>p \<in> set (c_Processes c). valid_process p)"])

end
