(* ===== verification/Plan.thy ===== *)
theory Plan
  imports PerfProfile Topo
begin

text \<open>
  \<open>pkg/tuning/plan.go\<close>: from a profile, a topology and its flattened processes to one assignment
  of CPUs per process. This theory holds the model and its loop-by-loop inversion lemmas; the
  guarantees of a finished plan are in \<open>PlanProps\<close>.
\<close>

section \<open>Data\<close>

definition SpecialChaosVictim :: string where
  "SpecialChaosVictim = ''chaos-victim''"
definition SpecialChaosObserver :: string where
  "SpecialChaosObserver = ''chaos-observer''"
definition SpecialChaosLauncher :: string where
  "SpecialChaosLauncher = ''chaos-launcher''"

record Assignment =
  a_Component :: string
  a_ReplicaID :: string
  a_Class :: TuningClass
  a_CPUs :: cpulist
  a_Exclusive :: bool
  a_GOMAXPROCS :: int
  a_MemoryMax :: int
  a_RTPriority :: int
  a_NUMANode :: int
  a_Source :: string

record Plan =
  pl_Profile :: PerformanceProfile
  pl_Topology :: Topology
  pl_Reserved :: cpulist
  pl_Isolated :: cpulist
  pl_VictimCPUs :: cpulist
  pl_WorkloadCPUs :: cpulist
  pl_Assignments :: "Assignment list"
  pl_HugepagesPages :: "HugepagePage list"
  pl_RealTime :: bool
  pl_IRQBannedCPUs :: cpulist
  pl_NUMATopologyPolicy :: string
  pl_HighPowerConsumption :: bool

datatype plan_error =
    InvalidProfile profile_error
  | ExclusiveCPUsErr string cpulist_error
  | ExclusiveOutside string cpulist cpulist
  | ExclusiveOverlap string cpulist string cpulist
  | CarveTooFew string int nat cpulist
  | MapCPUsErr string cpulist_error
  | UnknownClass string string
  | VictimCPUsErr cpulist_error
  | VictimNoRoom cpulist
  | ExclusiveShared string cpulist string cpulist

text \<open>Reading a missing key of the component map yields the zero \<open>ComponentTuning\<close>.\<close>

definition zero_tuning :: ComponentTuning where
  "zero_tuning = \<lparr>ct_Class = [], ct_CPUs = [], ct_GOMAXPROCSOverride = 0, ct_MemoryMaxBytes = 0,
     ct_RTPriority = 0, ct_Notes = []\<rparr>"

definition tuning_of :: "(string \<times> ComponentTuning) list \<Rightarrow> string \<Rightarrow> ComponentTuning" where
  "tuning_of cm name = (case map_of cm name of None \<Rightarrow> zero_tuning | Some ct \<Rightarrow> ct)"

section \<open>Step 1: the explicit exclusive CPU sets\<close>

type_synonym taken_map = "(string \<times> cpulist) list"

definition taken_of :: "taken_map \<Rightarrow> string \<Rightarrow> cpulist" where
  "taken_of taken name = (case map_of taken name of None \<Rightarrow> [] | Some l \<Rightarrow> l)"

text \<open>One turn of the loop over the sorted names; \<open>site\<close> numbers the inner loop over the map.\<close>

definition exclusive_step ::
  "iter_order \<Rightarrow> nat \<Rightarrow> (string \<times> ComponentTuning) list \<Rightarrow> cpulist \<Rightarrow> string \<Rightarrow>
   taken_map \<times> cpulist \<Rightarrow> (plan_error, taken_map \<times> cpulist) outcome" where
  "exclusive_step it site cm isolated name st =
     (case st of (exclusiveTaken, workload) \<Rightarrow>
      let ct = tuning_of cm name in
      if ct_Class ct \<noteq> ClassIsolatedExclusive \<or> ct_CPUs ct = [] then Returns st
      else and_then (wrap_err (ExclusiveCPUsErr name) (ParseCPUList (ct_CPUs ct))) (\<lambda>cpus.
        if CPUList_Len (CPUList_Difference cpus isolated) > 0
        then Fails (ExclusiveOutside name (CPUList_Difference cpus isolated) isolated)
        else and_then
          (for_each (\<lambda>prev. guard_err (\<not> CPUList_Disjoint cpus (taken_of exclusiveTaken prev))
               (ExclusiveOverlap name cpus prev (taken_of exclusiveTaken prev)))
             (it site (map_keys exclusiveTaken)))
          (\<lambda>_. Returns ((name, cpus) # exclusiveTaken, CPUList_Difference workload cpus))))"

fun exclusive_loop ::
  "iter_order \<Rightarrow> nat \<Rightarrow> (string \<times> ComponentTuning) list \<Rightarrow> cpulist \<Rightarrow> string list \<Rightarrow>
   taken_map \<times> cpulist \<Rightarrow> (plan_error, taken_map \<times> cpulist) outcome" where
  "exclusive_loop it site cm isolated [] st = Returns st"
| "exclusive_loop it site cm isolated (name # names) st =
     and_then (exclusive_step it site cm isolated name st)
       (exclusive_loop it (Suc site) cm isolated names)"

section \<open>Step 2: the worker processes\<close>

definition process_class :: "PerformanceProfile \<Rightarrow> string \<Rightarrow> TuningClass" where
  "process_class p component =
     (if map_of (ComponentMap (Spec p)) component = None \<or>
         ct_Class (tuning_of (ComponentMap (Spec p)) component) = []
      then EffectiveDefaultClass p
      else ct_Class (tuning_of (ComponentMap (Spec p)) component))"

definition process_width :: "FlatProcess \<Rightarrow> int" where
  "process_width fp = (if fp_IdealThreads fp \<le> 0 then 1 else fp_IdealThreads fp)"

text \<open>
  The switch over the class: the CPUs, the Exclusive flag, the GOMAXPROCS, the source string, and
  what is left of the free workload pool.
\<close>

type_synonym placement = "cpulist \<times> bool \<times> int \<times> string"

definition exclusive_placement :: "cpulist \<Rightarrow> placement" where
  "exclusive_placement cpus =
     (cpus, True, int (CPUList_Len cpus),
      ''exclusive carve from isolated ('' @ CPUList_String cpus @ '')'')"

definition shared_placement :: "TuningClass \<Rightarrow> cpulist \<Rightarrow> placement" where
  "shared_placement c cpus =
     (cpus, False, int (CPUList_Len cpus), c @ '' carve ('' @ CPUList_String cpus @ '')'')"

definition place_process ::
  "cpulist \<Rightarrow> cpulist \<Rightarrow> taken_map \<Rightarrow> ComponentTuning \<Rightarrow> TuningClass \<Rightarrow> FlatProcess \<Rightarrow> cpulist \<Rightarrow>
   (plan_error, placement \<times> cpulist) outcome" where
  "place_process reserved workload exclusiveTaken ct c fp freeWorkload =
     (let width = process_width fp; n = int (CPUList_Len freeWorkload) in
      if c = ClassReserved then
        Returns ((reserved, False, int (CPUList_Len reserved), ''reserved pool''), freeWorkload)
      else if c = ClassIsolatedExclusive then
        if ct_CPUs ct \<noteq> [] then
          Returns (exclusive_placement (taken_of exclusiveTaken (fp_Component fp)), freeWorkload)
        else if n < width then
          Fails (CarveTooFew (fp_Component fp) width (CPUList_Len freeWorkload) freeWorkload)
        else
          Returns (exclusive_placement (drop (nat (n - width)) freeWorkload),
            take (nat (n - width)) freeWorkload)
      else if c = ClassIsolatedShared \<or> c = ClassBurstable then
        if ct_CPUs ct \<noteq> [] then
          and_then (wrap_err (MapCPUsErr (fp_Component fp)) (ParseCPUList (ct_CPUs ct)))
            (\<lambda>cpus. Returns (shared_placement c cpus, freeWorkload))
        else if CPUList_Len freeWorkload = 0 then
          Returns (shared_placement c workload, freeWorkload)
        else
          (let (taken, rest) = CPUList_Take freeWorkload (if width > n then n else width)
           in Returns (shared_placement c taken, rest))
      else if c = ClassBestEffort then
        Returns ((workload, False, int (CPUList_Len workload), ''best-effort: full workload pool''),
          freeWorkload)
      else Fails (UnknownClass (fp_Component fp) c))"

definition process_step ::
  "PerformanceProfile \<Rightarrow> cpulist \<Rightarrow> cpulist \<Rightarrow> taken_map \<Rightarrow> FlatProcess \<Rightarrow> cpulist \<Rightarrow>
   (plan_error, Assignment \<times> cpulist) outcome" where
  "process_step p reserved workload exclusiveTaken fp freeWorkload =
     (let ct = tuning_of (ComponentMap (Spec p)) (fp_Component fp);
          c = process_class p (fp_Component fp) in
      and_then (place_process reserved workload exclusiveTaken ct c fp freeWorkload)
        (\<lambda>((cpus, excl, gomaxprocs, src), rest). Returns
          (\<lparr>a_Component = fp_Component fp, a_ReplicaID = fp_ReplicaID fp, a_Class = c,
            a_CPUs = cpus, a_Exclusive = excl,
            a_GOMAXPROCS = (if ct_GOMAXPROCSOverride ct > 0 then ct_GOMAXPROCSOverride ct else gomaxprocs),
            a_MemoryMax = ct_MemoryMaxBytes ct, a_RTPriority = ct_RTPriority ct,
            a_NUMANode = -1, a_Source = src\<rparr>, rest)))"

fun process_loop ::
  "PerformanceProfile \<Rightarrow> cpulist \<Rightarrow> cpulist \<Rightarrow> taken_map \<Rightarrow> FlatProcess list \<Rightarrow> cpulist \<Rightarrow>
   (plan_error, Assignment list \<times> cpulist) outcome" where
  "process_loop p reserved workload taken [] freeWorkload = Returns ([], freeWorkload)"
| "process_loop p reserved workload taken (fp # fps) freeWorkload =
     and_then (process_step p reserved workload taken fp freeWorkload) (\<lambda>(assn, rest).
     and_then (process_loop p reserved workload taken fps rest) (\<lambda>(assns, rest').
       Returns (assn # assns, rest')))"

section \<open>Step 3: the observer and the victim\<close>

definition observer_assignment :: "cpulist \<Rightarrow> Assignment" where
  "observer_assignment reserved =
     \<lparr>a_Component = SpecialChaosObserver, a_ReplicaID = [], a_Class = ClassReserved,
      a_CPUs = reserved, a_Exclusive = False, a_GOMAXPROCS = int (CPUList_Len reserved),
      a_MemoryMax = 0, a_RTPriority = 0, a_NUMANode = -1, a_Source = ''observer on reserved pool''\<rparr>"

definition victim_class :: "(string \<times> ComponentTuning) list \<Rightarrow> TuningClass" where
  "victim_class cm =
     (case map_of cm SpecialChaosVictim of
        None \<Rightarrow> ClassIsolatedExclusive
      | Some vct \<Rightarrow> if ct_Class vct \<noteq> [] \<and> ct_Class vct \<noteq> ClassIsolatedExclusive
                    then ct_Class vct else ClassIsolatedExclusive)"

definition victim_explicit :: "(string \<times> ComponentTuning) list \<Rightarrow> (plan_error, cpulist) outcome" where
  "victim_explicit cm =
     (case map_of cm SpecialChaosVictim of
        None \<Rightarrow> Returns []
      | Some vct \<Rightarrow> if ct_CPUs vct \<noteq> [] then wrap_err VictimCPUsErr (ParseCPUList (ct_CPUs vct))
                    else Returns [])"

definition defaultVictimWidth :: nat where
  "defaultVictimWidth = 4"

definition used_cpus :: "Assignment list \<Rightarrow> cpulist" where
  "used_cpus assns = foldl (\<lambda>used a. CPUList_Union used (a_CPUs a)) [] assns"

definition victim_cpus ::
  "(string \<times> ComponentTuning) list \<Rightarrow> cpulist \<Rightarrow> Assignment list \<Rightarrow> (plan_error, cpulist) outcome" where
  "victim_cpus cm isolated assns =
     and_then (victim_explicit cm) (\<lambda>cpus.
       if CPUList_Len cpus = 0 then
         (let candidate = CPUList_Difference isolated (used_cpus assns) in
          if CPUList_Len candidate < defaultVictimWidth then Fails (VictimNoRoom candidate)
          else Returns (drop (CPUList_Len candidate - defaultVictimWidth) candidate))
       else Returns cpus)"

definition victim_assignment :: "(string \<times> ComponentTuning) list \<Rightarrow> cpulist \<Rightarrow> Assignment" where
  "victim_assignment cm cpus =
     \<lparr>a_Component = SpecialChaosVictim, a_ReplicaID = [], a_Class = victim_class cm,
      a_CPUs = cpus, a_Exclusive = (victim_class cm = ClassIsolatedExclusive),
      a_GOMAXPROCS = int (CPUList_Len cpus), a_MemoryMax = 0,
      a_RTPriority = ct_RTPriority (tuning_of cm SpecialChaosVictim), a_NUMANode = -1,
      a_Source = ''victim exclusive on '' @ CPUList_String cpus\<rparr>"

section \<open>Step 4: post-validation\<close>

definition check_pair :: "nat \<times> Assignment \<Rightarrow> nat \<times> Assignment \<Rightarrow> (plan_error, unit) outcome" where
  "check_pair ia jb =
     (case (ia, jb) of ((i, a), (j, b)) \<Rightarrow>
        if i = j then Returns ()
        else guard_err (\<not> CPUList_Disjoint (a_CPUs a) (a_CPUs b))
          (ExclusiveShared (a_Component a) (a_CPUs a) (a_Component b) (a_CPUs b)))"

definition check_assignment ::
  "(nat \<times> Assignment) list \<Rightarrow> nat \<times> Assignment \<Rightarrow> (plan_error, unit) outcome" where
  "check_assignment all ia =
     (if \<not> a_Exclusive (snd ia) then Returns () else for_each (check_pair ia) all)"

definition post_validate :: "Assignment list \<Rightarrow> (plan_error, unit) outcome" where
  "post_validate assns = for_each (check_assignment (enumerate 0 assns)) (enumerate 0 assns)"

section \<open>BuildPlan\<close>

definition finish_plan ::
  "PerformanceProfile \<Rightarrow> Topology \<Rightarrow> cpulist \<Rightarrow> cpulist \<Rightarrow> cpulist \<Rightarrow> Assignment list \<Rightarrow>
   (plan_error, Plan) outcome" where
  "finish_plan p topo reserved isolated workload workers =
     and_then (victim_cpus (ComponentMap (Spec p)) isolated (workers @ [observer_assignment reserved]))
       (\<lambda>vcpus.
         let assns = workers @ [observer_assignment reserved,
                                victim_assignment (ComponentMap (Spec p)) vcpus] in
         and_then (post_validate assns) (\<lambda>_. Returns
           \<lparr>pl_Profile = p, pl_Topology = topo, pl_Reserved = reserved, pl_Isolated = isolated,
            pl_VictimCPUs = vcpus, pl_WorkloadCPUs = workload, pl_Assignments = assns,
            pl_HugepagesPages = Pages (Hugepages (Spec p)), pl_RealTime = RTEnabled p,
            pl_IRQBannedCPUs = (if IRQLoadBalancingDisabled p then isolated else []),
            pl_NUMATopologyPolicy = NUMA_TopologyPolicy (Spec p),
            pl_HighPowerConsumption = (HighPowerConsumption (WorkloadHints (Spec p)) = Some True)\<rparr>))"

definition BuildPlan ::
  "iter_order \<Rightarrow> PerformanceProfile \<Rightarrow> Topology \<Rightarrow> FlatProcess list \<Rightarrow> (plan_error, Plan) outcome" where
  "BuildPlan it p topo flat =
     and_then (wrap_err InvalidProfile (Profile_Validate it p)) (\<lambda>_.
     and_then (ReservedCPUs p) (\<lambda>reserved.
     and_then (IsolatedCPUs p) (\<lambda>isolated.
       let mapNames = sort (it 1 (map_keys (ComponentMap (Spec p)))) in
       and_then (exclusive_loop it 2 (ComponentMap (Spec p)) isolated mapNames ([], isolated))
         (\<lambda>(exclusiveTaken, workload).
       and_then (process_loop p reserved workload exclusiveTaken flat workload) (\<lambda>(workers, _).
         finish_plan p topo reserved isolated workload workers)))))"

section \<open>FindAssignment and Summary\<close>

fun find_assignment :: "Assignment list \<Rightarrow> string \<Rightarrow> string \<Rightarrow> Assignment option" where
  "find_assignment [] component replicaID = None"
| "find_assignment (a # as) component replicaID =
     (if a_Component a \<noteq> component then find_assignment as component replicaID
      else if replicaID \<noteq> [] \<and> a_ReplicaID a \<noteq> replicaID
      then find_assignment as component replicaID
      else Some a)"

definition Plan_FindAssignment :: "Plan \<Rightarrow> string \<Rightarrow> string \<Rightarrow> Assignment option" where
  "Plan_FindAssignment pl component replicaID =
     find_assignment (pl_Assignments pl) component replicaID"

definition class_counts :: "Assignment list \<Rightarrow> (string \<times> int) list" where
  "class_counts assns = foldl (\<lambda>counts a. bump_count (a_Class a) 1 counts) [] assns"

definition Plan_Summary :: "Plan \<Rightarrow> string" where
  "Plan_Summary pl =
     ''plan: reserved='' @ CPUList_String (pl_Reserved pl) @
     '' isolated='' @ CPUList_String (pl_Isolated pl) @
     '' victim='' @ CPUList_String (pl_VictimCPUs pl) @
     '' assignments='' @ Itoa (int (length (pl_Assignments pl))) @
     '' ('' @ format_counts (class_counts (pl_Assignments pl)) @ '')''"

end
