(* ===== verification/PlanProps.thy ===== *)
theory PlanProps
  imports Plan
begin

text \<open>
  What a finished plan guarantees, and when planning succeeds: inversion lemmas for the loops of
  \<open>BuildPlan\<close>, the invariant of the explicit exclusive sets, and the properties of plans.
\<close>

section \<open>The component map of a valid profile\<close>

text \<open>Every CPU expression of the map parses, to CPUs of the two pools.\<close>

definition map_parses :: "cpulist \<Rightarrow> cpulist \<Rightarrow> (string \<times> ComponentTuning) list \<Rightarrow> bool" where
  "map_parses reserved isolated cm \<longleftrightarrow>
     (\<forall>name. ct_CPUs (tuning_of cm name) \<noteq> [] \<longrightarrow>
        (\<exists>cpus. ParseCPUList (ct_CPUs (tuning_of cm name)) = Returns cpus \<and>
                set cpus \<subseteq> set reserved \<union> set isolated))"

lemma zero_tuning_simps [simp]:
  "ct_CPUs zero_tuning = []" "ct_Class zero_tuning = []" "ct_GOMAXPROCSOverride zero_tuning = 0"
  "ct_RTPriority zero_tuning = 0"
  by (simp_all add: zero_tuning_def)

lemma valid_components_map_parses:
  "valid_components reserved isolated rt cm \<Longrightarrow> map_parses reserved isolated cm"
  unfolding map_parses_def valid_components_def valid_component_def
  by (auto simp: tuning_of_def split: option.splits)

lemma offlined_outside:
  assumes "valid_pools c reserved isolated" "ParseCPUList (cpu_Offlined c) = Returns off"
  shows "set off \<inter> (set reserved \<union> set isolated) = {}"
proof (cases "cpu_Offlined c = []")
  case True
  with assms(2) have "off = []" by (simp add: ParseCPUList_def)
  then show ?thesis by simp
next
  case False
  with assms show ?thesis unfolding valid_pools_def by force
qed

lemma map_parses_D:
  assumes "map_parses reserved isolated cm" "ct_CPUs (tuning_of cm name) \<noteq> []"
  obtains cpus where "ParseCPUList (ct_CPUs (tuning_of cm name)) = Returns cpus"
    "set cpus \<subseteq> set reserved \<union> set isolated" "wf_cpus cpus"
proof -
  obtain cpus where "ParseCPUList (ct_CPUs (tuning_of cm name)) = Returns cpus"
    "set cpus \<subseteq> set reserved \<union> set isolated"
    using assms unfolding map_parses_def by blast
  then show thesis using that wf_ParseCPUList by blast
qed

lemma tuning_known_class:
  assumes "valid_profile p" "ct_CPUs (tuning_of (ComponentMap (Spec p)) name) \<noteq> []"
  shows "known_class (ct_Class (tuning_of (ComponentMap (Spec p)) name))"
proof -
  obtain ct where "map_of (ComponentMap (Spec p)) name = Some ct"
    using assms(2) by (auto simp: tuning_of_def split: option.splits)
  with assms(1) show ?thesis
    by (auto simp: valid_profile_def valid_components_def valid_component_def tuning_of_def)
qed

lemma process_class_known:
  assumes "valid_profile p" shows "known_class (process_class p component)"
  using assms EffectiveDefaultClass_known [OF assms]
  by (auto simp: process_class_def valid_profile_def valid_components_def valid_component_def
      tuning_of_def)

section \<open>The explicit exclusive sets\<close>

text \<open>
  The invariant of the first loop: each entry of \<open>exclusiveTaken\<close> is the parsed set of an
  isolated-exclusive component inside the isolated pool, the entries are pairwise disjoint, and
  the workload pool is what they leave.
\<close>

definition taken_inv ::
  "(string \<times> ComponentTuning) list \<Rightarrow> cpulist \<Rightarrow> taken_map \<times> cpulist \<Rightarrow> bool" where
  "taken_inv cm isolated st \<longleftrightarrow>
     (\<forall>(name, cpus) \<in> set (fst st).
        ct_Class (tuning_of cm name) = ClassIsolatedExclusive \<and> ct_CPUs (tuning_of cm name) \<noteq> [] \<and>
        ParseCPUList (ct_CPUs (tuning_of cm name)) = Returns cpus \<and> set cpus \<subseteq> set isolated) \<and>
     wf_cpus (snd st) \<and> set (snd st) = set isolated - (\<Union>e \<in> set (fst st). set (snd e)) \<and>
     distinct (map fst (fst st)) \<and>
     sorted_wrt (\<lambda>e f. set (snd e) \<inter> set (snd f) = {}) (fst st)"

lemma taken_inv_entry:
  assumes "taken_inv cm isolated (taken, workload)" "(name, cpus) \<in> set taken"
  shows "ParseCPUList (ct_CPUs (tuning_of cm name)) = Returns cpus" "set cpus \<subseteq> set isolated"
    "ct_Class (tuning_of cm name) = ClassIsolatedExclusive" "ct_CPUs (tuning_of cm name) \<noteq> []"
  using assms by (auto simp: taken_inv_def)

lemma taken_of_simps [simp]:
  "taken_of [] n = []" "taken_of ((m, l) # ts) n = (if m = n then l else taken_of ts n)"
  by (simp_all add: taken_of_def)

lemma taken_of_member: "taken_of taken name = [] \<or> (name, taken_of taken name) \<in> set taken"
  by (induction taken) (auto split: if_splits)

lemma all_taken:
  assumes "distinct (map fst taken)"
  shows "(\<forall>prev \<in> set (map fst taken). P (taken_of taken prev)) \<longleftrightarrow> (\<forall>e \<in> set taken. P (snd e))"
  using assms
proof (induction taken)
  case (Cons e ts)
  obtain m l where "e = (m, l)" by (cases e)
  with Cons.prems have "m \<notin> set (map fst ts)" by simp
  then have "taken_of (e # ts) prev = taken_of ts prev" if "prev \<in> set (map fst ts)" for prev
    using that \<open>e = (m, l)\<close> by auto
  with Cons \<open>e = (m, l)\<close> show ?case by auto
qed simp

text \<open>One step, read off its result; the order of the inner loop does not show.\<close>

lemma exclusive_step_Returns:
  assumes "fair_order it"
  shows "exclusive_step it site cm isolated name (taken, workload) = Returns st' \<longleftrightarrow>
    (if ct_Class (tuning_of cm name) \<noteq> ClassIsolatedExclusive \<or> ct_CPUs (tuning_of cm name) = []
     then st' = (taken, workload)
     else \<exists>cpus. ParseCPUList (ct_CPUs (tuning_of cm name)) = Returns cpus \<and> set cpus \<subseteq> set isolated \<and>
        (\<forall>prev \<in> dom (map_of taken). set cpus \<inter> set (taken_of taken prev) = {}) \<and>
        st' = ((name, cpus) # taken, CPUList_Difference workload cpus))"
  using assms
  by (auto simp: exclusive_step_def Let_def outcome_simps fair_order_set set_map_keys)

lemma exclusive_step_inv:
  assumes "fair_order it" "taken_inv cm isolated st" "name \<notin> fst ` set (fst st)"
    and "exclusive_step it site cm isolated name st = Returns st'"
  shows "taken_inv cm isolated st' \<and> fst ` set (fst st') \<subseteq> insert name (fst ` set (fst st))"
proof -
  obtain taken workload where st: "st = (taken, workload)" by (cases st)
  show ?thesis
  proof (cases "ct_Class (tuning_of cm name) \<noteq> ClassIsolatedExclusive \<or> ct_CPUs (tuning_of cm name) = []")
    case True
    with assms show ?thesis by (auto simp: st exclusive_step_Returns)
  next
    case False
    with assms obtain cpus where cpus: "ParseCPUList (ct_CPUs (tuning_of cm name)) = Returns cpus"
      "set cpus \<subseteq> set isolated" "st' = ((name, cpus) # taken, CPUList_Difference workload cpus)"
      and disj: "\<forall>prev \<in> set (map fst taken). set cpus \<inter> set (taken_of taken prev) = {}"
      by (auto simp: st exclusive_step_Returns dom_map_of_conv_image_fst)
    have "\<forall>e \<in> set taken. set cpus \<inter> set (snd e) = {}"
      using disj assms(2) all_taken [of taken "\<lambda>l. set cpus \<inter> set l = {}"]
      by (simp add: st taken_inv_def)
    with assms(2,3) cpus False show ?thesis
      by (auto simp: st taken_inv_def intro: wf_Difference)
  qed
qed

lemma exclusive_loop_inv:
  assumes "fair_order it" "taken_inv cm isolated st" "distinct names"
    and "set names \<inter> fst ` set (fst st) = {}"
    and "exclusive_loop it site cm isolated names st = Returns st'"
  shows "taken_inv cm isolated st'"
  using assms
proof (induction names arbitrary: site st)
  case (Cons name names)
  obtain st1 where st1: "exclusive_step it site cm isolated name st = Returns st1"
    "exclusive_loop it (Suc site) cm isolated names st1 = Returns st'"
    using Cons.prems by (auto simp: outcome_simps)
  have "name \<notin> fst ` set (fst st)" using Cons.prems(4) by simp
  note step = exclusive_step_inv [OF Cons.prems(1,2) this st1(1)]
  have "set names \<inter> fst ` set (fst st1) = {}"
    using step Cons.prems(3,4) by (auto simp del: image_iff)
  with step show ?case
    using Cons.IH [OF Cons.prems(1) _ _ _ st1(2)] Cons.prems(3) by simp
qed simp

text \<open>Entries are kept, and every explicit exclusive set of the visited names is entered.\<close>

lemma exclusive_loop_mono:
  assumes "fair_order it" "exclusive_loop it site cm isolated names st = Returns st'"
  shows "set (fst st) \<subseteq> set (fst st') \<and>
    (\<forall>name \<in> set names. ct_Class (tuning_of cm name) = ClassIsolatedExclusive \<longrightarrow>
       ct_CPUs (tuning_of cm name) \<noteq> [] \<longrightarrow> name \<in> fst ` set (fst st'))"
  using assms(2)
proof (induction names arbitrary: site st)
  case (Cons name names)
  obtain st1 where st1: "exclusive_step it site cm isolated name st = Returns st1"
    "exclusive_loop it (Suc site) cm isolated names st1 = Returns st'"
    using Cons.prems by (auto simp: outcome_simps)
  have step: "set (fst st) \<subseteq> set (fst st1) \<and> (ct_Class (tuning_of cm name) = ClassIsolatedExclusive \<longrightarrow>
       ct_CPUs (tuning_of cm name) \<noteq> [] \<longrightarrow> name \<in> fst ` set (fst st1))"
    using st1(1) by (cases st) (auto simp: exclusive_step_Returns [OF assms(1)] split: if_splits)
  with Cons.IH [OF st1(2)] show ?case by (auto 4 3)
qed simp

lemma exclusive_loop_order_free:
  assumes "fair_order it" "fair_order it'"
  shows "exclusive_loop it site cm isolated names st = Returns st' \<longleftrightarrow>
    exclusive_loop it' site' cm isolated names st = Returns st'"
proof (induction names arbitrary: site site' st)
  case (Cons name names)
  have "exclusive_step it site cm isolated name st = Returns st1 \<longleftrightarrow>
    exclusive_step it' site' cm isolated name st = Returns st1" for st1
    by (cases st) (simp add: exclusive_step_Returns assms)
  moreover have "exclusive_loop it (Suc site) cm isolated names st1 = Returns st' \<longleftrightarrow>
    exclusive_loop it' (Suc site') cm isolated names st1 = Returns st'" for st1
    by (rule Cons.IH)
  ultimately show ?case by (simp add: and_then_eq_Returns)
qed simp

lemma guards_no_hang [simp]: "for_each (\<lambda>k. guard_err (bad k) (err k)) ks \<noteq> Hangs"
  by (auto dest!: for_each_Hangs simp: outcome_simps)

lemma exclusive_loop_no_hang:
  assumes "map_parses reserved isolated cm"
  shows "exclusive_loop it site cm isolated names st \<noteq> Hangs"
proof (induction names arbitrary: site st)
  case (Cons name names)
  have "exclusive_step it site cm isolated name st \<noteq> Hangs"
  proof (cases "ct_CPUs (tuning_of cm name) = []")
    case False
    then obtain cpus where "ParseCPUList (ct_CPUs (tuning_of cm name)) = Returns cpus"
      using map_parses_D [OF assms] by blast
    then show ?thesis
      by (auto simp: exclusive_step_def Let_def and_then_eq_Hangs guards_no_hang split: prod.splits)
  qed (simp add: exclusive_step_def Let_def split: prod.splits)
  with Cons.IH show ?case by (auto simp: outcome_simps)
qed simp

section \<open>The worker loop\<close>

text \<open>Everything the placement of one process needs of the state before it.\<close>

definition placing_ok ::
  "(string \<times> ComponentTuning) list \<Rightarrow> cpulist \<Rightarrow> cpulist \<Rightarrow> cpulist \<Rightarrow> taken_map \<Rightarrow> bool" where
  "placing_ok cm reserved isolated workload taken \<longleftrightarrow>
     map_parses reserved isolated cm \<and> wf_cpus reserved \<and> wf_cpus isolated \<and>
     taken_inv cm isolated (taken, workload)"

lemma taken_inv_taken_of:
  assumes "taken_inv cm isolated (taken, workload)"
  shows "wf_cpus (taken_of taken name) \<and> set (taken_of taken name) \<subseteq> set isolated"
  using assms taken_of_member [of taken name]
  by (auto simp: taken_inv_def intro: wf_ParseCPUList)

lemma place_process_pools:
  assumes ok: "placing_ok cm reserved isolated workload taken"
    and free: "wf_cpus free" "set free \<subseteq> set workload"
    and "place_process reserved workload taken (tuning_of cm name) c fp free =
      Returns ((cpus, excl, g, src), rest)"
  shows "wf_cpus cpus \<and> set cpus \<subseteq> set reserved \<union> set isolated \<and>
    wf_cpus rest \<and> set rest \<subseteq> set free"
proof -
  have workload: "wf_cpus workload" "set workload \<subseteq> set isolated"
    using ok by (auto simp: placing_ok_def taken_inv_def)
  have taken: "wf_cpus (taken_of taken n)" "set (taken_of taken n) \<subseteq> set reserved \<union> set isolated" for n
    using ok taken_inv_taken_of [of cm isolated taken workload n] by (auto simp: placing_ok_def)
  have parsed: "wf_cpus l \<and> set l \<subseteq> set reserved \<union> set isolated"
    if "ParseCPUList (ct_CPUs (tuning_of cm name)) = Returns l" "ct_CPUs (tuning_of cm name) \<noteq> []" for l
    using that ok map_parses_D [of reserved isolated cm name] by (auto simp: placing_ok_def)
  have parts: "wf_cpus (take n free)" "wf_cpus (drop n free)"
    "set (take n free) \<subseteq> set free" "set (drop n free) \<subseteq> set free" for n
    using free by (auto simp: wf_take wf_drop set_take_subset set_drop_subset)
  have "set free \<subseteq> set reserved \<union> set isolated" using free workload by blast
  then show ?thesis
    using assms(4) ok free workload taken [of "fp_Component fp"] parsed parts
    unfolding place_process_def Let_def
    by (auto simp: exclusive_placement_def shared_placement_def outcome_simps Take_wf placing_ok_def
        dest!: subsetD [OF parts(3)] subsetD [OF parts(4)] split: if_splits)
qed

text \<open>The GOMAXPROCS of a placement is the number of its CPUs, and only the exclusive class is exclusive.\<close>

lemma place_process_width:
  assumes "place_process reserved workload taken ct c fp free = Returns ((cpus, excl, g, src), rest)"
  shows "g = int (length cpus) \<and> (excl \<longleftrightarrow> c = ClassIsolatedExclusive) \<and>
    (c = ClassReserved \<longrightarrow> cpus = reserved)"
  using assms unfolding place_process_def Let_def
  by (auto simp: exclusive_placement_def shared_placement_def outcome_simps class_simps
      split: if_splits prod.splits)

text \<open>The assignment a process gets.\<close>

definition worker_of :: "PerformanceProfile \<Rightarrow> FlatProcess \<Rightarrow> Assignment \<Rightarrow> bool" where
  "worker_of p fp a \<longleftrightarrow>
     a_Component a = fp_Component fp \<and> a_ReplicaID a = fp_ReplicaID fp \<and>
     a_Class a = process_class p (fp_Component fp) \<and>
     (a_Exclusive a \<longleftrightarrow> a_Class a = ClassIsolatedExclusive) \<and>
     a_GOMAXPROCS a =
       (if ct_GOMAXPROCSOverride (tuning_of (ComponentMap (Spec p)) (fp_Component fp)) > 0
        then ct_GOMAXPROCSOverride (tuning_of (ComponentMap (Spec p)) (fp_Component fp))
        else int (length (a_CPUs a)))"

lemma process_step_Returns:
  assumes "process_step p reserved workload taken fp free = Returns (a, rest)"
  obtains excl g src where "worker_of p fp a"
    "a_Class a = ClassReserved \<longrightarrow> a_CPUs a = reserved"
    "place_process reserved workload taken (tuning_of (ComponentMap (Spec p)) (fp_Component fp))
       (process_class p (fp_Component fp)) fp free = Returns ((a_CPUs a, excl, g, src), rest)"
proof -
  obtain cpus excl g src where place:
    "place_process reserved workload taken (tuning_of (ComponentMap (Spec p)) (fp_Component fp))
       (process_class p (fp_Component fp)) fp free = Returns ((cpus, excl, g, src), rest)"
    and a: "a = \<lparr>a_Component = fp_Component fp, a_ReplicaID = fp_ReplicaID fp,
      a_Class = process_class p (fp_Component fp), a_CPUs = cpus, a_Exclusive = excl,
      a_GOMAXPROCS =
        (if ct_GOMAXPROCSOverride (tuning_of (ComponentMap (Spec p)) (fp_Component fp)) > 0
         then ct_GOMAXPROCSOverride (tuning_of (ComponentMap (Spec p)) (fp_Component fp)) else g),
      a_MemoryMax = ct_MemoryMaxBytes (tuning_of (ComponentMap (Spec p)) (fp_Component fp)),
      a_RTPriority = ct_RTPriority (tuning_of (ComponentMap (Spec p)) (fp_Component fp)),
      a_NUMANode = -1, a_Source = src\<rparr>"
    using assms by (auto simp: process_step_def Let_def and_then_eq_Returns split: prod.splits)
  show thesis
    using place_process_width [OF place] place by (intro that) (auto simp: worker_of_def a)
qed

lemma process_loop_workers:
  assumes "process_loop p reserved workload taken fps free = Returns (as, rest)"
  shows "list_all2 (worker_of p) fps as \<and> (\<forall>a \<in> set as. a_Class a = ClassReserved \<longrightarrow> a_CPUs a = reserved)"
  using assms
proof (induction fps arbitrary: free as rest)
  case (Cons fp fps)
  obtain a rest1 as1 where step: "process_step p reserved workload taken fp free = Returns (a, rest1)"
    and loop: "process_loop p reserved workload taken fps rest1 = Returns (as1, rest)" "as = a # as1"
    using Cons.prems by (auto simp: and_then_eq_Returns split: prod.splits)
  from Cons.IH [OF loop(1)] loop(2) process_step_Returns [OF step] show ?case by fastforce
qed simp

lemma process_loop_best_effort:
  assumes "process_loop p reserved workload taken fps free = Returns (as, rest)"
    and "fp \<in> set fps" "process_class p (fp_Component fp) = ClassBestEffort"
  shows "\<exists>a \<in> set as. a_CPUs a = workload"
  using assms
proof (induction fps arbitrary: free as rest)
  case (Cons fp' fps)
  obtain a rest1 as1 where step: "process_step p reserved workload taken fp' free = Returns (a, rest1)"
    and loop: "process_loop p reserved workload taken fps rest1 = Returns (as1, rest)" "as = a # as1"
    using Cons.prems by (auto simp: and_then_eq_Returns split: prod.splits)
  show ?case
  proof (cases "fp' = fp")
    case True
    with step Cons.prems(3) have "a_CPUs a = workload"
      by (auto simp: process_step_def place_process_def class_simps Let_def)
    with loop show ?thesis by simp
  next
    case False
    with Cons.IH [OF loop(1)] Cons.prems loop(2) show ?thesis by auto
  qed
qed simp

lemma process_loop_pools:
  assumes "placing_ok (ComponentMap (Spec p)) reserved isolated workload taken"
    and "wf_cpus free" "set free \<subseteq> set workload"
    and "process_loop p reserved workload taken fps free = Returns (as, rest)"
  shows "\<forall>a \<in> set as. wf_cpus (a_CPUs a) \<and> set (a_CPUs a) \<subseteq> set reserved \<union> set isolated"
  using assms(2-)
proof (induction fps arbitrary: free as rest)
  case (Cons fp fps)
  obtain a rest1 as1 where step: "process_step p reserved workload taken fp free = Returns (a, rest1)"
    and loop: "process_loop p reserved workload taken fps rest1 = Returns (as1, rest)" "as = a # as1"
    using Cons.prems by (auto simp: and_then_eq_Returns split: prod.splits)
  obtain excl g src where "place_process reserved workload taken
      (tuning_of (ComponentMap (Spec p)) (fp_Component fp))
      (process_class p (fp_Component fp)) fp free = Returns ((a_CPUs a, excl, g, src), rest1)"
    using process_step_Returns [OF step] by metis
  note pools = place_process_pools [OF assms(1) Cons.prems(1,2) this]
  from Cons.IH [OF _ _ loop(1)] pools Cons.prems(2) loop(2) show ?case by auto
qed simp

lemma process_loop_no_hang:
  assumes "map_parses reserved isolated (ComponentMap (Spec p))"
  shows "process_loop p reserved workload taken fps free \<noteq> Hangs"
proof (induction fps arbitrary: free)
  case (Cons fp fps)
  let ?ct = "tuning_of (ComponentMap (Spec p)) (fp_Component fp)"
  have "ParseCPUList (ct_CPUs ?ct) \<noteq> Hangs" if "ct_CPUs ?ct \<noteq> []"
    by (rule map_parses_D [OF assms that]) simp
  then have "process_step p reserved workload taken fp free \<noteq> Hangs"
    unfolding process_step_def place_process_def Let_def
    by (auto simp: outcome_simps split: if_splits prod.splits)
  with Cons.IH show ?case by (auto simp: and_then_eq_Hangs split: prod.splits)
qed simp

section \<open>Victim and post-validation\<close>

lemma set_used_cpus: "set (used_cpus assns) = (\<Union>a \<in> set assns. set (a_CPUs a))"
  using cpu_ops.cpus_foldl_union [of "[]" "map a_CPUs assns"]
  by (simp add: used_cpus_def foldl_map)

lemma victim_explicit_eq:
  "victim_explicit cm =
     (if ct_CPUs (tuning_of cm SpecialChaosVictim) = [] then Returns []
      else wrap_err VictimCPUsErr (ParseCPUList (ct_CPUs (tuning_of cm SpecialChaosVictim))))"
  by (auto simp: victim_explicit_def tuning_of_def split: option.splits)

lemma victim_class_eq:
  "victim_class cm =
     (if ct_Class (tuning_of cm SpecialChaosVictim) = [] then ClassIsolatedExclusive
      else ct_Class (tuning_of cm SpecialChaosVictim))"
  by (auto simp: victim_class_def tuning_of_def split: option.splits)

lemma victim_cpus_Returns:
  assumes "victim_cpus cm isolated assns = Returns l"
  obtains (explicit) "ct_CPUs (tuning_of cm SpecialChaosVictim) \<noteq> []" "l \<noteq> []"
      "ParseCPUList (ct_CPUs (tuning_of cm SpecialChaosVictim)) = Returns l"
    | (default) "defaultVictimWidth \<le> length (CPUList_Difference isolated (used_cpus assns))"
      "l = drop (length (CPUList_Difference isolated (used_cpus assns)) - defaultVictimWidth)
             (CPUList_Difference isolated (used_cpus assns))"
      "ct_CPUs (tuning_of cm SpecialChaosVictim) = [] \<or>
       ParseCPUList (ct_CPUs (tuning_of cm SpecialChaosVictim)) = Returns []"
  using assms by (auto simp: victim_cpus_def victim_explicit_eq outcome_simps Let_def split: if_splits)

text \<open>The default placement: four CPUs of the isolated pool that no earlier assignment uses.\<close>

lemma default_victim:
  assumes "defaultVictimWidth \<le> length (CPUList_Difference isolated (used_cpus assns))"
    and "l = drop (length (CPUList_Difference isolated (used_cpus assns)) - defaultVictimWidth)
             (CPUList_Difference isolated (used_cpus assns))"
  shows "length l = 4" and "set l \<subseteq> set isolated"
    and "a \<in> set assns \<Longrightarrow> set l \<inter> set (a_CPUs a) = {}"
proof -
  have "set l \<subseteq> set (CPUList_Difference isolated (used_cpus assns))"
    using assms(2) set_drop_subset by metis
  then show "set l \<subseteq> set isolated" "a \<in> set assns \<Longrightarrow> set l \<inter> set (a_CPUs a) = {}"
    by (auto simp: set_used_cpus)
  show "length l = 4" using assms by (simp add: defaultVictimWidth_def)
qed

text \<open>Two assignments may stand next to each other if an exclusive one does not share its CPUs.\<close>

definition compatible :: "Assignment \<Rightarrow> Assignment \<Rightarrow> bool" where
  "compatible a b \<longleftrightarrow>
     (a_Exclusive a \<or> a_Exclusive b \<longrightarrow> set (a_CPUs a) \<inter> set (a_CPUs b) = {})"

lemma check_pair_Returns:
  "check_pair (i, a) (j, b) = Returns () \<longleftrightarrow> (i \<noteq> j \<longrightarrow> set (a_CPUs a) \<inter> set (a_CPUs b) = {})"
  by (auto simp: check_pair_def outcome_simps)

lemma all_enumerate:
  "(\<forall>k \<in> set (enumerate 0 xs). P k) \<longleftrightarrow> (\<forall>i < length xs. P (i, xs ! i))"
  by (simp add: all_set_conv_all_nth nth_enumerate_eq)

lemma post_validate_nth:
  "post_validate assns = Returns () \<longleftrightarrow>
     (\<forall>i < length assns. \<forall>j < length assns. i \<noteq> j \<longrightarrow> a_Exclusive (assns ! i) \<longrightarrow>
        set (a_CPUs (assns ! i)) \<inter> set (a_CPUs (assns ! j)) = {})"
  by (auto simp: post_validate_def for_each_Returns check_assignment_def check_pair_Returns
      all_enumerate simp del: disjoint_iff)

lemma post_validate_Returns:
  "post_validate assns = Returns () \<longleftrightarrow> sorted_wrt compatible assns"
proof
  assume v: "post_validate assns = Returns ()"
  have "compatible (assns ! i) (assns ! j)" if "i < j" "j < length assns" for i j
  proof -
    have "i < length assns" "i \<noteq> j" "j \<noteq> i" using that by simp_all
    with v that(2) show ?thesis unfolding post_validate_nth compatible_def by blast
  qed
  then show "sorted_wrt compatible assns" by (simp add: sorted_wrt_iff_nth_less)
next
  assume sorted: "sorted_wrt compatible assns"
  show "post_validate assns = Returns ()"
    unfolding post_validate_nth
  proof (intro allI impI)
    fix i j assume ij: "i < length assns" "j < length assns" "i \<noteq> j" "a_Exclusive (assns ! i)"
    then have "i < j \<or> j < i" by auto
    with sorted ij show "set (a_CPUs (assns ! i)) \<inter> set (a_CPUs (assns ! j)) = {}"
      unfolding sorted_wrt_iff_nth_less compatible_def by (auto simp: Int_commute)
  qed
qed

lemma post_validate_no_hang: "post_validate assns \<noteq> Hangs"
proof
  assume "post_validate assns = Hangs"
  then obtain ia where "check_assignment (enumerate 0 assns) ia = Hangs"
    by (auto simp: post_validate_def dest: for_each_Hangs)
  then obtain jb where "check_pair ia jb = Hangs"
    by (auto simp: check_assignment_def dest: for_each_Hangs split: if_splits)
  then show False
    by (auto simp: check_pair_def outcome_simps split: prod.splits if_splits)
qed

section \<open>BuildPlan\<close>

text \<open>A successful call, taken apart.\<close>

lemma BuildPlan_Returns:
  assumes "fair_order it" "BuildPlan it p topo flat = Returns pl"
  obtains reserved isolated taken workload workers rest vcpus where
    "valid_profile p" "valid_pools (CPU (Spec p)) reserved isolated"
    "placing_ok (ComponentMap (Spec p)) reserved isolated workload taken"
    "\<And>name. ct_Class (tuning_of (ComponentMap (Spec p)) name) = ClassIsolatedExclusive \<Longrightarrow>
       ct_CPUs (tuning_of (ComponentMap (Spec p)) name) \<noteq> [] \<Longrightarrow> name \<in> fst ` set taken"
    "process_loop p reserved workload taken flat workload = Returns (workers, rest)"
    "victim_cpus (ComponentMap (Spec p)) isolated (workers @ [observer_assignment reserved]) = Returns vcpus"
    "sorted_wrt compatible (workers @ [observer_assignment reserved,
       victim_assignment (ComponentMap (Spec p)) vcpus])"
    "pl_Profile pl = p" "pl_Topology pl = topo" "pl_Reserved pl = reserved" "pl_Isolated pl = isolated"
    "pl_VictimCPUs pl = vcpus" "pl_WorkloadCPUs pl = workload"
    "pl_Assignments pl = workers @ [observer_assignment reserved,
       victim_assignment (ComponentMap (Spec p)) vcpus]"
    "pl_IRQBannedCPUs pl = (if IRQLoadBalancingDisabled p then isolated else [])"
proof -
  let ?cm = "ComponentMap (Spec p)"
  have "Profile_Validate it p = Returns ()"
    using assms(2) by (auto simp: BuildPlan_def outcome_simps)
  then have valid: "valid_profile p" using Validate_Returns_iff [OF assms(1)] by simp
  obtain reserved isolated where pools:
    "ReservedCPUs p = (Returns reserved :: (plan_error, cpulist) outcome)"
    "IsolatedCPUs p = (Returns isolated :: (plan_error, cpulist) outcome)"
    "valid_pools (CPU (Spec p)) reserved isolated"
    "valid_components reserved isolated (RTEnabled p) ?cm" "wf_cpus reserved" "wf_cpus isolated"
    using valid_profile_pools [OF valid] by metis
  define names where "names = sort (it 1 (map_keys ?cm))"
  have names: "distinct names" "set names = dom (map_of ?cm)"
    using assms(1) fair_order_set [of it "map_keys ?cm"]
    by (simp_all add: names_def fair_order_distinct set_map_keys)
  obtain taken workload workers rest where
    loop1: "exclusive_loop it 2 ?cm isolated names ([], isolated) = Returns (taken, workload)"
    and loop2: "process_loop p reserved workload taken flat workload = Returns (workers, rest)"
    and fin: "finish_plan p topo reserved isolated workload workers = Returns pl"
    using assms(2) pools by (auto simp: BuildPlan_def names_def and_then_eq_Returns split: prod.splits)
  have "taken_inv ?cm isolated (taken, workload)"
    by (rule exclusive_loop_inv [OF assms(1) _ names(1) _ loop1])
      (use pools in \<open>simp_all add: taken_inv_def\<close>)
  then have ok: "placing_ok ?cm reserved isolated workload taken"
    using pools valid_components_map_parses by (simp add: placing_ok_def)
  have all: "name \<in> fst ` set taken"
    if "ct_Class (tuning_of ?cm name) = ClassIsolatedExclusive" "ct_CPUs (tuning_of ?cm name) \<noteq> []" for name
  proof -
    have "name \<in> set names"
      using that(2) names(2) by (auto simp: tuning_of_def split: option.splits)
    with exclusive_loop_mono [OF assms(1) loop1] that show ?thesis by simp
  qed
  show thesis
    using fin that [OF valid pools(3) ok all loop2]
    by (auto simp: finish_plan_def and_then_eq_Returns Let_def post_validate_Returns)
qed

lemma finish_plan_no_hang:
  assumes "map_parses reserved isolated (ComponentMap (Spec p))"
  shows "finish_plan p topo reserved isolated workload workers \<noteq> Hangs"
proof -
  let ?ct = "tuning_of (ComponentMap (Spec p)) SpecialChaosVictim"
  have "ParseCPUList (ct_CPUs ?ct) \<noteq> Hangs" if "ct_CPUs ?ct \<noteq> []"
    by (rule map_parses_D [OF assms that]) simp
  then have "victim_explicit (ComponentMap (Spec p)) \<noteq> Hangs"
    by (simp add: victim_explicit_eq wrap_err_eq_Hangs)
  then show ?thesis
    by (auto simp: finish_plan_def victim_cpus_def and_then_eq_Hangs Let_def post_validate_no_hang
        split: if_splits)
qed

lemma BuildPlan_no_hang:
  assumes "fair_order it"
  shows "BuildPlan it p topo flat = Hangs \<longleftrightarrow> Profile_Validate it p = Hangs"
proof (cases "Profile_Validate it p")
  case (Returns u)
  then have valid: "valid_profile p" using Validate_Returns_iff [OF assms] by simp
  obtain reserved isolated where pools:
    "ReservedCPUs p = (Returns reserved :: (plan_error, cpulist) outcome)"
    "IsolatedCPUs p = (Returns isolated :: (plan_error, cpulist) outcome)"
    "valid_components reserved isolated (RTEnabled p) (ComponentMap (Spec p))"
    using valid_profile_pools [OF valid] by metis
  note parses = valid_components_map_parses [OF pools(3)]
  show ?thesis
    using exclusive_loop_no_hang [OF parses] process_loop_no_hang [OF parses]
      finish_plan_no_hang [OF parses]
    by (auto simp: BuildPlan_def pools Returns and_then_eq_Hangs split: prod.splits)
qed (simp_all add: BuildPlan_def)

lemma BuildPlan_order_free:
  assumes "fair_order it" "fair_order it'" "BuildPlan it p topo flat = Returns pl"
  shows "BuildPlan it' p topo flat = Returns pl"
proof -
  have validate: "Profile_Validate it' p = Returns () \<longleftrightarrow> Profile_Validate it p = Returns ()"
    using Validate_Returns_iff [OF assms(1)] Validate_Returns_iff [OF assms(2)] by simp
  have order: "sort (it' (Suc 0) (map_keys m)) = sort (it (Suc 0) (map_keys m))" for m :: "(string \<times> ComponentTuning) list"
    using assms(2,1) by (rule sort_keys_order)
  have loop: "exclusive_loop it' 2 cm isolated names st = Returns st' \<longleftrightarrow>
    exclusive_loop it 2 cm isolated names st = Returns st'" for cm isolated names st st'
    using assms(2,1) by (rule exclusive_loop_order_free)
  show ?thesis
    using assms(3)
    by (simp add: BuildPlan_def and_then_eq_Returns wrap_err_eq_Returns Let_def split_def
        validate order loop)
qed

section \<open>Capacity\<close>

text \<open>
  The workload CPUs a process takes away: none when it runs on the reserved pool, else its width.
\<close>

definition demand :: "PerformanceProfile \<Rightarrow> FlatProcess \<Rightarrow> int" where
  "demand p fp =
     (if process_class p (fp_Component fp) = ClassReserved then 0 else process_width fp)"

definition total_demand :: "PerformanceProfile \<Rightarrow> FlatProcess list \<Rightarrow> int" where
  "total_demand p fps = (\<Sum>fp \<leftarrow> fps. demand p fp)"

lemma total_demand_simps [simp]:
  "total_demand p [] = 0" "total_demand p (fp # fps) = demand p fp + total_demand p fps"
  by (simp_all add: total_demand_def)

lemma process_width_pos: "0 < process_width fp"
  by (simp add: process_width_def)

lemma demand_nonneg: "0 \<le> demand p fp"
  using process_width_pos [of fp] by (simp add: demand_def)

lemma total_demand_nonneg: "0 \<le> total_demand p fps"
  by (induction fps) (use demand_nonneg in \<open>auto simp: add_nonneg_nonneg\<close>)

text \<open>A process of a carving class takes a slice off the free pool, from one end or the other.\<close>

lemma place_process_carves:
  assumes "wf_cpus free" "ct_CPUs ct = []" "process_width fp \<le> int (length free)"
    and "c = ClassIsolatedExclusive \<or> c = ClassIsolatedShared \<or> c = ClassBurstable"
  obtains cpus excl g src rest where
    "place_process reserved workload taken ct c fp free = Returns ((cpus, excl, g, src), rest)"
    "wf_cpus rest" "int (length rest) = int (length free) - process_width fp"
    "set cpus \<subseteq> set free" "set rest = set free - set cpus"
proof (cases "c = ClassIsolatedExclusive")
  case True
  let ?n = "nat (process_width fp)"
  have not_reserved: "ClassIsolatedExclusive \<noteq> ClassReserved" by (simp add: class_simps)
  have eq: "nat (int (length free) - process_width fp) = length free - ?n"
    using process_width_pos [of fp] by simp
  obtain cpus rest where carve: "carve_back free ?n = (cpus, rest)" by fastforce
  show thesis
  proof (rule that)
    show "place_process reserved workload taken ct c fp free =
        Returns ((cpus, True, int (length cpus),
          ''exclusive carve from isolated ('' @ CPUList_String cpus @ '')''), rest)"
      using carve assms(2,3)
      by (auto simp: place_process_def True not_reserved exclusive_placement_def carve_back_def eq Let_def)
    show "int (length rest) = int (length free) - process_width fp"
      using carve assms(3) process_width_pos [of fp] by (auto simp: carve_back_def)
  qed (use carve assms(1) back_pool.carve_inv back_pool.carve_taken back_pool.carve_rest in blast)+
next
  case False
  let ?n = "nat (process_width fp)"
  obtain cpus rest where carve: "carve_front free ?n = (cpus, rest)" by fastforce
  have not_reserved: "ClassIsolatedShared \<noteq> ClassReserved" "ClassBurstable \<noteq> ClassReserved"
    by (simp_all add: class_simps)
  have nonempty: "free \<noteq> []" using assms(3) process_width_pos [of fp] by auto
  show thesis
  proof (rule that)
    show "place_process reserved workload taken ct c fp free =
        Returns ((cpus, False, int (length cpus), c @ '' carve ('' @ CPUList_String cpus @ '')''), rest)"
      using carve False assms(2,3,4) nonempty process_width_pos [of fp] not_reserved
      by (auto simp: place_process_def shared_placement_def carve_front_def Let_def)
    show "int (length rest) = int (length free) - process_width fp"
      using carve assms(1,3) process_width_pos [of fp] by (auto simp: carve_front_def Take_wf)
  qed (use carve assms(1) front_pool.carve_inv front_pool.carve_taken front_pool.carve_rest in blast)+
qed

text \<open>What the loop produces while the pool suffices: slices of the pool and reserved workers.\<close>

definition slice_of :: "cpulist \<Rightarrow> int set \<Rightarrow> Assignment \<Rightarrow> bool" where
  "slice_of reserved A a \<longleftrightarrow> a_CPUs a = reserved \<and> \<not> a_Exclusive a \<or> set (a_CPUs a) \<subseteq> A"

lemma process_loop_capacity:
  assumes "\<forall>name. ct_CPUs (tuning_of (ComponentMap (Spec p)) name) = []" "valid_profile p"
    and "set reserved \<inter> set workload = {}" "wf_cpus free" "set free \<subseteq> set workload"
    and "\<forall>fp \<in> set fps. process_class p (fp_Component fp) \<noteq> ClassBestEffort"
    and "total_demand p fps \<le> int (length free)"
  obtains as rest where "process_loop p reserved workload taken fps free = Returns (as, rest)"
    "wf_cpus rest" "set rest \<subseteq> set free" "int (length rest) = int (length free) - total_demand p fps"
    "\<forall>a \<in> set as. slice_of reserved (set free - set rest) a" "sorted_wrt compatible as"
  using assms(4-)
proof (induction fps arbitrary: free thesis)
  case Nil
  then show ?case by simp
next
  case (Cons fp fps)
  let ?c = "process_class p (fp_Component fp)"
  let ?ct = "tuning_of (ComponentMap (Spec p)) (fp_Component fp)"
  have demands: "demand p fp + total_demand p fps \<le> int (length free)" "0 \<le> total_demand p fps"
    using Cons.prems(5) total_demand_nonneg by simp_all
  show ?case
  proof (cases "?c = ClassReserved")
    case True
    obtain a where a: "process_step p reserved workload taken fp free = Returns (a, free)"
        "a_CPUs a = reserved" "\<not> a_Exclusive a"
      by (simp add: process_step_def place_process_def True Let_def)
    obtain as rest where "process_loop p reserved workload taken fps free = Returns (as, rest)"
      "wf_cpus rest" "set rest \<subseteq> set free" "int (length rest) = int (length free) - total_demand p fps"
      "\<forall>a \<in> set as. slice_of reserved (set free - set rest) a" "sorted_wrt compatible as"
      using Cons.IH [of free] Cons.prems(2-4) demands demand_nonneg [of p fp] by auto
    moreover from this have "\<forall>b \<in> set as. compatible a b"
      using a Cons.prems(3) assms(3) by (fastforce simp: slice_of_def compatible_def)
    ultimately show ?thesis
      using a True by (intro Cons.prems(1) [of "a # as" rest]) (auto simp: demand_def slice_of_def)
  next
    case False
    then have c: "?c = ClassIsolatedExclusive \<or> ?c = ClassIsolatedShared \<or> ?c = ClassBurstable"
      using process_class_known [OF assms(2), of "fp_Component fp"] Cons.prems(4)
      by (auto simp: known_class_def)
    have width: "demand p fp = process_width fp" using False by (simp add: demand_def)
    then have room: "process_width fp \<le> int (length free)" using demands by simp
    have no_cpus: "ct_CPUs ?ct = []" using assms(1) by simp
    obtain cpus excl g src r where place:
      "place_process reserved workload taken ?ct ?c fp free = Returns ((cpus, excl, g, src), r)"
      "wf_cpus r" "int (length r) = int (length free) - process_width fp"
      "set cpus \<subseteq> set free" "set r = set free - set cpus"
      by (rule place_process_carves [OF Cons.prems(2) no_cpus room c])
    have sub: "set r \<subseteq> set workload" using place(5) Cons.prems(3) by auto
    have len: "total_demand p fps \<le> int (length r)" using place(3) demands width by simp
    have classes: "\<forall>fp \<in> set fps. process_class p (fp_Component fp) \<noteq> ClassBestEffort"
      using Cons.prems(4) by simp
    obtain a where a: "process_step p reserved workload taken fp free = Returns (a, r)" "a_CPUs a = cpus"
      by (simp add: process_step_def place Let_def)
    obtain as rest where rest: "process_loop p reserved workload taken fps r = Returns (as, rest)"
      "wf_cpus rest" "set rest \<subseteq> set r" "int (length rest) = int (length r) - total_demand p fps"
      "\<forall>a \<in> set as. slice_of reserved (set r - set rest) a" "sorted_wrt compatible as"
      by (rule Cons.IH [OF _ place(2) sub classes len])
    have "\<forall>b \<in> set as. compatible a b" "\<forall>b \<in> set (a # as). slice_of reserved (set free - set rest) b"
      using rest place a Cons.prems(3) assms(3) by (fastforce simp: slice_of_def compatible_def)+
    with a rest place width show ?thesis
      by (intro Cons.prems(1) [of "a # as" rest]) auto
  qed
qed

end
