(* ===== verification/Applier.thy ===== *)
theory Applier
  imports PlanProps
begin

text \<open>
  \<open>pkg/tuning/applier*.go\<close>: the three back ends that confine a process to its assignment. The
  host is a parameter: which programs are on the search path and which system calls succeed.
  Effects are the list of system calls made so far. A denotation of wrapped commands says what
  process they end up running under which limits; the contract of \<open>Wrap\<close> is a locale that the
  three back ends interpret.
\<close>

section \<open>Hosts, commands, effects\<close>

datatype os_op =
    MkdirAll string | WriteFile string string | Stat string | OpenWrite string
  | RemoveDir string | RunCmd "string list"

text \<open>
  \<open>look\<close> is \<open>exec.LookPath\<close>; \<open>op_ok\<close> says whether a call succeeds after those made before;
  \<open>read_dir\<close> lists a directory's entries with their IsDir flag, or fails.
\<close>

record host =
  look :: "string \<Rightarrow> string option"
  op_ok :: "os_op list \<Rightarrow> os_op \<Rightarrow> bool"
  read_dir :: "os_op list \<Rightarrow> string \<Rightarrow> (string \<times> bool) list option"

text \<open>\<open>exec.Cmd\<close>; the standard streams and the process attributes are opaque handles.\<close>

record Cmd =
  cmd_Path :: string
  cmd_Args :: "string list"
  cmd_Env :: "string list"
  cmd_Dir :: string
  cmd_Stdin :: "nat option"
  cmd_Stdout :: "nat option"
  cmd_Stderr :: "nat option"
  cmd_SysProcAttr :: "nat option"

datatype applier_error =
    NoPathArgs | MkdirErr string | WriteErr string | ChrtMissing int | MemoryUnsupported int
  | EnableErr | NotAvailable string | UnknownApplier string | NoneAvailable

text \<open>\<open>exec.CommandContext\<close>: a name without a slash is searched for.\<close>

definition CommandContext :: "host \<Rightarrow> string \<Rightarrow> string list \<Rightarrow> Cmd" where
  "CommandContext h name args =
     \<lparr>cmd_Path = (if CHR ''/'' \<in> set name then name
                  else case look h name of Some p \<Rightarrow> p | None \<Rightarrow> name),
      cmd_Args = name # args, cmd_Env = [], cmd_Dir = [], cmd_Stdin = None, cmd_Stdout = None,
      cmd_Stderr = None, cmd_SysProcAttr = None\<rparr>"

section \<open>appendOrReplaceEnv\<close>

fun replace_env :: "string \<Rightarrow> string \<Rightarrow> string list \<Rightarrow> bool \<Rightarrow> string list \<times> bool" where
  "replace_env prefix val [] replaced = ([], replaced)"
| "replace_env prefix val (e # env) replaced =
     (if HasPrefix e prefix then
        (let (out, r) = replace_env prefix val env True
         in (if replaced then out else (prefix @ val) # out, r))
      else (let (out, r) = replace_env prefix val env replaced in (e # out, r)))"

definition appendOrReplaceEnv :: "string list \<Rightarrow> string \<Rightarrow> string \<Rightarrow> string list" where
  "appendOrReplaceEnv env key val =
     (let (out, replaced) = replace_env (key @ ''='') val env False
      in if replaced then out else out @ [key @ ''='' @ val])"

text \<open>The tail that every Wrap ends with: environment, streams, directory, attributes.\<close>

definition inherit :: "Cmd \<Rightarrow> Assignment \<Rightarrow> Cmd \<Rightarrow> Cmd" where
  "inherit cmd a wrapped = wrapped\<lparr>
     cmd_Env := (if a_GOMAXPROCS a > 0
                 then appendOrReplaceEnv (cmd_Env cmd) ''GOMAXPROCS'' (Itoa (a_GOMAXPROCS a))
                 else cmd_Env cmd),
     cmd_Stdout := cmd_Stdout cmd, cmd_Stderr := cmd_Stderr cmd, cmd_Stdin := cmd_Stdin cmd,
     cmd_Dir := cmd_Dir cmd, cmd_SysProcAttr := cmd_SysProcAttr cmd\<rparr>"

section \<open>Unit names\<close>

definition unit_char :: "char \<Rightarrow> bool" where
  "unit_char c \<longleftrightarrow>
     97 \<le> byte c \<and> byte c \<le> 122 \<or> 65 \<le> byte c \<and> byte c \<le> 90 \<or> 48 \<le> byte c \<and> byte c \<le> 57 \<or>
     c = CHR ''-'' \<or> c = CHR ''_''"

definition sanitiseUnit :: "string \<Rightarrow> string" where
  "sanitiseUnit s = map (\<lambda>c. if unit_char c then c else CHR ''_'') s"

definition scopeUnitName :: "Assignment \<Rightarrow> string" where
  "scopeUnitName a =
     (if a_ReplicaID a \<noteq> []
      then ''chaos-'' @ sanitiseUnit (a_Component a) @ ''-'' @ sanitiseUnit (a_ReplicaID a) @ ''.scope''
      else ''chaos-'' @ sanitiseUnit (a_Component a) @ ''.scope'')"

section \<open>systemd-run\<close>

definition systemd_slice :: string where
  "systemd_slice = ''chaos.slice''"

definition systemd_args :: "Cmd \<Rightarrow> Assignment \<Rightarrow> string list" where
  "systemd_args cmd a =
     [''--scope'', ''--quiet'', ''--collect'', ''--slice='' @ systemd_slice,
      ''--unit='' @ scopeUnitName a] @
     (if CPUList_Len (a_CPUs a) > 0 then [''--property=AllowedCPUs='' @ CPUList_String (a_CPUs a)] else []) @
     (if a_MemoryMax a > 0 then [''--property=MemoryMax='' @ Itoa (a_MemoryMax a)] else []) @
     [''--''] @
     (if a_RTPriority a > 0 then [''chrt'', ''-f'', Itoa (a_RTPriority a)] else []) @
     [cmd_Path cmd] @ tl (cmd_Args cmd)"

type_synonym wrap_fun = "host \<Rightarrow> os_op list \<Rightarrow> Cmd \<Rightarrow> Assignment \<Rightarrow> (applier_error + Cmd) \<times> os_op list"

definition systemd_Wrap :: wrap_fun where
  "systemd_Wrap h ops cmd a =
     (if cmd_Path cmd = [] \<or> cmd_Args cmd = [] then (Inl NoPathArgs, ops)
      else (Inr (inherit cmd a (CommandContext h ''systemd-run'' (systemd_args cmd a))), ops))"

definition systemd_Available :: "host \<Rightarrow> os_op list \<Rightarrow> bool \<times> os_op list" where
  "systemd_Available h ops = (look h ''systemd-run'' \<noteq> None, ops)"

definition systemd_CleanupHost :: "host \<Rightarrow> os_op list \<Rightarrow> os_op list" where
  "systemd_CleanupHost h ops =
     (if look h ''systemctl'' = None then ops
      else ops @ [RunCmd [''systemctl'', ''stop'', systemd_slice]])"

section \<open>taskset\<close>

definition taskset_prefix :: "host \<Rightarrow> Assignment \<Rightarrow> applier_error + string list" where
  "taskset_prefix h a =
     (let numa = (if a_NUMANode a \<ge> 0 \<and> look h ''numactl'' \<noteq> None
                  then [''numactl'', ''--cpunodebind='' @ Itoa (a_NUMANode a),
                        ''--membind='' @ Itoa (a_NUMANode a), ''--''] else []);
          cpus = (if CPUList_Len (a_CPUs a) > 0
                  then [''taskset'', ''-c'', CPUList_String (a_CPUs a)] else []) in
      if a_RTPriority a > 0 \<and> look h ''chrt'' = None then Inl (ChrtMissing (a_RTPriority a))
      else if a_MemoryMax a > 0 then Inl (MemoryUnsupported (a_MemoryMax a))
      else Inr (numa @ cpus @
        (if a_RTPriority a > 0 then [''chrt'', ''-f'', Itoa (a_RTPriority a)] else [])))"

definition taskset_Wrap :: wrap_fun where
  "taskset_Wrap h ops cmd a =
     (if cmd_Path cmd = [] \<or> cmd_Args cmd = [] then (Inl NoPathArgs, ops)
      else case taskset_prefix h a of
        Inl e \<Rightarrow> (Inl e, ops)
      | Inr pre \<Rightarrow>
          (let argv = pre @ cmd_Path cmd # tl (cmd_Args cmd)
           in (Inr (inherit cmd a (CommandContext h (hd argv) (tl argv))), ops)))"

definition taskset_Available :: "host \<Rightarrow> os_op list \<Rightarrow> bool \<times> os_op list" where
  "taskset_Available h ops = (look h ''taskset'' \<noteq> None, ops)"

section \<open>cgroup v2\<close>

definition cgroup_root :: string where
  "cgroup_root = ''/sys/fs/cgroup''"

definition slicePath :: string where
  "slicePath = path_join cgroup_root ''chaos.slice''"

definition unitDir :: "Assignment \<Rightarrow> string" where
  "unitDir a = path_join slicePath (scopeUnitName a)"

text \<open>\<open>shellQuote\<close> ranges over runes, so a byte that is not valid UTF-8 becomes U+FFFD.\<close>

definition shellQuote :: "string \<Rightarrow> string" where
  "shellQuote s =
     (if s = [] then [CHR 0x27, CHR 0x27]
      else CHR 0x27 # concat (map (\<lambda>r. if r = [CHR 0x27] then [CHR 0x27, CHR 0x5C, CHR 0x27, CHR 0x27] else r)
             (runes_of s)) @ [CHR 0x27])"

definition cgroup_script :: "Cmd \<Rightarrow> Assignment \<Rightarrow> string" where
  "cgroup_script cmd a =
     ''printf %d $$ > '' @ shellQuote (path_join (unitDir a) ''cgroup.procs'') @ [CHR 0x0A] @
     (if a_RTPriority a > 0 then ''exec chrt -f '' @ Itoa (a_RTPriority a) @ '' '' else ''exec '') @
     concat (map (\<lambda>arg. shellQuote arg @ '' '') (cmd_Path cmd # tl (cmd_Args cmd)))"

text \<open>A call whose failure ends the function, and one whose failure is ignored.\<close>

definition must :: "host \<Rightarrow> applier_error \<Rightarrow> os_op \<Rightarrow> os_op list \<Rightarrow>
    (os_op list \<Rightarrow> (applier_error + 'a) \<times> os_op list) \<Rightarrow> (applier_error + 'a) \<times> os_op list" where
  "must h err op ops k = (if op_ok h ops op then k (ops @ [op]) else (Inl err, ops @ [op]))"

definition cgroup_Wrap :: wrap_fun where
  "cgroup_Wrap h ops cmd a =
     (let dir = unitDir a; cpus = CPUList_String (a_CPUs a) in
      if cmd_Path cmd = [] \<or> cmd_Args cmd = [] then (Inl NoPathArgs, ops)
      else must h (MkdirErr dir) (MkdirAll dir) ops (\<lambda>ops1.
        let finish = (\<lambda>ops3. (Inr (inherit cmd a (CommandContext h ''sh'' [''-c'', cgroup_script cmd a])), ops3));
            memory = (\<lambda>ops2.
              if a_MemoryMax a > 0 then
                must h (WriteErr ''memory.max'')
                  (WriteFile (path_join dir ''memory.max'') (Itoa (a_MemoryMax a))) ops2 finish
              else finish ops2);
            exclusive = (\<lambda>ops2.
              if a_Exclusive a then memory (ops2 @ [WriteFile (path_join dir ''cpuset.cpus.exclusive'') cpus])
              else memory ops2) in
        if CPUList_Len (a_CPUs a) > 0 then
          must h (WriteErr ''cpuset.cpus'') (WriteFile (path_join dir ''cpuset.cpus'') cpus) ops1 exclusive
        else exclusive ops1))"

definition cgroup_Available :: "host \<Rightarrow> os_op list \<Rightarrow> bool \<times> os_op list" where
  "cgroup_Available h ops =
     (let s = Stat (path_join cgroup_root ''cgroup.controllers'');
          w = OpenWrite (path_join cgroup_root ''cgroup.subtree_control'') in
      if \<not> op_ok h ops s then (False, ops @ [s])
      else if \<not> op_ok h (ops @ [s]) w then (False, ops @ [s, w])
      else (look h ''sh'' \<noteq> None, ops @ [s, w]))"

definition cgroup_PrepareHost :: "host \<Rightarrow> os_op list \<Rightarrow> (applier_error + unit) \<times> os_op list" where
  "cgroup_PrepareHost h ops =
     (let w = WriteFile (path_join slicePath ''cgroup.subtree_control'') ''+cpuset +cpu +memory'';
          s = Stat (path_join slicePath ''cpuset.cpus'') in
      must h (MkdirErr slicePath) (MkdirAll slicePath) ops (\<lambda>ops1.
        if op_ok h ops1 w then (Inr (), ops1 @ [w])
        else if op_ok h (ops1 @ [w]) s then (Inr (), ops1 @ [w, s])
        else (Inl EnableErr, ops1 @ [w, s])))"

definition cgroup_CleanupHost :: "host \<Rightarrow> os_op list \<Rightarrow> os_op list" where
  "cgroup_CleanupHost h ops =
     (case read_dir h ops slicePath of
        None \<Rightarrow> ops
      | Some entries \<Rightarrow>
          ops @ map (\<lambda>e. RemoveDir (path_join slicePath (fst e))) (filter snd entries) @
          [RemoveDir slicePath])"

section \<open>AutoSelect\<close>

datatype backend = Systemd | Cgroup | Taskset

fun Applier_Name :: "backend \<Rightarrow> string" where
  "Applier_Name Systemd = ''systemd-run''"
| "Applier_Name Cgroup = ''cgroup-v2''"
| "Applier_Name Taskset = ''taskset''"

fun Applier_Available :: "backend \<Rightarrow> host \<Rightarrow> os_op list \<Rightarrow> bool \<times> os_op list" where
  "Applier_Available Systemd = systemd_Available"
| "Applier_Available Cgroup = cgroup_Available"
| "Applier_Available Taskset = taskset_Available"

fun Applier_Wrap :: "backend \<Rightarrow> wrap_fun" where
  "Applier_Wrap Systemd = systemd_Wrap"
| "Applier_Wrap Cgroup = cgroup_Wrap"
| "Applier_Wrap Taskset = taskset_Wrap"

definition candidates :: "backend list" where
  "candidates = [Systemd, Cgroup, Taskset]"

fun select_named :: "host \<Rightarrow> string \<Rightarrow> backend list \<Rightarrow> os_op list \<Rightarrow> (applier_error + backend) \<times> os_op list" where
  "select_named h name [] ops = (Inl (UnknownApplier name), ops)"
| "select_named h name (c # cs) ops =
     (if Applier_Name c = name then
        (let (ok, ops') = Applier_Available c h ops
         in if ok then (Inr c, ops') else (Inl (NotAvailable name), ops'))
      else select_named h name cs ops)"

fun select_first :: "host \<Rightarrow> backend list \<Rightarrow> os_op list \<Rightarrow> (applier_error + backend) \<times> os_op list" where
  "select_first h [] ops = (Inl NoneAvailable, ops)"
| "select_first h (c # cs) ops =
     (let (ok, ops') = Applier_Available c h ops
      in if ok then (Inr c, ops') else select_first h cs ops')"

definition AutoSelect :: "host \<Rightarrow> string \<Rightarrow> os_op list \<Rightarrow> (applier_error + backend) \<times> os_op list" where
  "AutoSelect h override ops =
     (if override \<noteq> [] then select_named h override candidates ops
      else select_first h candidates ops)"

end
