(* ===== verification/ApplierContract.thy ===== *)
theory ApplierContract
  imports Applier
begin

text \<open>
  What a wrapped command does when it is started, and the contract that all three \<open>Wrap\<close>
  implementations meet. The denotation covers the command lines of \<open>systemd-run\<close>, \<open>taskset\<close>,
  \<open>chrt\<close>, \<open>numactl\<close> and the POSIX shell quoting that the back ends rely on.
\<close>

section \<open>A fragment of the shell\<close>

text \<open>
  Tokens of a script: quoted and unquoted words, a redirection, the process id \<open>$$\<close>, the end of
  a line. Any other special character outside quotes makes the reader give up.
\<close>

datatype token = Word string | Redirect | Pid | EndLine

datatype lex_state = Gap | Plain string | Quoted string | Escaped string | Dollar

definition bare_char :: "char \<Rightarrow> bool" where
  "bare_char c \<longleftrightarrow>
     97 \<le> byte c \<and> byte c \<le> 122 \<or> 65 \<le> byte c \<and> byte c \<le> 90 \<or> 48 \<le> byte c \<and> byte c \<le> 57 \<or>
     c \<in> set ''%-._=/''"

fun sh_lex :: "lex_state \<Rightarrow> string \<Rightarrow> token list option" where
  "sh_lex Gap [] = Some []"
| "sh_lex (Plain w) [] = Some [Word w]"
| "sh_lex (Quoted w) [] = None"
| "sh_lex (Escaped w) [] = None"
| "sh_lex Dollar [] = None"
| "sh_lex Gap (c # s) =
     (if c = CHR '' '' then sh_lex Gap s
      else if c = CHR 0x0A then map_option (Cons EndLine) (sh_lex Gap s)
      else if c = CHR 0x27 then sh_lex (Quoted []) s
      else if c = CHR 0x5C then sh_lex (Escaped []) s
      else if c = CHR ''>'' then map_option (Cons Redirect) (sh_lex Gap s)
      else if c = CHR ''$'' then sh_lex Dollar s
      else if bare_char c then sh_lex (Plain [c]) s else None)"
| "sh_lex (Plain w) (c # s) =
     (if c = CHR '' '' then map_option (Cons (Word w)) (sh_lex Gap s)
      else if c = CHR 0x0A then map_option (Cons (Word w) \<circ> Cons EndLine) (sh_lex Gap s)
      else if c = CHR 0x27 then sh_lex (Quoted w) s
      else if c = CHR 0x5C then sh_lex (Escaped w) s
      else if bare_char c then sh_lex (Plain (w @ [c])) s else None)"
| "sh_lex (Quoted w) (c # s) =
     (if c = CHR 0x27 then sh_lex (Plain w) s else sh_lex (Quoted (w @ [c])) s)"
| "sh_lex (Escaped w) (c # s) = (if c = CHR 0x0A then None else sh_lex (Plain (w @ [c])) s)"
| "sh_lex Dollar (c # s) = (if c = CHR ''$'' then map_option (Cons Pid) (sh_lex Gap s) else None)"

text \<open>Quoting a valid string and reading it back gives the string, inside a longer script too.\<close>

definition quote_rune :: "string \<Rightarrow> string" where
  "quote_rune r = (if r = [CHR 0x27] then [CHR 0x27, CHR 0x5C, CHR 0x27, CHR 0x27] else r)"

lemma lex_quoted_run:
  "CHR 0x27 \<notin> set r \<Longrightarrow> sh_lex (Quoted w) (r @ s) = sh_lex (Quoted (w @ r)) s"
  by (induction r arbitrary: w) auto

lemma lex_quote_rune:
  "r = [CHR 0x27] \<or> CHR 0x27 \<notin> set r \<Longrightarrow>
   sh_lex (Quoted w) (quote_rune r @ s) = sh_lex (Quoted (w @ r)) s"
  by (auto simp: quote_rune_def lex_quoted_run bare_char_def)

lemma lex_quote_runes:
  "\<forall>r \<in> set rs. r = [CHR 0x27] \<or> CHR 0x27 \<notin> set r \<Longrightarrow>
   sh_lex (Quoted w) (concat (map quote_rune rs) @ s) = sh_lex (Quoted (w @ concat rs)) s"
  by (induction rs arbitrary: w) (simp_all add: lex_quote_rune)

text \<open>A rune of more than one byte has no byte below 128.\<close>

lemma quote_not_continuation: "cont c \<Longrightarrow> c \<noteq> CHR 0x27" "second_ok b c \<Longrightarrow> c \<noteq> CHR 0x27"
  by (auto simp: cont_def second_ok_def byte_def split: if_splits)

lemma rune_prefix_quote:
  "rune_len s \<noteq> 0 \<Longrightarrow> take (rune_len s) s = [CHR 0x27] \<or> CHR 0x27 \<notin> set (take (rune_len s) s)"
proof (cases s)
  case (Cons c t)
  assume "rune_len s \<noteq> 0"
  show ?thesis
  proof (cases "byte c < 128")
    case False
    then have "c \<noteq> CHR 0x27" by (auto simp: byte_def)
    with \<open>rune_len s \<noteq> 0\<close> False Cons show ?thesis
      by (auto simp: numeral_eq_Suc dest: quote_not_continuation split: if_splits list.splits)
  qed (auto simp: Cons)
qed simp

lemma runes_quote: "r \<in> set (runes_of s) \<Longrightarrow> r = [CHR 0x27] \<or> CHR 0x27 \<notin> set r"
proof (induction s rule: runes_of.induct)
  case (1 s)
  show ?case
  proof (cases "s = []")
    case False
    with 1 rune_prefix_quote [of s] show ?thesis
      by (auto simp: runes_of.simps [of s] rune_error_def split: if_splits)
  qed (use 1 in simp)
qed

lemma lex_shellQuote:
  assumes "valid_utf8 s"
  shows "sh_lex Gap (shellQuote s @ rest) = sh_lex (Plain s) rest"
proof (cases "s = []")
  case False
  have "shellQuote s = CHR 0x27 # concat (map quote_rune (runes_of s)) @ [CHR 0x27]"
    using False by (simp add: shellQuote_def quote_rune_def [abs_def])
  moreover have "concat (runes_of s) = s" using assms by (simp add: valid_utf8_def)
  ultimately show ?thesis
    using lex_quote_runes [of "runes_of s" "[]" "CHR 0x27 # rest"] runes_quote by simp
qed (simp add: shellQuote_def)

lemma lex_shellQuote_args:
  "\<forall>a \<in> set args. valid_utf8 a \<Longrightarrow>
   sh_lex Gap (concat (map (\<lambda>arg. shellQuote arg @ '' '') args)) = Some (map Word args)"
  by (induction args) (simp_all add: lex_shellQuote)

section \<open>What a wrapped command runs\<close>

record confinement =
  cf_cpus :: "string option"
  cf_memory :: "string option"
  cf_rt :: "string option"
  cf_argv :: "string list"

definition unconfined :: "string list \<Rightarrow> confinement" where
  "unconfined argv = \<lparr>cf_cpus = None, cf_memory = None, cf_rt = None, cf_argv = argv\<rparr>"

text \<open>\<open>chrt -f N prog ...\<close>, \<open>taskset -c L prog ...\<close> and \<open>numactl --opt --opt -- prog ...\<close>.\<close>

definition run_chrt :: "string list \<Rightarrow> confinement" where
  "run_chrt argv =
     (case argv of c # f # n # rest \<Rightarrow>
        if c = ''chrt'' \<and> f = ''-f'' then (unconfined rest)\<lparr>cf_rt := Some n\<rparr> else unconfined argv
      | _ \<Rightarrow> unconfined argv)"

definition run_taskset :: "string list \<Rightarrow> confinement" where
  "run_taskset argv =
     (case argv of t # c # l # rest \<Rightarrow>
        if t = ''taskset'' \<and> c = ''-c'' then (run_chrt rest)\<lparr>cf_cpus := Some l\<rparr> else run_chrt argv
      | _ \<Rightarrow> run_chrt argv)"

definition run_numactl :: "string list \<Rightarrow> confinement" where
  "run_numactl argv =
     (case argv of n # c # m # d # rest \<Rightarrow>
        if n = ''numactl'' \<and> d = ''--'' then run_taskset rest else run_taskset argv
      | _ \<Rightarrow> run_taskset argv)"

text \<open>The options of \<open>systemd-run --scope\<close> up to the double dash.\<close>

fun run_systemd :: "string option \<Rightarrow> string option \<Rightarrow> string list \<Rightarrow> confinement option" where
  "run_systemd cpus mem [] = None"
| "run_systemd cpus mem (o1 # rest) =
     (if o1 = ''--'' then Some ((run_chrt rest)\<lparr>cf_cpus := cpus, cf_memory := mem\<rparr>)
      else if HasPrefix o1 ''--property=AllowedCPUs=''
      then run_systemd (Some (TrimPrefix o1 ''--property=AllowedCPUs='')) mem rest
      else if HasPrefix o1 ''--property=MemoryMax=''
      then run_systemd cpus (Some (TrimPrefix o1 ''--property=MemoryMax='')) rest
      else if HasPrefix o1 ''--'' then run_systemd cpus mem rest else None)"

text \<open>The content last written to a file, if any.\<close>

fun last_write :: "string \<Rightarrow> os_op list \<Rightarrow> string option" where
  "last_write f [] = None"
| "last_write f (op1 # ops) =
     (case last_write f ops of Some s \<Rightarrow> Some s
      | None \<Rightarrow> (case op1 of WriteFile g s \<Rightarrow> if g = f then Some s else None | _ \<Rightarrow> None))"

fun words :: "token list \<Rightarrow> string list option" where
  "words [] = Some []"
| "words (Word w # ts) = map_option (Cons w) (words ts)"
| "words (_ # ts) = None"

text \<open>A script that joins the cgroup of the process file and then replaces itself.\<close>

definition run_script :: "os_op list \<Rightarrow> string \<Rightarrow> confinement option" where
  "run_script ops script =
     (case sh_lex Gap script of
        Some (p # d # pid # r # Word procs # nl # e # rest) \<Rightarrow>
          if p = Word ''printf'' \<and> d = Word ''%d'' \<and> pid = Pid \<and> r = Redirect \<and> nl = EndLine \<and>
             e = Word ''exec'' \<and>
             procs = path_join (take (length procs - length ''/cgroup.procs'') procs) ''cgroup.procs''
          then (let dir = take (length procs - length ''/cgroup.procs'') procs in
            map_option (\<lambda>argv. (run_chrt argv)\<lparr>cf_cpus := last_write (path_join dir ''cpuset.cpus'') ops,
                cf_memory := last_write (path_join dir ''memory.max'') ops\<rparr>) (words rest))
          else None
      | _ \<Rightarrow> None)"

definition run_of :: "os_op list \<Rightarrow> Cmd \<Rightarrow> confinement option" where
  "run_of ops w =
     (case cmd_Args w of
        [] \<Rightarrow> None
      | prog # args \<Rightarrow>
          if prog = ''systemd-run'' then run_systemd None None args
          else if prog = ''sh'' then
            (case args of [c, script] \<Rightarrow> if c = ''-c'' then run_script ops script else None | _ \<Rightarrow> None)
          else Some (run_numactl (prog # args)))"

section \<open>The contract\<close>

text \<open>The commands the launcher wraps: the program is a path, and the arguments are valid UTF-8.\<close>

definition launchable :: "Cmd \<Rightarrow> bool" where
  "launchable cmd \<longleftrightarrow> CHR ''/'' \<in> set (cmd_Path cmd) \<and> cmd_Args cmd \<noteq> [] \<and>
     valid_utf8 (cmd_Path cmd) \<and> (\<forall>a \<in> set (tl (cmd_Args cmd)). valid_utf8 a)"

definition enforces :: "Assignment \<Rightarrow> Cmd \<Rightarrow> confinement \<Rightarrow> bool" where
  "enforces a cmd cf \<longleftrightarrow>
     cf_argv cf = cmd_Path cmd # tl (cmd_Args cmd) \<and>
     (a_CPUs a \<noteq> [] \<longrightarrow> cf_cpus cf = Some (CPUList_String (a_CPUs a))) \<and>
     (a_MemoryMax a > 0 \<longrightarrow> cf_memory cf = Some (Itoa (a_MemoryMax a))) \<and>
     cf_rt cf = (if a_RTPriority a > 0 then Some (Itoa (a_RTPriority a)) else None)"

definition same_context :: "Assignment \<Rightarrow> Cmd \<Rightarrow> Cmd \<Rightarrow> bool" where
  "same_context a cmd w \<longleftrightarrow>
     cmd_Dir w = cmd_Dir cmd \<and> cmd_Stdin w = cmd_Stdin cmd \<and> cmd_Stdout w = cmd_Stdout cmd \<and>
     cmd_Stderr w = cmd_Stderr cmd \<and> cmd_SysProcAttr w = cmd_SysProcAttr cmd \<and>
     cmd_Env w = (if a_GOMAXPROCS a > 0
       then appendOrReplaceEnv (cmd_Env cmd) ''GOMAXPROCS'' (Itoa (a_GOMAXPROCS a)) else cmd_Env cmd)"

text \<open>
  The interface's laws: a command without a program is refused before anything is touched; a
  wrapped command runs the original program with the original arguments, in the same context,
  under every limit of the assignment.
\<close>

locale confiner =
  fixes wrap :: wrap_fun
  assumes wrap_refuses: "cmd_Path cmd = [] \<or> cmd_Args cmd = [] \<Longrightarrow> wrap h ops cmd a = (Inl NoPathArgs, ops)"
    and wrap_confines: "wrap h ops cmd a = (Inr w, ops') \<Longrightarrow> launchable cmd \<Longrightarrow>
      \<exists>cf. run_of ops' w = Some cf \<and> enforces a cmd cf"
    and wrap_context: "wrap h ops cmd a = (Inr w, ops') \<Longrightarrow> same_context a cmd w"
begin

text \<open>The kernel is told exactly the planned CPUs.\<close>

lemma wrap_kernel_cpus:
  assumes "wrap h ops cmd a = (Inr w, ops')" "launchable cmd"
    and "wf_cpus (a_CPUs a)" "max_int \<notin> set (a_CPUs a)" "a_CPUs a \<noteq> []"
  shows "\<exists>cf s. run_of ops' w = Some cf \<and> cf_argv cf = cmd_Path cmd # tl (cmd_Args cmd) \<and>
    cf_cpus cf = Some s \<and> ParseCPUList s = Returns (a_CPUs a)"
  using wrap_confines [OF assms(1,2)] parse_String [OF assms(3,4)] assms(5)
  by (auto simp: enforces_def)

end

section \<open>The three back ends meet the contract\<close>

lemma inherit_simps [simp]:
  "cmd_Args (inherit cmd a w) = cmd_Args w" "same_context a cmd (inherit cmd a w)"
  by (simp_all add: inherit_def same_context_def)

lemma CommandContext_Args [simp]: "cmd_Args (CommandContext h name args) = name # args"
  by (simp add: CommandContext_def)

text \<open>A program given by its path is none of the wrapper programs.\<close>

lemma run_path:
  assumes "CHR ''/'' \<in> set p"
  shows "run_chrt (p # args) = unconfined (p # args)"
    and "run_taskset (p # args) = unconfined (p # args)"
    and "run_numactl (p # args) = unconfined (p # args)"
    and "p \<noteq> ''systemd-run''" "p \<noteq> ''sh''"
proof -
  have neq: "p \<noteq> ''chrt''" "p \<noteq> ''taskset''" "p \<noteq> ''numactl''" using assms by auto
  then show "run_chrt (p # args) = unconfined (p # args)"
    by (auto simp: run_chrt_def split: list.split)
  with neq show "run_taskset (p # args) = unconfined (p # args)"
    by (auto simp: run_taskset_def split: list.split)
  with neq show "run_numactl (p # args) = unconfined (p # args)"
    by (auto simp: run_numactl_def split: list.split)
  show "p \<noteq> ''systemd-run''" "p \<noteq> ''sh''" using assms by auto
qed

lemma run_chrt_prefix [simp]:
  "run_chrt (''chrt'' # ''-f'' # n # rest) = (unconfined rest)\<lparr>cf_rt := Some n\<rparr>"
  by (simp add: run_chrt_def)

lemma run_taskset_prefix [simp]:
  "run_taskset (''taskset'' # ''-c'' # l # rest) = (run_chrt rest)\<lparr>cf_cpus := Some l\<rparr>"
  "run_taskset (''chrt'' # rest) = run_chrt (''chrt'' # rest)"
  by (auto simp: run_taskset_def split: list.split)

lemma run_numactl_prefix [simp]:
  "run_numactl (''numactl'' # c # m # ''--'' # rest) = run_taskset rest"
  "run_numactl (''chrt'' # rest) = run_chrt (''chrt'' # rest)"
  "run_numactl (''taskset'' # rest) = run_taskset (''taskset'' # rest)"
  by (auto simp: run_numactl_def run_taskset_def split: list.split)

lemma unconfined_simps [simp]:
  "cf_argv (unconfined argv) = argv" "cf_rt (unconfined argv) = None"
  "cf_cpus (unconfined argv) = None" "cf_memory (unconfined argv) = None"
  by (simp_all add: unconfined_def)

interpretation systemd: confiner systemd_Wrap
proof
  fix h ops cmd a w ops'
  assume w: "systemd_Wrap h ops cmd a = (Inr w, ops')" and l: "launchable cmd"
  then have args: "cmd_Args w = ''systemd-run'' # systemd_args cmd a"
    by (auto simp: systemd_Wrap_def split: if_splits)
  have path: "CHR ''/'' \<in> set (cmd_Path cmd)" using l by (simp add: launchable_def)
  show "\<exists>cf. run_of ops' w = Some cf \<and> enforces a cmd cf"
    by (auto simp: run_of_def args systemd_args_def HasPrefix_def TrimPrefix_def enforces_def
        run_path [OF path])
qed (auto simp: systemd_Wrap_def split: if_splits)

interpretation taskset: confiner taskset_Wrap
proof
  fix h ops cmd a w ops'
  assume w: "taskset_Wrap h ops cmd a = (Inr w, ops')" and l: "launchable cmd"
  then obtain pre where pre: "taskset_prefix h a = Inr pre"
    and args: "cmd_Args w = pre @ cmd_Path cmd # tl (cmd_Args cmd)"
    by (cases "taskset_prefix h a") (auto simp: taskset_Wrap_def Let_def split: if_splits)
  have path: "CHR ''/'' \<in> set (cmd_Path cmd)" using l by (simp add: launchable_def)
  show "\<exists>cf. run_of ops' w = Some cf \<and> enforces a cmd cf"
    using pre
    by (auto simp: run_of_def args taskset_prefix_def enforces_def run_path [OF path] Let_def
        split: if_splits)
qed (auto simp: taskset_Wrap_def Let_def split: if_splits sum.splits)

lemma last_write_append:
  "last_write f (ops @ ops') =
     (case last_write f ops' of Some s \<Rightarrow> Some s | None \<Rightarrow> last_write f ops)"
  by (induction ops) (auto split: os_op.splits option.splits)

lemma must_Inr:
  "must h err op1 ops k = (Inr w, ops') \<longleftrightarrow> op_ok h ops op1 \<and> k (ops @ [op1]) = (Inr w, ops')"
  by (auto simp: must_def)

lemma unit_char_sanitise: "c \<in> set (sanitiseUnit s) \<Longrightarrow> unit_char c"
  by (auto simp: sanitiseUnit_def unit_char_def split: if_splits)

lemma scope_unit_chars: "c \<in> set (scopeUnitName a) \<Longrightarrow> unit_char c \<or> c = CHR ''.''"
proof -
  have fixed: "\<forall>c \<in> set ''chaos-''. unit_char c" "\<forall>c \<in> set ''scope''. unit_char c" "unit_char CHR ''-''"
    by (simp_all add: unit_char_def byte_def)
  assume "c \<in> set (scopeUnitName a)"
  then have "c \<in> set ''chaos-'' \<or> c \<in> set ''scope'' \<or> c = CHR ''-'' \<or> c = CHR ''.'' \<or>
      c \<in> set (sanitiseUnit (a_Component a)) \<or> c \<in> set (sanitiseUnit (a_ReplicaID a))"
    by (auto simp: scopeUnitName_def split: if_splits)
  with fixed unit_char_sanitise show ?thesis by blast
qed

lemma unit_char_ascii: "unit_char c \<Longrightarrow> byte c < 128 \<and> c \<noteq> CHR ''/''"
  by (auto simp: unit_char_def byte_def)

lemma procs_file_valid: "valid_utf8 (path_join (unitDir a) ''cgroup.procs'')"
proof (rule ascii_valid_utf8, intro ballI)
  fix c assume "c \<in> set (path_join (unitDir a) ''cgroup.procs'')"
  then have "c \<in> set (scopeUnitName a) \<or> byte c < 128"
    by (auto simp: path_join_def unitDir_def slicePath_def cgroup_root_def byte_def)
  then show "byte c < 128"
    using scope_unit_chars [of c a] unit_char_ascii [of c] by (auto simp: byte_def)
qed

text \<open>Unquoted words.\<close>

lemma lex_bare: "\<forall>c \<in> set r. bare_char c \<Longrightarrow> sh_lex (Plain w) (r @ s) = sh_lex (Plain (w @ r)) s"
  by (induction r arbitrary: w) (auto simp: bare_char_def byte_def)

lemma bare_not_special:
  "bare_char c \<Longrightarrow> c \<noteq> CHR '' '' \<and> c \<noteq> CHR 0x0A \<and> c \<noteq> CHR 0x27 \<and> c \<noteq> CHR 0x5C \<and> c \<noteq> CHR ''>'' \<and> c \<noteq> CHR ''$''"
  by (auto simp: bare_char_def byte_def)

lemma lex_bare_word:
  assumes "r \<noteq> []" "\<forall>c \<in> set r. bare_char c"
  shows "sh_lex Gap (r @ CHR '' '' # s) = map_option (Cons (Word r)) (sh_lex Gap s)"
proof (cases r)
  case (Cons c t)
  with assms bare_not_special [of c] show ?thesis
    using lex_bare [of t "[c]" "CHR '' '' # s"] by simp
qed (use assms in simp)

lemma lex_word_ex: "sh_lex Gap (''exec '' @ s) = map_option (Cons (Word ''exec'')) (sh_lex Gap s)"
  using lex_bare_word [of "''exec''" s] by (simp add: bare_char_def byte_def)

lemma lex_word_chrt:
  assumes "0 < n"
  shows "sh_lex Gap (''exec chrt -f '' @ Itoa n @ '' '' @ s) =
    map_option (\<lambda>ts. Word ''exec'' # Word ''chrt'' # Word ''-f'' # Word (Itoa n) # ts) (sh_lex Gap s)"
proof -
  have "\<forall>c \<in> set (Itoa n). bare_char c"
    using Itoa_nonneg_chars [of n] assms by (auto simp: bare_char_def)
  then have number: "sh_lex Gap (Itoa n @ CHR '' '' # s) = map_option (Cons (Word (Itoa n))) (sh_lex Gap s)"
    by (intro lex_bare_word) simp_all
  show ?thesis
    using lex_bare_word [of "''exec''" "''chrt -f '' @ Itoa n @ '' '' @ s"]
      lex_bare_word [of "''chrt''" "''-f '' @ Itoa n @ '' '' @ s"]
      lex_bare_word [of "''-f''" "Itoa n @ '' '' @ s"] number
    by (simp add: bare_char_def byte_def option.map_comp comp_def)
qed

lemma lex_prelude:
  "sh_lex Gap (''printf %d $$ > '' @ s) =
   map_option (\<lambda>ts. Word ''printf'' # Word ''%d'' # Pid # Redirect # ts) (sh_lex Gap s)"
  using lex_bare_word [of "''printf''" "''%d $$ > '' @ s"] lex_bare_word [of "''%d''" "''$$ > '' @ s"]
  by (simp add: bare_char_def byte_def option.map_comp comp_def)

lemma lex_script:
  assumes "launchable cmd"
  shows "sh_lex Gap (cgroup_script cmd a) =
    Some ([Word ''printf'', Word ''%d'', Pid, Redirect, Word (path_join (unitDir a) ''cgroup.procs''),
           EndLine, Word ''exec''] @
      map Word ((if a_RTPriority a > 0 then [''chrt'', ''-f'', Itoa (a_RTPriority a)] else []) @
        cmd_Path cmd # tl (cmd_Args cmd)))"
proof -
  have "\<forall>x \<in> set (cmd_Path cmd # tl (cmd_Args cmd)). valid_utf8 x"
    using assms by (simp add: launchable_def)
  note args = lex_shellQuote_args [OF this]
  let ?args = "concat (map (\<lambda>arg. shellQuote arg @ '' '') (cmd_Path cmd # tl (cmd_Args cmd)))"
  let ?exec = "if a_RTPriority a > 0 then ''exec chrt -f '' @ Itoa (a_RTPriority a) @ '' '' else ''exec ''"
  let ?procs = "path_join (unitDir a) ''cgroup.procs''"
  have "sh_lex Gap (?exec @ ?args) = Some (Word ''exec'' # map Word
      ((if a_RTPriority a > 0 then [''chrt'', ''-f'', Itoa (a_RTPriority a)] else []) @
        cmd_Path cmd # tl (cmd_Args cmd)))"
  proof (cases "a_RTPriority a > 0")
    case True
    then show ?thesis
      by (simp only: if_True append_assoc lex_word_chrt [OF True, of ?args] args) simp
  qed (simp only: if_False lex_word_ex args, simp)
  then have "sh_lex Gap (shellQuote ?procs @ [CHR 0x0A] @ ?exec @ ?args) =
      Some (Word ?procs # EndLine # Word ''exec'' # map Word
        ((if a_RTPriority a > 0 then [''chrt'', ''-f'', Itoa (a_RTPriority a)] else []) @
          cmd_Path cmd # tl (cmd_Args cmd)))"
    by (simp only: lex_shellQuote [OF procs_file_valid]) simp
  then show ?thesis by (simp only: cgroup_script_def lex_prelude) simp
qed

lemma words_Word [simp]: "words (map Word ws) = Some ws"
  by (induction ws) simp_all

lemma run_script_cgroup:
  assumes "launchable cmd"
  shows "run_script ops (cgroup_script cmd a) =
    Some ((run_chrt ((if a_RTPriority a > 0 then [''chrt'', ''-f'', Itoa (a_RTPriority a)] else []) @
        cmd_Path cmd # tl (cmd_Args cmd)))
      \<lparr>cf_cpus := last_write (path_join (unitDir a) ''cpuset.cpus'') ops,
       cf_memory := last_write (path_join (unitDir a) ''memory.max'') ops\<rparr>)"
  using words_Word [of "(if a_RTPriority a > 0 then [''chrt'', ''-f'', Itoa (a_RTPriority a)] else []) @
        cmd_Path cmd # tl (cmd_Args cmd)"]
  by (simp add: run_script_def lex_script [OF assms] path_join_def Let_def split: if_splits)

lemma cgroup_Wrap_Inr:
  assumes "cgroup_Wrap h ops cmd a = (Inr w, ops')"
  shows "w = inherit cmd a (CommandContext h ''sh'' [''-c'', cgroup_script cmd a])"
    and "a_CPUs a \<noteq> [] \<Longrightarrow> last_write (path_join (unitDir a) ''cpuset.cpus'') ops' = Some (CPUList_String (a_CPUs a))"
    and "a_MemoryMax a > 0 \<Longrightarrow> last_write (path_join (unitDir a) ''memory.max'') ops' = Some (Itoa (a_MemoryMax a))"
  using assms
  by (auto simp: cgroup_Wrap_def Let_def must_Inr last_write_append path_join_def split: if_splits)

interpretation cgroup: confiner cgroup_Wrap
proof
  fix h ops cmd a w ops'
  assume w: "cgroup_Wrap h ops cmd a = (Inr w, ops')" and l: "launchable cmd"
  have path: "CHR ''/'' \<in> set (cmd_Path cmd)" using l by (simp add: launchable_def)
  show "\<exists>cf. run_of ops' w = Some cf \<and> enforces a cmd cf"
    using cgroup_Wrap_Inr(2,3) [OF w]
    by (auto simp: run_of_def cgroup_Wrap_Inr(1) [OF w] run_script_cgroup [OF l] enforces_def run_path [OF path])
next
  fix h ops cmd a w ops'
  assume w: "cgroup_Wrap h ops cmd a = (Inr w, ops')"
  then show "same_context a cmd w" by (simp add: cgroup_Wrap_Inr(1) [OF w])
qed (auto simp: cgroup_Wrap_def Let_def)

section \<open>Environment\<close>

lemma replace_env_spec:
  "replace_env p v env r = (out, r') \<Longrightarrow>
   (r' \<longleftrightarrow> r \<or> (\<exists>e \<in> set env. HasPrefix e p)) \<and>
   filter (\<lambda>e. \<not> HasPrefix e p) out = filter (\<lambda>e. \<not> HasPrefix e p) env \<and>
   filter (\<lambda>e. HasPrefix e p) out = (if \<not> r \<and> (\<exists>e \<in> set env. HasPrefix e p) then [p @ v] else [])"
  by (induction p v env r arbitrary: out r' rule: replace_env.induct)
    (auto split: prod.splits if_splits)

lemma appendOrReplaceEnv_spec:
  "filter (\<lambda>e. HasPrefix e (key @ ''='')) (appendOrReplaceEnv env key v) = [key @ ''='' @ v] \<and>
   filter (\<lambda>e. \<not> HasPrefix e (key @ ''='')) (appendOrReplaceEnv env key v) =
     filter (\<lambda>e. \<not> HasPrefix e (key @ ''='')) env"
proof -
  obtain out r where out: "replace_env (key @ ''='') v env False = (out, r)" by fastforce
  have "HasPrefix (key @ CHR ''='' # v) (key @ ''='')"
    using HasPrefix_append [of "key @ ''=''" v] by simp
  with replace_env_spec [OF out] show ?thesis
    by (auto simp: appendOrReplaceEnv_def out)
qed

end
