(* ===== verification/Verify.thy ===== *)
theory Verify
  imports PlanProps
begin

text \<open>
  \<open>pkg/tuning/verify.go\<close>: reading back the CPU affinity of the launched processes from
  \<open>/proc/<pid>/status\<close> and comparing it with the plan. The proc file system is a parameter: the
  text of a process' status file, or nothing when it cannot be read.
\<close>

section \<open>Data\<close>

text \<open>The message of a result, by the case it reports; \<open>fmt\<close>'s rendering is left out.\<close>

datatype verify_detail =
    Skipped string | NotParsed string cpulist_error | Exceeds cpulist cpulist
  | Within cpulist cpulist | NoLine string | Blank

record VerifyResult =
  vr_Component :: string
  vr_ReplicaID :: string
  vr_PID :: int
  vr_WantCPUs :: cpulist
  vr_GotCPUs :: cpulist
  vr_WantMaxProc :: int
  vr_GotMaxProc :: int
  vr_OK :: bool
  vr_Detail :: verify_detail

type_synonym procfs = "int \<Rightarrow> string option"

definition allowed_prefix :: string where
  "allowed_prefix = ''Cpus_allowed_list:''"

definition newline :: char where
  "newline = CHR 0x0A"

definition status_path :: "int \<Rightarrow> string" where
  "status_path pid = ''/proc/'' @ Itoa pid @ ''/status''"

section \<open>VerifyPID\<close>

definition initial_result :: "int \<Rightarrow> Assignment \<Rightarrow> VerifyResult" where
  "initial_result pid a =
     \<lparr>vr_Component = a_Component a, vr_ReplicaID = a_ReplicaID a, vr_PID = pid,
      vr_WantCPUs = a_CPUs a, vr_GotCPUs = [], vr_WantMaxProc = a_GOMAXPROCS a, vr_GotMaxProc = 0,
      vr_OK = False, vr_Detail = Blank\<rparr>"

text \<open>The loop over the lines; the first line with the prefix decides.\<close>

fun verify_lines :: "string \<Rightarrow> Assignment \<Rightarrow> VerifyResult \<Rightarrow> string list \<Rightarrow> (unit, VerifyResult) outcome" where
  "verify_lines path a r [] = Returns (r\<lparr>vr_OK := False, vr_Detail := NoLine path\<rparr>)"
| "verify_lines path a r (line # lines) =
     (if \<not> HasPrefix line allowed_prefix then verify_lines path a r lines
      else let val = TrimSpace (TrimPrefix line allowed_prefix) in
        case ParseCPUList val of
          Hangs \<Rightarrow> Hangs
        | Fails e \<Rightarrow> Returns (r\<lparr>vr_OK := False, vr_Detail := NotParsed val e\<rparr>)
        | Returns got \<Rightarrow>
            if CPUList_Len (CPUList_Difference got (a_CPUs a)) > 0
            then Returns (r\<lparr>vr_GotCPUs := got, vr_OK := False, vr_Detail := Exceeds got (a_CPUs a)\<rparr>)
            else Returns (r\<lparr>vr_GotCPUs := got, vr_OK := True, vr_Detail := Within got (a_CPUs a)\<rparr>))"

definition VerifyPID :: "procfs \<Rightarrow> int \<Rightarrow> Assignment \<Rightarrow> (unit, VerifyResult) outcome" where
  "VerifyPID readStatus pid a =
     (case readStatus pid of
        None \<Rightarrow> Returns ((initial_result pid a)\<lparr>vr_OK := True, vr_Detail := Skipped (status_path pid)\<rparr>)
      | Some b \<Rightarrow> verify_lines (status_path pid) a (initial_result pid a) (Split newline b))"

section \<open>VerifyAll and AnyFailed\<close>

definition verify_key :: "Assignment \<Rightarrow> string" where
  "verify_key a = (if a_ReplicaID a \<noteq> [] then a_ReplicaID a else a_Component a)"

fun verify_each ::
  "procfs \<Rightarrow> (string \<rightharpoonup> int) \<Rightarrow> Assignment list \<Rightarrow> (unit, VerifyResult list) outcome" where
  "verify_each readStatus pids [] = Returns []"
| "verify_each readStatus pids (a # as) =
     (case pids (verify_key a) of
        None \<Rightarrow> verify_each readStatus pids as
      | Some pid \<Rightarrow>
          and_then (VerifyPID readStatus pid a) (\<lambda>r.
          and_then (verify_each readStatus pids as) (\<lambda>rs. Returns (r # rs))))"

definition VerifyAll :: "procfs \<Rightarrow> Plan \<Rightarrow> (string \<rightharpoonup> int) \<Rightarrow> (unit, VerifyResult list) outcome" where
  "VerifyAll readStatus plan pids = verify_each readStatus pids (pl_Assignments plan)"

fun AnyFailed :: "VerifyResult list \<Rightarrow> bool" where
  "AnyFailed [] \<longleftrightarrow> False"
| "AnyFailed (r # rs) \<longleftrightarrow> (if \<not> vr_OK r then True else AnyFailed rs)"

section \<open>FormatVerifyResults\<close>

text \<open>\<open>detail\<close> is the text of a result's message.\<close>

definition format_result :: "(verify_detail \<Rightarrow> string) \<Rightarrow> VerifyResult \<Rightarrow> string" where
  "format_result detail r =
     ''  '' @ (if vr_OK r then check_mark else cross_mark) @ '' '' @
     pad_right 30 (if vr_ReplicaID r \<noteq> [] then vr_ReplicaID r else vr_Component r) @
     '' pid='' @ pad_right 7 (Itoa (vr_PID r)) @ '' '' @ detail (vr_Detail r) @ [newline]"

definition FormatVerifyResults :: "(verify_detail \<Rightarrow> string) \<Rightarrow> VerifyResult list \<Rightarrow> string" where
  "FormatVerifyResults detail results = concat (map (format_result detail) results)"

section \<open>ParsePIDStatusForCPUs\<close>

fun allowed_in_lines :: "string list \<Rightarrow> (cpulist_error, cpulist) outcome" where
  "allowed_in_lines [] = Returns []"
| "allowed_in_lines (line # lines) =
     (if \<not> HasPrefix line allowed_prefix then allowed_in_lines lines
      else ParseCPUList (TrimSpace (TrimPrefix line allowed_prefix)))"

definition ParsePIDStatusForCPUs :: "string \<Rightarrow> (cpulist_error, cpulist) outcome" where
  "ParsePIDStatusForCPUs status = allowed_in_lines (Split newline status)"

section \<open>Lemmas\<close>

lemma AnyFailed_iff: "AnyFailed rs \<longleftrightarrow> (\<exists>r \<in> set rs. \<not> vr_OK r)"
  by (induction rs) auto

lemma verify_lines_OK:
  "verify_lines path a r lines = Returns r' \<Longrightarrow> vr_OK r' \<Longrightarrow>
   \<exists>got. allowed_in_lines lines = Returns got \<and> set got \<subseteq> set (a_CPUs a)"
  by (induction lines) (auto simp: Let_def split: outcome.splits if_splits)

lemma verify_lines_fields:
  "verify_lines path a r lines = Returns r' \<Longrightarrow>
   vr_Component r' = vr_Component r \<and> vr_ReplicaID r' = vr_ReplicaID r \<and> vr_PID r' = vr_PID r \<and>
   vr_WantCPUs r' = vr_WantCPUs r"
  by (induction lines) (auto simp: Let_def split: outcome.splits if_splits)

text \<open>The results of \<open>VerifyAll\<close>, one per assignment that has a process.\<close>

lemma verify_each_results:
  assumes "verify_each readStatus pids as = Returns rs" "a \<in> set as" "pids (verify_key a) = Some pid"
  shows "\<exists>r \<in> set rs. VerifyPID readStatus pid a = (Returns r :: (unit, VerifyResult) outcome)"
  using assms
proof (induction as arbitrary: rs)
  case (Cons b as)
  show ?case
  proof (cases "b = a")
    case True
    with Cons.prems show ?thesis by (cases "VerifyPID readStatus pid a") (auto simp: and_then_eq_Returns VerifyPID_def split: option.splits)
  next
    case False
    with Cons show ?thesis by (fastforce simp: and_then_eq_Returns split: option.splits)
  qed
qed simp

text \<open>The line the kernel prints for a set of allowed CPUs.\<close>

definition allowed_line :: "cpulist \<Rightarrow> string" where
  "allowed_line l = allowed_prefix @ CHR 0x09 # CPUList_String l"

lemma CPUList_String_chars: "c \<in> set (CPUList_String l) \<Longrightarrow> plain c"
proof -
  have "plain c" if "c \<in> set (join '','' (map render_piece ps))" for ps
    using that by (rule join_plain [rotated]) (auto dest: render_piece_plain)
  then show "c \<in> set (CPUList_String l) \<Longrightarrow> plain c"
    by (cases "sort l") (auto simp: CPUList_String_def string_loop_runs)
qed

lemma TrimSpace_String: "TrimSpace (CPUList_String l) = CPUList_String l"
  by (rule TrimSpace_all_plain) (rule CPUList_String_chars)

lemma parse_allowed_line:
  assumes "wf_cpus l" "max_int \<notin> set l"
  shows "ParseCPUList (TrimSpace (TrimPrefix (allowed_line l) allowed_prefix)) = Returns l"
  using assms
  by (simp add: allowed_line_def TrimSpace_space space1_def byte_def TrimSpace_String parse_String)

lemma allowed_in_lines_first:
  "\<forall>line \<in> set pre. \<not> HasPrefix line allowed_prefix \<Longrightarrow>
   allowed_in_lines (pre @ allowed_line l # post) =
     ParseCPUList (TrimSpace (TrimPrefix (allowed_line l) allowed_prefix))"
  by (induction pre) (simp_all add: allowed_line_def)

lemma newline_not_plain: "\<not> plain newline"
  by (simp add: plain_def newline_def byte_def)

lemma newline_allowed_line: "newline \<notin> set (allowed_line l)"
  using CPUList_String_chars [of newline l] newline_not_plain
  by (auto simp: allowed_line_def allowed_prefix_def newline_def)

text \<open>The verified affinities of an exclusive and any other process are disjoint.\<close>

lemma verified_disjoint:
  assumes "fair_order it" "BuildPlan it p topo flat = Returns pl"
    and "VerifyAll readStatus pl pids = Returns rs" "\<not> AnyFailed rs"
    and "i < length (pl_Assignments pl)" "j < length (pl_Assignments pl)" "i \<noteq> j"
    and "a_Exclusive (pl_Assignments pl ! i)"
    and "pids (verify_key (pl_Assignments pl ! i)) = Some pi" "readStatus pi = Some si"
    and "pids (verify_key (pl_Assignments pl ! j)) = Some pj" "readStatus pj = Some sj"
  shows "\<exists>li lj. ParsePIDStatusForCPUs si = Returns li \<and> ParsePIDStatusForCPUs sj = Returns lj \<and>
    set li \<inter> set lj = {}"
proof -
  have confined: "\<exists>l. ParsePIDStatusForCPUs s = Returns l \<and> set l \<subseteq> set (a_CPUs a)"
    if a: "a \<in> set (pl_Assignments pl)" "pids (verify_key a) = Some pid" "readStatus pid = Some s" for a pid s
  proof -
    obtain r where r: "r \<in> set rs" "VerifyPID readStatus pid a = Returns r"
      using verify_each_results [OF assms(3) [unfolded VerifyAll_def] a(1,2)] by blast
    then have "vr_OK r" using assms(4) by (auto simp: AnyFailed_iff)
    with r(2) a(3) show ?thesis
      using verify_lines_OK [of "status_path pid" a "initial_result pid a" "Split newline s" r]
      by (auto simp: VerifyPID_def ParsePIDStatusForCPUs_def)
  qed
  have "post_validate (pl_Assignments pl) = Returns ()"
    using BuildPlan_Returns [OF assms(1,2)] post_validate_Returns by metis
  then have "set (a_CPUs (pl_Assignments pl ! i)) \<inter> set (a_CPUs (pl_Assignments pl ! j)) = {}"
    using assms(5-8) unfolding post_validate_nth by blast
  with confined [OF nth_mem [OF assms(5)] assms(9,10)] confined [OF nth_mem [OF assms(6)] assms(11,12)]
  show ?thesis by blast
qed

section \<open>Properties\<close>

text \<open>
  C36. VerifyPID decides exactly whether the kernel confines the process: given a status file
  whose first Cpus_allowed_list line lists the CPUs of l, the result is OK if and only if every
  one of them belongs to the assignment.
\<close>

theorem verify_pid_exact:
  assumes "wf_cpus l" "max_int \<notin> set l"
    and "\<forall>line \<in> set (pre @ post). newline \<notin> set line" "\<forall>line \<in> set pre. \<not> HasPrefix line allowed_prefix"
    and "readStatus pid = Some (join [newline] (pre @ allowed_line l # post))"
  shows "\<exists>r. VerifyPID readStatus pid a = Returns r \<and> vr_GotCPUs r = l \<and>
    (vr_OK r \<longleftrightarrow> set l \<subseteq> set (a_CPUs a))"
proof -
  have "Split newline (join [newline] (pre @ allowed_line l # post)) = pre @ allowed_line l # post"
    using assms(3) newline_allowed_line by (intro Split_join) auto
  moreover have "\<exists>r'. verify_lines path a r (pre @ allowed_line l # post) = Returns r' \<and>
      vr_GotCPUs r' = l \<and> (vr_OK r' \<longleftrightarrow> set l \<subseteq> set (a_CPUs a))" for path r
    using assms(4)
    by (induction pre) (simp_all add: parse_allowed_line assms(1,2) Let_def, simp add: allowed_line_def)
  ultimately show ?thesis using assms(5) by (simp add: VerifyPID_def)
qed

definition sample_assignment :: Assignment where
  "sample_assignment = \<lparr>a_Component = ''etcd'', a_ReplicaID = ''etcd-0'', a_Class = ''reserved'',
     a_CPUs = [0, 1, 2, 3], a_Exclusive = False, a_GOMAXPROCS = 4, a_MemoryMax = 0, a_RTPriority = 0,
     a_NUMANode = -1, a_Source = []\<rparr>"

theorem verify_pid_exact_witness:
  "\<exists>r. VerifyPID (\<lambda>pid. Some (join [newline] [''Name: x'', allowed_line [1, 2], ''Mems: 0''])) 7
     sample_assignment = Returns r \<and> vr_OK r"
proof -
  let ?status = "\<lambda>pid. Some (join [newline] ([''Name: x''] @ allowed_line [1, 2] # [''Mems: 0'']))"
  have "\<exists>r. VerifyPID ?status 7 sample_assignment = Returns r \<and> vr_GotCPUs r = [1, 2] \<and>
      (vr_OK r \<longleftrightarrow> set [1, 2] \<subseteq> set (a_CPUs sample_assignment))"
    by (rule verify_pid_exact [of "[1, 2]" "[''Name: x'']" "[''Mems: 0'']"])
      (simp_all add: wf_cpus_def max_int_def newline_def HasPrefix_def allowed_prefix_def)
  then show ?thesis by (auto simp: sample_assignment_def)
qed


definition sample_status :: procfs where
  "sample_status pid = Some (allowed_prefix @ (if pid = 1 then '' 6-7'' else '' 0-1''))"

definition sample_pids :: "string \<rightharpoonup> int" where
  "sample_pids = [''chaos-victim'' \<mapsto> 1, ''etcd-0'' \<mapsto> 2]"


end
