(* ===== verification/Preflight.thy ===== *)
theory Preflight
  imports PlanProps
begin

text \<open>
  \<open>pkg/tuning/preflight.go\<close>: the host checks derived from a profile and their report. The file system is
  a parameter: the content of a file or nothing, and the entries of \<open>/proc\<close>.
\<close>

section \<open>Data\<close>

text \<open>The explanation of a check, by the case it reports; \<open>fmt\<close>'s rendering is left out.\<close>

datatype check_detail =
    NotOnCmdline string cpulist | BadArgument string cpulist_error | MissingCPUs string cpulist cpulist
  | CoversCPUs string cpulist cpulist | NoHugepageFile string | PageTotals int int
  | BadGovernors nat nat int | NoCpufreq | GoodGovernors nat | KernelName string | IrqbalanceRuns bool
  | LinuxOnly string

record PreflightCheck =
  pc_Name :: string
  pc_Required :: bool
  pc_Description :: string
  pc_Pass :: bool
  pc_Detail :: check_detail

type_synonym PreflightReport = "PreflightCheck list"

fun AllPassed :: "PreflightReport \<Rightarrow> bool" where
  "AllPassed [] \<longleftrightarrow> True"
| "AllPassed (c # cs) \<longleftrightarrow> (if \<not> pc_Pass c then False else AllPassed cs)"

definition RequiredFailures :: "PreflightReport \<Rightarrow> PreflightCheck list" where
  "RequiredFailures r = filter (\<lambda>c. \<not> pc_Pass c \<and> pc_Required c) r"

definition check_line :: "(check_detail \<Rightarrow> string) \<Rightarrow> PreflightCheck \<Rightarrow> string" where
  "check_line detail c =
     ''  '' @ (if pc_Pass c then check_mark else if pc_Required c then cross_mark else ''!'') @ '' '' @
     pad_right 20 (pc_Name c) @ '' '' @ detail (pc_Detail c) @ [CHR 0x0A]"

definition PreflightReport_String :: "(check_detail \<Rightarrow> string) \<Rightarrow> PreflightReport \<Rightarrow> string" where
  "PreflightReport_String detail r = concat (map (check_line detail) r)"

section \<open>Reading the host\<close>

record sysfs =
  file_content :: "string \<Rightarrow> string option"
  proc_entries :: "(string \<times> bool) list option"

definition readFile :: "sysfs \<Rightarrow> string \<Rightarrow> string" where
  "readFile fs path = (case file_content fs path of None \<Rightarrow> [] | Some b \<Rightarrow> b)"

fun last_arg :: "string \<Rightarrow> string list \<Rightarrow> string \<Rightarrow> string" where
  "last_arg prefix [] got = got"
| "last_arg prefix (tok # toks) got =
     last_arg prefix toks (if HasPrefix tok prefix then TrimPrefix tok prefix else got)"

definition extractKernelArg :: "string \<Rightarrow> string \<Rightarrow> string" where
  "extractKernelArg cmdline key = last_arg (key @ ''='') (Fields cmdline) []"

definition stripManagedSuffix :: "string \<Rightarrow> string" where
  "stripManagedSuffix s =
     (let i = Index s CHR '','' in
      if i \<ge> 0 \<and> (HasPrefix s ''managed_irq'' \<or> HasPrefix s ''domain'') then drop (nat i + 1) s else s)"

fun comm_matches :: "sysfs \<Rightarrow> string \<Rightarrow> (string \<times> bool) list \<Rightarrow> bool" where
  "comm_matches fs name [] \<longleftrightarrow> False"
| "comm_matches fs name ((entry, isDir) # es) \<longleftrightarrow>
     (if \<not> isDir then comm_matches fs name es
      else if snd (Atoi entry) \<noteq> None then comm_matches fs name es
      else if TrimSpace (readFile fs (''/proc/'' @ entry @ ''/comm'')) = name then True
      else comm_matches fs name es)"

definition isProcessRunning :: "sysfs \<Rightarrow> string \<Rightarrow> bool" where
  "isProcessRunning fs name =
     (case proc_entries fs of None \<Rightarrow> False | Some es \<Rightarrow> comm_matches fs name es)"

section \<open>The checks\<close>

definition check_kernel_arg ::
  "bool \<Rightarrow> string \<Rightarrow> cpulist \<Rightarrow> string \<Rightarrow> (unit, PreflightCheck) outcome" where
  "check_kernel_arg rt cmdline isolated key =
     (let got = extractKernelArg cmdline key in
      if got = [] then Returns
        \<lparr>pc_Name = key, pc_Required = rt, pc_Description = key @ ''= must be set on kernel cmdline'',
         pc_Pass = False, pc_Detail = NotOnCmdline key isolated\<rparr>
      else case ParseCPUList (stripManagedSuffix got) of
        Hangs \<Rightarrow> Hangs
      | Fails err \<Rightarrow> Returns
        \<lparr>pc_Name = key, pc_Required = False, pc_Description = [], pc_Pass = False,
         pc_Detail = BadArgument got err\<rparr>
      | Returns gotList \<Rightarrow>
          (let missing = CPUList_Difference isolated gotList in
           if CPUList_Len missing > 0 then Returns
             \<lparr>pc_Name = key, pc_Required = (rt \<and> key = ''isolcpus''),
              pc_Description = key @ ''= must cover the isolated pool'', pc_Pass = False,
              pc_Detail = MissingCPUs key gotList missing\<rparr>
           else Returns
             \<lparr>pc_Name = key, pc_Required = False, pc_Description = [], pc_Pass = True,
              pc_Detail = CoversCPUs key gotList isolated\<rparr>))"

fun check_kernel_args ::
  "bool \<Rightarrow> string \<Rightarrow> cpulist \<Rightarrow> string list \<Rightarrow> (unit, PreflightCheck list) outcome" where
  "check_kernel_args rt cmdline isolated [] = Returns []"
| "check_kernel_args rt cmdline isolated (key # keys) =
     and_then (check_kernel_arg rt cmdline isolated key) (\<lambda>c.
     and_then (check_kernel_args rt cmdline isolated keys) (\<lambda>cs. Returns (c # cs)))"

definition page_size_kb :: "string \<Rightarrow> int" where
  "page_size_kb sz = (if sz = ''1G'' then 1024 * 1024 else if sz = ''2M'' then 2048 else 0)"

definition hugepage_path :: "string \<Rightarrow> string" where
  "hugepage_path sz = ''/sys/kernel/mm/hugepages/hugepages-'' @ Itoa (page_size_kb sz) @ ''kB/nr_hugepages''"

definition check_hugepages :: "sysfs \<Rightarrow> HugepagePage \<Rightarrow> PreflightCheck" where
  "check_hugepages fs page =
     (let path = hugepage_path (hp_Size page);
          got = TrimSpace (readFile fs path); gotN = fst (Atoi got) in
      \<lparr>pc_Name = ''hugepages-'' @ hp_Size page, pc_Required = True,
       pc_Description = ''expect '' @ Itoa (hp_Count page) @ '' hugepages of size '' @ hp_Size page,
       pc_Pass = (if got = [] then False else gotN \<ge> hp_Count page),
       pc_Detail = (if got = [] then NoHugepageFile path else PageTotals gotN (hp_Count page))\<rparr>)"

definition governor_path :: "int \<Rightarrow> string" where
  "governor_path cpu = ''/sys/devices/system/cpu/cpu'' @ Itoa cpu @ ''/cpufreq/scaling_governor''"

fun scan_governors :: "sysfs \<Rightarrow> cpulist \<Rightarrow> cpulist \<times> cpulist \<Rightarrow> cpulist \<times> cpulist" where
  "scan_governors fs [] st = st"
| "scan_governors fs (cpu # cpus) (bad, ok) =
     (let gov = TrimSpace (readFile fs (governor_path cpu)) in
      scan_governors fs cpus
        (if gov = [] then (bad, ok) else if gov \<noteq> ''performance'' then (bad @ [cpu], ok)
         else (bad, ok @ [cpu])))"

definition check_governor :: "sysfs \<Rightarrow> cpulist \<Rightarrow> PreflightCheck" where
  "check_governor fs isolated =
     (let (bad, ok) = scan_governors fs isolated ([], []) in
      \<lparr>pc_Name = ''governor'', pc_Required = True,
       pc_Description = ''highPowerConsumption requires performance governor on isolated CPUs'',
       pc_Pass = (length bad = 0),
       pc_Detail = (if length bad > 0 then BadGovernors (length bad) (length bad + length ok) (hd bad)
                    else if length ok = 0 then NoCpufreq else GoodGovernors (length ok))\<rparr>)"

definition check_rt_kernel :: "sysfs \<Rightarrow> PreflightCheck" where
  "check_rt_kernel fs =
     (let uname = TrimSpace (readFile fs ''/proc/sys/kernel/osrelease'') in
      \<lparr>pc_Name = ''realtime-kernel'', pc_Required = True,
       pc_Description = ''spec.realTimeKernel.enabled requires kernel-rt'',
       pc_Pass = (Contains uname ''rt'' \<or> Contains uname ''PREEMPT_RT''), pc_Detail = KernelName uname\<rparr>)"

definition check_irqbalance :: "sysfs \<Rightarrow> PreflightCheck" where
  "check_irqbalance fs =
     (let running = isProcessRunning fs ''irqbalance'' in
      \<lparr>pc_Name = ''irqbalance'', pc_Required = False,
       pc_Description = ''globallyDisableIrqLoadBalancing expects irqbalance stopped (or banned-cpus set)'',
       pc_Pass = (\<not> running), pc_Detail = IrqbalanceRuns running\<rparr>)"

definition Preflight :: "sysfs \<Rightarrow> PerformanceProfile \<Rightarrow> (unit, PreflightReport) outcome" where
  "Preflight fs p =
     and_then (IsolatedCPUs p) (\<lambda>isolated.
     and_then (check_kernel_args (RTEnabled p) (readFile fs ''/proc/cmdline'') isolated
         [''isolcpus'', ''nohz_full'', ''rcu_nocbs'']) (\<lambda>args.
       Returns (args @ map (check_hugepages fs) (Pages (Hugepages (Spec p))) @
         (if HighPowerConsumption (WorkloadHints (Spec p)) = Some True
          then [check_governor fs isolated] else []) @
         (if RTEnabled p then [check_rt_kernel fs] else []) @
         (if IRQLoadBalancingDisabled p then [check_irqbalance fs] else []))))"

text \<open>The other platforms: one optional check that fails, so strict mode passes there.\<close>

definition Preflight_on :: "string \<Rightarrow> sysfs \<Rightarrow> PerformanceProfile \<Rightarrow> (unit, PreflightReport) outcome" where
  "Preflight_on goos fs p =
     (if goos \<noteq> ''linux'' then Returns
        [\<lparr>pc_Name = ''platform'', pc_Required = False, pc_Description = [], pc_Pass = False,
          pc_Detail = LinuxOnly goos\<rparr>]
      else Preflight fs p)"

section \<open>Lemmas\<close>

lemma AllPassed_iff: "AllPassed r \<longleftrightarrow> (\<forall>c \<in> set r. pc_Pass c)"
  by (induction r) auto

text \<open>Plain words separated by spaces are the fields of a string.\<close>

lemma last_arg_none: "\<forall>t \<in> set toks. \<not> HasPrefix t prefix \<Longrightarrow> last_arg prefix toks got = got"
  by (induction toks arbitrary: got) auto

lemma last_arg_last:
  "\<forall>t \<in> set post. \<not> HasPrefix t prefix \<Longrightarrow> last_arg prefix (pre @ (prefix @ val) # post) got = val"
  by (induction pre arbitrary: got) (simp_all add: last_arg_none)

lemma check_kernel_args_nth:
  "check_kernel_args rt cmdline isolated keys = Returns cs \<Longrightarrow> key \<in> set keys \<Longrightarrow>
   \<exists>c \<in> set cs. check_kernel_arg rt cmdline isolated key = Returns c"
  by (induction keys arbitrary: cs) (auto simp: and_then_eq_Returns)

lemma check_kernel_args_names:
  "check_kernel_args rt cmdline isolated keys = Returns cs \<Longrightarrow> map pc_Name cs = keys"
proof (induction keys arbitrary: cs)
  case (Cons key keys)
  have "pc_Name c = key" if "check_kernel_arg rt cmdline isolated key = Returns c" for c
    using that by (auto simp: check_kernel_arg_def Let_def split: outcome.splits if_splits)
  with Cons show ?case by (auto simp: and_then_eq_Returns)
qed simp

lemma check_hugepages_pass:
  "pc_Pass (check_hugepages fs page) \<longleftrightarrow>
   TrimSpace (readFile fs (hugepage_path (hp_Size page))) \<noteq> [] \<and>
   hp_Count page \<le> fst (Atoi (TrimSpace (readFile fs (hugepage_path (hp_Size page)))))"
  by (simp add: check_hugepages_def Let_def)

lemma check_rt_kernel_pass:
  "pc_Pass (check_rt_kernel fs) \<longleftrightarrow>
   Contains (TrimSpace (readFile fs ''/proc/sys/kernel/osrelease'')) ''rt'' \<or>
   Contains (TrimSpace (readFile fs ''/proc/sys/kernel/osrelease'')) ''PREEMPT_RT''"
  by (simp add: check_rt_kernel_def Let_def)

lemma scan_governors_bad:
  "set (fst (scan_governors fs cpus st)) =
     set (fst st) \<union> {c \<in> set cpus. TrimSpace (readFile fs (governor_path c)) \<notin> {[], ''performance''}}"
proof (induction cpus arbitrary: st)
  case (Cons c cpus)
  obtain bad ok where "st = (bad, ok)" by (cases st)
  then show ?case using Cons.IH by (auto simp: Let_def)
qed simp

lemma check_governor_pass:
  "pc_Pass (check_governor fs isolated) \<longleftrightarrow>
   (\<forall>c \<in> set isolated. TrimSpace (readFile fs (governor_path c)) \<in> {[], ''performance''})"
  using scan_governors_bad [of fs isolated "([], [])"]
  by (auto simp: check_governor_def simp flip: set_empty split: prod.splits)

lemma comm_matches_iff:
  "comm_matches fs name es \<longleftrightarrow> (\<exists>entry. (entry, True) \<in> set es \<and> snd (Atoi entry) = None \<and>
     TrimSpace (readFile fs (''/proc/'' @ entry @ ''/comm'')) = name)"
  by (induction fs name es rule: comm_matches.induct) auto

section \<open>Properties\<close>

text \<open>
  The last occurrence of a kernel argument wins: on a command line of words separated by
  blanks, extractKernelArg returns the value of the last key=value word for the key.
\<close>

theorem kernel_arg_last_wins:
  assumes "\<forall>w \<in> set (pre @ (key @ ''='' @ val) # post). w \<noteq> [] \<and> (\<forall>c \<in> set w. plain c)"
    and "\<forall>w \<in> set post. \<not> HasPrefix w (key @ ''='')"
  shows "extractKernelArg (join '' '' (pre @ (key @ ''='' @ val) # post)) key = val"
  using last_arg_last [OF assms(2), of pre val "[]"] Fields_join [OF assms(1)]
  by (simp add: extractKernelArg_def)

theorem kernel_arg_last_wins_witness:
  "extractKernelArg (join '' '' [''isolcpus=1'', ''quiet'', ''isolcpus=2-7'', ''rhgb'']) ''isolcpus'' = ''2-7''"
  using kernel_arg_last_wins [of "[''isolcpus=1'', ''quiet'']" "''isolcpus''" "''2-7''" "[''rhgb'']"]
  by (simp add: plain_def byte_def HasPrefix_def)


definition strict_host :: sysfs where
  "strict_host = \<lparr>file_content = [
     ''/proc/cmdline'' \<mapsto> ''quiet isolcpus=managed_irq,2-7 nohz_full=2-7 rcu_nocbs=2-7'',
     ''/sys/kernel/mm/hugepages/hugepages-1048576kB/nr_hugepages'' \<mapsto> ''16'' @ [CHR 0x0A],
     ''/proc/sys/kernel/osrelease'' \<mapsto> ''5.14.0-427.el9.x86_64+rt''],
   proc_entries = Some [(''1'', True), (''self'', True)]\<rparr>"


text \<open>
  A gap in strict mode: with the two tags domain,managed_irq in front of the CPU list, only
  the first is stripped, the value does not parse, and the failed check is not a required one,
  so a real-time profile passes strict mode although isolcpus was never compared with the pool.
\<close>

theorem preflight_double_tag_gap:
  "returns_with (\<lambda>r. \<not> AllPassed r \<and> RequiredFailures r = [])
     (Preflight (strict_host\<lparr>file_content := (file_content strict_host)
       (''/proc/cmdline'' \<mapsto> ''isolcpus=domain,managed_irq,4-5 nohz_full=2-7 rcu_nocbs=2-7'')\<rparr>) sample_profile)"
  by code_simp

end
