(* ===== verification/RunConfig.thy ===== *)
theory RunConfig
  imports GoStrings
begin

text \<open>
  \<open>pkg/runconfig/runconfig.go\<close>: the launcher's configuration document, its defaults and its
  validation. Durations are nanoseconds, as in \<open>time.Duration\<close>. The YAML decoder and the file
  system are parameters.
\<close>

section \<open>Data\<close>

record SyncTriggerConfig =
  st_InitialOffset :: int
  st_Period :: int

record VictimConfig =
  vc_Mode :: string
  vc_PinningCPUs :: string

record ObserverConfig =
  oc_SampleInterval :: int
  oc_WorkerPIDFilter :: string

record Config =
  rc_RunID :: string
  rc_Duration :: int
  rc_Mode :: string
  rc_Topology :: string
  rc_WorkerGOMAXPROCS :: int
  rc_PerformanceProfile :: string
  rc_TuningBackend :: string
  rc_SyncTrigger :: SyncTriggerConfig
  rc_Victim :: VictimConfig
  rc_Observer :: ObserverConfig

definition second :: int where
  "second = 1000000000"

section \<open>Defaults\<close>

definition trigger_defaults :: "SyncTriggerConfig \<Rightarrow> SyncTriggerConfig" where
  "trigger_defaults t =
     (let t1 = (if st_InitialOffset t \<le> 0 then t\<lparr>st_InitialOffset := 30 * second\<rparr> else t)
      in if st_Period t1 \<le> 0 then t1\<lparr>st_Period := 15 * second\<rparr> else t1)"

text \<open>One definition per \<open>if\<close> of applyDefaults, in order.\<close>

definition default_mode :: "Config \<Rightarrow> Config" where
  "default_mode c = (if rc_Mode c = [] then c\<lparr>rc_Mode := ''drift''\<rparr> else c)"

definition default_duration :: "Config \<Rightarrow> Config" where
  "default_duration c = (if rc_Duration c \<le> 0 then c\<lparr>rc_Duration := 600 * second\<rparr> else c)"

definition default_topology :: "Config \<Rightarrow> Config" where
  "default_topology c = (if rc_Topology c = [] then c\<lparr>rc_Topology := ''sno''\<rparr> else c)"

definition default_victim :: "Config \<Rightarrow> Config" where
  "default_victim c =
     (if vc_Mode (rc_Victim c) = [] then c\<lparr>rc_Victim := (rc_Victim c)\<lparr>vc_Mode := ''hires_jitter''\<rparr>\<rparr> else c)"

definition default_interval :: "Config \<Rightarrow> Config" where
  "default_interval c =
     (if oc_SampleInterval (rc_Observer c) \<le> 0
      then c\<lparr>rc_Observer := (rc_Observer c)\<lparr>oc_SampleInterval := second\<rparr>\<rparr> else c)"

definition default_filter :: "Config \<Rightarrow> Config" where
  "default_filter c =
     (if oc_WorkerPIDFilter (rc_Observer c) = []
      then c\<lparr>rc_Observer := (rc_Observer c)\<lparr>oc_WorkerPIDFilter := ''chaos-worker''\<rparr>\<rparr> else c)"

definition default_trigger :: "Config \<Rightarrow> Config" where
  "default_trigger c =
     (if rc_Mode c = ''sync'' then c\<lparr>rc_SyncTrigger := trigger_defaults (rc_SyncTrigger c)\<rparr> else c)"

definition applyDefaults :: "Config \<Rightarrow> Config" where
  "applyDefaults c =
     default_trigger (default_filter (default_interval (default_victim (default_topology
       (default_duration (default_mode c))))))"

section \<open>Validation\<close>

datatype config_error =
    RunIDRequired | BadMode string | NegativeWorkerGOMAXPROCS | BadVictimMode string | BadBackend string

definition Config_Validate :: "Config \<Rightarrow> config_error option" where
  "Config_Validate c =
     (if rc_RunID c = [] then Some RunIDRequired
      else if rc_Mode c \<noteq> ''drift'' \<and> rc_Mode c \<noteq> ''sync'' then Some (BadMode (rc_Mode c))
      else if rc_WorkerGOMAXPROCS c < 0 then Some NegativeWorkerGOMAXPROCS
      else if vc_Mode (rc_Victim c) \<noteq> ''hires_jitter'' \<and> vc_Mode (rc_Victim c) \<noteq> ''http_rtt''
      then Some (BadVictimMode (vc_Mode (rc_Victim c)))
      else if rc_TuningBackend c = [] \<or> rc_TuningBackend c = ''systemd-run'' \<or>
              rc_TuningBackend c = ''cgroup-v2'' \<or> rc_TuningBackend c = ''taskset'' then None
      else Some (BadBackend (rc_TuningBackend c)))"

datatype 'e config_load_error = ConfigReadErr 'e | ConfigParseErr 'e | ConfigInvalid config_error

definition Config_LoadFile ::
  "(string \<Rightarrow> 'e + string) \<Rightarrow> (string \<Rightarrow> 'e + Config) \<Rightarrow> string \<Rightarrow> ('e config_load_error, Config) outcome" where
  "Config_LoadFile readfile unmarshal path =
     (case readfile path of
        Inl e \<Rightarrow> Fails (ConfigReadErr e)
      | Inr b \<Rightarrow>
         (case unmarshal b of
            Inl e \<Rightarrow> Fails (ConfigParseErr e)
          | Inr c \<Rightarrow>
             (case Config_Validate (applyDefaults c) of
                Some e \<Rightarrow> Fails (ConfigInvalid e)
              | None \<Rightarrow> Returns (applyDefaults c))))"

section \<open>What a loaded configuration satisfies\<close>

definition runnable :: "Config \<Rightarrow> bool" where
  "runnable c \<longleftrightarrow>
     rc_RunID c \<noteq> [] \<and> rc_Duration c > 0 \<and> (rc_Mode c = ''drift'' \<or> rc_Mode c = ''sync'') \<and>
     rc_Topology c \<noteq> [] \<and> rc_WorkerGOMAXPROCS c \<ge> 0 \<and>
     (vc_Mode (rc_Victim c) = ''hires_jitter'' \<or> vc_Mode (rc_Victim c) = ''http_rtt'') \<and>
     rc_TuningBackend c \<in> {[], ''systemd-run'', ''cgroup-v2'', ''taskset''} \<and>
     oc_SampleInterval (rc_Observer c) > 0 \<and> oc_WorkerPIDFilter (rc_Observer c) \<noteq> [] \<and>
     (rc_Mode c = ''sync'' \<longrightarrow> st_InitialOffset (rc_SyncTrigger c) > 0 \<and> st_Period (rc_SyncTrigger c) > 0)"

lemma trigger_defaults_pos:
  "st_InitialOffset (trigger_defaults t) > 0" "st_Period (trigger_defaults t) > 0"
  by (auto simp: trigger_defaults_def second_def Let_def)

lemma trigger_defaults_id:
  "st_InitialOffset t > 0 \<Longrightarrow> st_Period t > 0 \<Longrightarrow> trigger_defaults t = t"
  by (simp add: trigger_defaults_def)

text \<open>Each step as an unconditional update, then all of them field by field.\<close>

lemma default_updates:
  "default_mode c = c\<lparr>rc_Mode := if rc_Mode c = [] then ''drift'' else rc_Mode c\<rparr>"
  "default_duration c = c\<lparr>rc_Duration := if rc_Duration c \<le> 0 then 600 * second else rc_Duration c\<rparr>"
  "default_topology c = c\<lparr>rc_Topology := if rc_Topology c = [] then ''sno'' else rc_Topology c\<rparr>"
  "default_victim c = c\<lparr>rc_Victim := (rc_Victim c)\<lparr>vc_Mode :=
     if vc_Mode (rc_Victim c) = [] then ''hires_jitter'' else vc_Mode (rc_Victim c)\<rparr>\<rparr>"
  "default_interval c = c\<lparr>rc_Observer := (rc_Observer c)\<lparr>oc_SampleInterval :=
     if oc_SampleInterval (rc_Observer c) \<le> 0 then second else oc_SampleInterval (rc_Observer c)\<rparr>\<rparr>"
  "default_filter c = c\<lparr>rc_Observer := (rc_Observer c)\<lparr>oc_WorkerPIDFilter :=
     if oc_WorkerPIDFilter (rc_Observer c) = [] then ''chaos-worker'' else oc_WorkerPIDFilter (rc_Observer c)\<rparr>\<rparr>"
  "default_trigger c = c\<lparr>rc_SyncTrigger :=
     if rc_Mode c = ''sync'' then trigger_defaults (rc_SyncTrigger c) else rc_SyncTrigger c\<rparr>"
  by (simp_all add: default_mode_def default_duration_def default_topology_def default_victim_def
      default_interval_def default_filter_def default_trigger_def)

lemma applyDefaults_fields:
  "rc_RunID (applyDefaults c) = rc_RunID c"
  "rc_Duration (applyDefaults c) = (if rc_Duration c \<le> 0 then 600 * second else rc_Duration c)"
  "rc_Mode (applyDefaults c) = (if rc_Mode c = [] then ''drift'' else rc_Mode c)"
  "rc_Topology (applyDefaults c) = (if rc_Topology c = [] then ''sno'' else rc_Topology c)"
  "rc_WorkerGOMAXPROCS (applyDefaults c) = rc_WorkerGOMAXPROCS c"
  "rc_PerformanceProfile (applyDefaults c) = rc_PerformanceProfile c"
  "rc_TuningBackend (applyDefaults c) = rc_TuningBackend c"
  "rc_SyncTrigger (applyDefaults c) =
     (if rc_Mode c = ''sync'' then trigger_defaults (rc_SyncTrigger c) else rc_SyncTrigger c)"
  "vc_Mode (rc_Victim (applyDefaults c)) =
     (if vc_Mode (rc_Victim c) = [] then ''hires_jitter'' else vc_Mode (rc_Victim c))"
  "oc_SampleInterval (rc_Observer (applyDefaults c)) =
     (if oc_SampleInterval (rc_Observer c) \<le> 0 then second else oc_SampleInterval (rc_Observer c))"
  "oc_WorkerPIDFilter (rc_Observer (applyDefaults c)) =
     (if oc_WorkerPIDFilter (rc_Observer c) = [] then ''chaos-worker'' else oc_WorkerPIDFilter (rc_Observer c))"
  by (simp_all add: applyDefaults_def default_updates)

lemma applyDefaults_runnable_id:
  assumes "runnable c" shows "applyDefaults c = c"
proof -
  have "rc_Mode c \<noteq> []" using assms by (auto simp: runnable_def)
  moreover have "vc_Mode (rc_Victim c) \<noteq> []" using assms by (auto simp: runnable_def)
  ultimately show ?thesis
    using assms
    by (simp add: applyDefaults_def default_mode_def default_duration_def default_topology_def
        default_victim_def default_interval_def default_filter_def default_trigger_def runnable_def
        trigger_defaults_id)
qed

lemma Validate_defaults_runnable: "Config_Validate (applyDefaults c) = None \<Longrightarrow> runnable (applyDefaults c)"
  by (auto simp: Config_Validate_def runnable_def applyDefaults_fields second_def trigger_defaults_pos
      split: if_splits)

lemma runnable_Validate: "runnable c \<Longrightarrow> Config_Validate c = None"
  by (auto simp: Config_Validate_def runnable_def)

section \<open>Properties\<close>

text \<open>
  C40. A configuration that LoadFile returns can be run: it has a run id, positive durations and
  sampling interval, known modes and back end, and in sync mode positive trigger times; loading it
  again through the defaults changes nothing.
\<close>

theorem config_load_runnable:
  assumes "Config_LoadFile readfile unmarshal path = Returns c"
  shows "runnable c \<and> applyDefaults c = c \<and> Config_Validate c = None"
proof -
  have "runnable c"
    using assms Validate_defaults_runnable
    by (auto simp: Config_LoadFile_def split: sum.splits option.splits)
  then show ?thesis using applyDefaults_runnable_id runnable_Validate by simp
qed

definition sample_config :: Config where
  "sample_config = \<lparr>rc_RunID = ''r1'', rc_Duration = 0, rc_Mode = ''sync'', rc_Topology = [],
     rc_WorkerGOMAXPROCS = 2, rc_PerformanceProfile = [], rc_TuningBackend = ''taskset'',
     rc_SyncTrigger = \<lparr>st_InitialOffset = 0, st_Period = 5\<rparr>,
     rc_Victim = \<lparr>vc_Mode = [], vc_PinningCPUs = []\<rparr>,
     rc_Observer = \<lparr>oc_SampleInterval = -1, oc_WorkerPIDFilter = []\<rparr>\<rparr>"

theorem config_load_runnable_witness:
  "runnable (applyDefaults sample_config) \<and> rc_Duration (applyDefaults sample_config) = 600 * second"
proof -
  have "Config_LoadFile (\<lambda>_. Inr []) (\<lambda>_. (Inr sample_config :: unit + Config)) [] = Returns (applyDefaults sample_config)"
    by code_simp
  from config_load_runnable [OF this] show ?thesis
    by (simp add: applyDefaults_fields sample_config_def)
qed

text \<open>
  Defaults never reject or repair more than they name: the run id, the back end and the worker
  GOMAXPROCS pass through untouched, so LoadFile accepts exactly the documents whose defaulted
  form is runnable.
\<close>

theorem config_accepts_exactly:
  "Config_Validate (applyDefaults c) = None \<longleftrightarrow>
     rc_RunID c \<noteq> [] \<and> rc_Mode c \<in> {[], ''drift'', ''sync''} \<and> rc_WorkerGOMAXPROCS c \<ge> 0 \<and>
     vc_Mode (rc_Victim c) \<in> {[], ''hires_jitter'', ''http_rtt''} \<and>
     rc_TuningBackend c \<in> {[], ''systemd-run'', ''cgroup-v2'', ''taskset''}"
  by (auto simp: Config_Validate_def applyDefaults_fields split: if_splits)

end
