(* ===== verification/ProcTree.thy ===== *)
theory ProcTree
  imports GoStrings
begin

text \<open>
  The launcher's view of the process tree, \<open>cmd/chaos-launcher/main.go\<close>: reading \<open>/proc\<close> into a
  table, and the breadth-first search for the inner process behind a wrapper. The file system is a
  parameter; the order of each range over the table, a Go map, is a parameter as well.
\<close>

section \<open>String helpers\<close>

fun last_index_at :: "string \<Rightarrow> string \<Rightarrow> nat \<Rightarrow> int" where
  "last_index_at s sub 0 = (if take (length sub) s = sub then 0 else -1)"
| "last_index_at s sub (Suc i) =
     (if take (length sub) (drop (Suc i) s) = sub then int (Suc i) else last_index_at s sub i)"

definition lastIndex :: "string \<Rightarrow> string \<Rightarrow> int" where
  "lastIndex s sub = (if length s < length sub then -1 else last_index_at s sub (length s - length sub))"

text \<open>\<open>string(c)\<close> of a byte: the UTF-8 encoding of that code point.\<close>

definition byte_string :: "char \<Rightarrow> string" where
  "byte_string c =
     (if byte c < 128 then [c]
      else [char_of (192 + byte c div 64), char_of (128 + byte c mod 64)])"

fun split_loop :: "string \<Rightarrow> string \<Rightarrow> string list" where
  "split_loop cur [] = (if cur \<noteq> [] then [cur] else [])"
| "split_loop cur (c # s) =
     (if c = CHR '' '' \<or> c = CHR 0x09 \<or> c = CHR 0x0A
      then (if cur \<noteq> [] then cur # split_loop [] s else split_loop [] s)
      else split_loop (cur @ byte_string c) s)"

definition splitFields :: "string \<Rightarrow> string list" where
  "splitFields s = split_loop [] s"

definition trimNL :: "string \<Rightarrow> string" where
  "trimNL s = rev (dropWhile (\<lambda>c. c = CHR 0x0A \<or> c = CHR 0x0D) (rev s))"

definition hasPrefix :: "string \<Rightarrow> string \<Rightarrow> bool" where
  "hasPrefix s p \<longleftrightarrow> (if length s < length p then False else take (length p) s = p)"

section \<open>The process table\<close>

record proc_info =
  pi_ppid :: int
  pi_comm :: string

type_synonym proc_table = "(int \<times> proc_info) list"

record proc_fs =
  dir_entries :: "(string \<times> bool) list option"
  proc_file :: "string \<Rightarrow> string option"

text \<open>The parent of a process from the text of its stat file; the name may contain anything.\<close>

definition stat_ppid :: "string \<Rightarrow> int option" where
  "stat_ppid s =
     (let i = lastIndex s '')'' in
      if i > 0 \<and> i + 1 < int (length s) then
        (let toks = splitFields (drop (nat i + 1) s) in
         if length toks \<ge> 2 then Some (fst (Atoi (toks ! 1))) else None)
      else None)"

definition table_entry :: "proc_fs \<Rightarrow> string \<times> bool \<Rightarrow> (int \<times> proc_info) option" where
  "table_entry fs e =
     (if \<not> snd e then None
      else case Atoi (fst e) of
        (_, Some _) \<Rightarrow> None
      | (pid, None) \<Rightarrow>
          (case (proc_file fs (''/proc/'' @ fst e @ ''/comm''), proc_file fs (''/proc/'' @ fst e @ ''/stat'')) of
             (Some comm, Some stat) \<Rightarrow>
               map_option (\<lambda>ppid. (pid, \<lparr>pi_ppid = ppid, pi_comm = trimNL comm\<rparr>)) (stat_ppid stat)
           | _ \<Rightarrow> None))"

text \<open>Later entries for a process id overwrite earlier ones, as assignments to a map do.\<close>

definition read_table :: "proc_fs \<Rightarrow> (string \<times> bool) list \<Rightarrow> proc_table" where
  "read_table fs es = rev (List.map_filter (table_entry fs) es)"

section \<open>Breadth-first search\<close>

type_synonym pid_order = "nat \<Rightarrow> int list \<Rightarrow> int list"

definition fair_pids :: "pid_order \<Rightarrow> bool" where
  "fair_pids ord \<longleftrightarrow> (\<forall>k ps. set (ord k ps) = set ps)"

definition table_pids :: "proc_table \<Rightarrow> int list" where
  "table_pids procs = remdups (map fst procs)"

text \<open>The range over the table for one parent: the first chaos process, or the other children.\<close>

fun scan_children :: "proc_table \<Rightarrow> int \<Rightarrow> int list \<Rightarrow> int list \<Rightarrow> int + int list" where
  "scan_children procs p [] acc = Inr acc"
| "scan_children procs p (pid # pids) acc =
     (case map_of procs pid of
        None \<Rightarrow> scan_children procs p pids acc
      | Some pinfo \<Rightarrow>
          if pi_ppid pinfo \<noteq> p then scan_children procs p pids acc
          else if hasPrefix (pi_comm pinfo) ''chaos-'' then Inl pid
          else scan_children procs p pids (acc @ [pid]))"

fun scan_level :: "pid_order \<Rightarrow> nat \<Rightarrow> proc_table \<Rightarrow> int list \<Rightarrow> int list \<Rightarrow> int + int list" where
  "scan_level ord k procs [] acc = Inr acc"
| "scan_level ord k procs (p # visit) acc =
     (case scan_children procs p (ord k (table_pids procs)) acc of
        Inl pid \<Rightarrow> Inl pid
      | Inr acc' \<Rightarrow> scan_level ord (Suc k) procs visit acc')"

text \<open>The outer loop has no visited set; on a cyclic table it need not end.\<close>

partial_function (option) bfs :: "pid_order \<Rightarrow> nat \<Rightarrow> proc_table \<Rightarrow> int \<Rightarrow> int list \<Rightarrow> int option" where
  "bfs ord k procs parent visit =
     (if visit = [] then Some parent
      else case scan_level ord k procs visit [] of
        Inl pid \<Rightarrow> Some pid
      | Inr rest \<Rightarrow> bfs ord (k + length visit) procs parent rest)"

declare bfs.simps [code]

definition findInnerChaosPID :: "proc_fs \<Rightarrow> pid_order \<Rightarrow> int \<Rightarrow> int option" where
  "findInnerChaosPID fs ord parent =
     (case dir_entries fs of
        None \<Rightarrow> Some parent
      | Some es \<Rightarrow> bfs ord 0 (read_table fs es) parent [parent])"

fun resolveInnerPIDs :: "proc_fs \<Rightarrow> pid_order \<Rightarrow> (string \<times> int) list \<Rightarrow> (string \<times> int) list option" where
  "resolveInnerPIDs fs ord [] = Some []"
| "resolveInnerPIDs fs ord ((key, parent) # pids) =
     (case findInnerChaosPID fs ord parent of
        None \<Rightarrow> None
      | Some pid \<Rightarrow> map_option (Cons (key, pid)) (resolveInnerPIDs fs ord pids))"

section \<open>Reading a stat line\<close>

lemma last_index_at_skip:
  "(\<And>j. i < j \<Longrightarrow> j \<le> n \<Longrightarrow> take (length sub) (drop j s) \<noteq> sub) \<Longrightarrow> i \<le> n \<Longrightarrow>
   last_index_at s sub n = last_index_at s sub i"
proof (induction n)
  case (Suc n)
  show ?case
  proof (cases "i = Suc n")
    case False
    with Suc.prems have "last_index_at s sub (Suc n) = last_index_at s sub n" by simp
    with Suc False show ?thesis by simp
  qed simp
qed simp

lemma lastIndex_last:
  assumes "c \<notin> set t" shows "lastIndex (s @ c # t) [c] = int (length s)"
proof -
  have "last_index_at (s @ c # t) [c] (length s + length t) = last_index_at (s @ c # t) [c] (length s)"
  proof (rule last_index_at_skip)
    fix j assume j: "length s < j" "j \<le> length s + length t"
    then have "drop j (s @ c # t) = drop (j - length s - 1) t" by (simp add: drop_Cons')
    moreover have "take 1 (drop (j - length s - 1) t) \<noteq> [c]"
    proof
      assume "take 1 (drop (j - length s - 1) t) = [c]"
      then have "c \<in> set (take 1 (drop (j - length s - 1) t))" by simp
      then show False using assms in_set_takeD in_set_dropD by metis
    qed
    ultimately show "take (length [c]) (drop j (s @ c # t)) \<noteq> [c]" by simp
  qed simp
  then show ?thesis by (cases "length s") (simp_all add: lastIndex_def)
qed

definition field_char :: "char \<Rightarrow> bool" where
  "field_char c \<longleftrightarrow> byte c < 128 \<and> c \<noteq> CHR '' '' \<and> c \<noteq> CHR 0x09 \<and> c \<noteq> CHR 0x0A"

lemma split_loop_field:
  "\<forall>c \<in> set w. field_char c \<Longrightarrow> cur @ w \<noteq> [] \<Longrightarrow>
   split_loop cur (w @ CHR '' '' # s) = (cur @ w) # split_loop [] s"
  by (induction w arbitrary: cur) (simp_all add: field_char_def byte_string_def)

lemma stat_ppid_split:
  assumes "CHR '')'' \<notin> set t" "s \<noteq> []" "t \<noteq> []"
  shows "stat_ppid (s @ CHR '')'' # t) =
    (if length (splitFields t) \<ge> 2 then Some (fst (Atoi (splitFields t ! 1))) else None)"
  using assms by (simp add: stat_ppid_def lastIndex_last)

lemma stat_ppid_line:
  assumes "\<forall>c \<in> set st. field_char c" "st \<noteq> []" "CHR '')'' \<notin> set st" "CHR '')'' \<notin> set rest"
    and "min_int \<le> ppid" "ppid \<le> max_int"
  shows "stat_ppid (Itoa pid @ '' ('' @ comm @ '') '' @ st @ '' '' @ Itoa ppid @ '' '' @ rest) = Some ppid"
proof -
  let ?pre = "Itoa pid @ '' ('' @ comm" and ?post = "'' '' @ st @ '' '' @ Itoa ppid @ '' '' @ rest"
  have chars: "\<forall>c \<in> set (Itoa ppid). field_char c \<and> c \<noteq> CHR '')''"
  proof
    fix c assume "c \<in> set (Itoa ppid)"
    then have "c = CHR ''-'' \<or> 48 \<le> byte c \<and> byte c \<le> 57" by (rule Itoa_chars)
    then show "field_char c \<and> c \<noteq> CHR '')''"
      by (cases "c = CHR ''-''") (auto simp: field_char_def byte_def)
  qed
  then have no_paren: "CHR '')'' \<notin> set ?post" using assms(3,4) by auto
  have "splitFields ?post = st # Itoa ppid # split_loop [] rest"
    using split_loop_field [of st "[]"] split_loop_field [of "Itoa ppid" "[]"] assms(1,2) chars
    by (simp add: splitFields_def)
  then have "stat_ppid (?pre @ CHR '')'' # ?post) = Some ppid"
    using stat_ppid_split [OF no_paren, of ?pre] Atoi_Itoa [of ppid] assms(5,6) by simp
  then show ?thesis by simp
qed

section \<open>What the search finds\<close>

definition children :: "proc_table \<Rightarrow> (int \<times> int) set" where
  "children procs = {(p, q). \<exists>i. map_of procs q = Some i \<and> pi_ppid i = p}"

definition is_chaos :: "proc_table \<Rightarrow> int \<Rightarrow> bool" where
  "is_chaos procs q \<longleftrightarrow> (\<exists>i. map_of procs q = Some i \<and> hasPrefix (pi_comm i) ''chaos-'')"

text \<open>The chaos processes strictly below one of the given processes.\<close>

definition inner :: "proc_table \<Rightarrow> int set \<Rightarrow> int set" where
  "inner procs V = {q. is_chaos procs q \<and> (\<exists>v \<in> V. (v, q) \<in> (children procs)\<^sup>+)}"

lemma set_table_pids: "set (table_pids procs) = dom (map_of procs)"
  by (simp add: table_pids_def dom_map_of_conv_image_fst)

lemma scan_children_Inl:
  "scan_children procs p pids acc = Inl q \<Longrightarrow> (p, q) \<in> children procs \<and> is_chaos procs q"
  by (induction pids arbitrary: acc) (auto simp: children_def is_chaos_def split: option.splits if_splits)

lemma scan_children_Inr:
  "scan_children procs p pids acc = Inr out \<Longrightarrow>
   set out = set acc \<union> {q \<in> set pids. (p, q) \<in> children procs} \<and>
   (\<forall>q \<in> set pids. (p, q) \<in> children procs \<longrightarrow> \<not> is_chaos procs q)"
  by (induction pids arbitrary: acc) (auto simp: children_def is_chaos_def split: option.splits if_splits)

lemma scan_level_Inl:
  "scan_level ord k procs visit acc = Inl q \<Longrightarrow> \<exists>p \<in> set visit. (p, q) \<in> children procs \<and> is_chaos procs q"
  by (induction visit arbitrary: k acc) (auto dest: scan_children_Inl split: sum.splits)

lemma scan_level_Inr:
  assumes "fair_pids ord" "scan_level ord k procs visit acc = Inr out"
  shows "set out = set acc \<union> {q. \<exists>p \<in> set visit. (p, q) \<in> children procs} \<and>
    (\<forall>p \<in> set visit. \<forall>q. (p, q) \<in> children procs \<longrightarrow> \<not> is_chaos procs q)"
  using assms(2)
proof (induction visit arbitrary: k acc)
  case (Cons p visit)
  obtain acc1 where acc1: "scan_children procs p (ord k (table_pids procs)) acc = Inr acc1"
    "scan_level ord (Suc k) procs visit acc1 = Inr out"
    using Cons.prems by (auto split: sum.splits)
  have "set (ord k (table_pids procs)) = dom (map_of procs)"
    using assms(1) by (simp add: fair_pids_def set_table_pids)
  moreover have "(p, q) \<in> children procs \<Longrightarrow> q \<in> dom (map_of procs)" for q
    by (auto simp: children_def)
  ultimately show ?case
    using scan_children_Inr [OF acc1(1)] Cons.IH [OF acc1(2)] by auto
qed simp

lemma inner_next:
  assumes "\<forall>p \<in> V. \<forall>q. (p, q) \<in> children procs \<longrightarrow> \<not> is_chaos procs q"
  shows "inner procs V = inner procs {q. \<exists>p \<in> V. (p, q) \<in> children procs}"
proof -
  have "q \<in> inner procs V \<longleftrightarrow> q \<in> inner procs {q. \<exists>p \<in> V. (p, q) \<in> children procs}" for q
  proof
    assume "q \<in> inner procs V"
    then obtain v where v: "v \<in> V" "(v, q) \<in> (children procs)\<^sup>+" "is_chaos procs q" by (auto simp: inner_def)
    from v(2) obtain w where "(v, w) \<in> children procs" "(w, q) \<in> (children procs)\<^sup>*"
      by (meson tranclD)
    with v assms show "q \<in> inner procs {q. \<exists>p \<in> V. (p, q) \<in> children procs}"
      by (auto simp: inner_def rtrancl_eq_or_trancl)
  next
    assume "q \<in> inner procs {q. \<exists>p \<in> V. (p, q) \<in> children procs}"
    then show "q \<in> inner procs V" by (auto simp: inner_def intro: trancl_into_trancl2)
  qed
  then show ?thesis by blast
qed

text \<open>
  A table is a forest if every process is ranked above its parent, as process trees are; the rank
  bounds the number of levels.
\<close>

definition forest_rank :: "proc_table \<Rightarrow> (int \<Rightarrow> nat) \<Rightarrow> nat \<Rightarrow> bool" where
  "forest_rank procs rank bound \<longleftrightarrow>
     (\<forall>(p, q) \<in> children procs. rank p < rank q \<and> rank q \<le> bound)"

lemma bfs_correct:
  assumes "fair_pids ord" "forest_rank procs rank bound"
    and "\<forall>v \<in> set visit. bound < rank v + d"
  shows "\<exists>r. bfs ord k procs parent visit = Some r \<and>
    (if inner procs (set visit) = {} then r = parent else r \<in> inner procs (set visit))"
  using assms(3)
proof (induction d arbitrary: k visit)
  case 0
  have "scan_level ord k procs visit acc = Inr acc" for acc k
    using 0
  proof (induction visit arbitrary: k)
    case (Cons p visit)
    then have none: "(p, q) \<notin> children procs" for q using assms(2) by (fastforce simp: forest_rank_def)
    have "scan_children procs p pids acc = Inr acc" for pids
      using none by (induction pids) (auto simp: children_def split: option.splits)
    with Cons show ?case by simp
  qed simp
  moreover have "inner procs (set visit) = {}"
  proof -
    have "(v, q) \<notin> children procs" if "v \<in> set visit" for v q
      using that 0 assms(2) by (fastforce simp: forest_rank_def)
    then have "\<nexists>v q. v \<in> set visit \<and> (v, q) \<in> (children procs)\<^sup>+" by (meson tranclD)
    then show ?thesis by (auto simp: inner_def)
  qed
  ultimately show ?case by (simp add: bfs.simps [of ord k] bfs.simps [of _ _ _ _ "[]"])
next
  case (Suc d)
  show ?case
  proof (cases "visit = []")
    case True
    then show ?thesis by (simp add: bfs.simps inner_def)
  next
    case False
    show ?thesis
    proof (cases "scan_level ord k procs visit []")
      case (Inl q)
      from scan_level_Inl [OF Inl] have "q \<in> inner procs (set visit)" by (auto simp: inner_def)
      then show ?thesis using False Inl by (auto simp: bfs.simps [of ord k])
    next
      case (Inr out)
      note level = scan_level_Inr [OF assms(1) Inr]
      have "\<forall>v \<in> set out. bound < rank v + d"
        using level Suc.prems assms(2) by (fastforce simp: forest_rank_def)
      note found = Suc.IH [OF this, of "k + length visit"]
      have "set out = {q. \<exists>p \<in> set visit. (p, q) \<in> children procs}" using level by simp
      then have "inner procs (set visit) = inner procs (set out)"
        using level inner_next [of "set visit" procs] by simp
      moreover have "bfs ord k procs parent visit = bfs ord (k + length visit) procs parent out"
        using False Inr by (simp add: bfs.simps [of ord k])
      ultimately show ?thesis using found by (simp only:)
    qed
  qed
qed

section \<open>Properties\<close>

text \<open>
  C15. Behind a wrapper the search finds the right process: on a process table that is a forest,
  it returns, whatever order the runtime ranges in, and its result is a chaos process below the
  given one if there is any, and the given process itself otherwise.
\<close>

theorem find_inner_correct:
  assumes "fair_pids ord" "dir_entries fs = Some es" "forest_rank (read_table fs es) rank bound"
  shows "\<exists>r. findInnerChaosPID fs ord parent = Some r \<and>
    (if inner (read_table fs es) {parent} = {} then r = parent
     else r \<in> inner (read_table fs es) {parent})"
proof -
  have "\<forall>v \<in> set [parent]. bound < rank v + (bound + 1)" by simp
  from bfs_correct [OF assms(1,3) this, of 0 parent]
  have "\<exists>r. bfs ord 0 (read_table fs es) parent [parent] = Some r \<and>
    (if inner (read_table fs es) {parent} = {} then r = parent
     else r \<in> inner (read_table fs es) {parent})" by (simp only: list.set)
  then show ?thesis by (simp only: findInnerChaosPID_def assms(2) option.case)
qed

definition sample_proc :: proc_fs where
  "sample_proc = \<lparr>dir_entries = Some [(''1'', True), (''7'', True), (''9'', True), (''self'', True)],
     proc_file = [''/proc/1/comm'' \<mapsto> ''systemd'', ''/proc/1/stat'' \<mapsto> ''1 (systemd) S 0 1 1'',
       ''/proc/7/comm'' \<mapsto> ''sh'', ''/proc/7/stat'' \<mapsto> ''7 (sh) S 1 7 7'',
       ''/proc/9/comm'' \<mapsto> ''chaos-worker'' @ [CHR 0x0A], ''/proc/9/stat'' \<mapsto> ''9 (a) b) S 7 9 9'']\<rparr>"

theorem find_inner_correct_witness:
  "\<exists>r. findInnerChaosPID sample_proc (\<lambda>k ps. rev ps) 7 = Some r \<and>
    r \<in> inner (read_table sample_proc (the (dir_entries sample_proc))) {7}"
proof -
  let ?t = "read_table sample_proc (the (dir_entries sample_proc))"
  have t: "?t = [(9, \<lparr>pi_ppid = 7, pi_comm = ''chaos-worker''\<rparr>), (7, \<lparr>pi_ppid = 1, pi_comm = ''sh''\<rparr>),
      (1, \<lparr>pi_ppid = 0, pi_comm = ''systemd''\<rparr>)]" by code_simp
  have "forest_rank ?t nat 9"
    by (auto simp: forest_rank_def children_def t split: if_splits)
  moreover have "(7, 9) \<in> children ?t" "is_chaos ?t 9"
    by (simp_all add: t children_def is_chaos_def hasPrefix_def)
  then have "inner ?t {7} \<noteq> {}" by (auto simp: inner_def)
  moreover have "fair_pids (\<lambda>k ps. rev ps)" by (simp add: fair_pids_def)
  moreover have "dir_entries sample_proc = Some (the (dir_entries sample_proc))"
    by (simp add: sample_proc_def)
  ultimately show ?thesis using find_inner_correct [of "\<lambda>k ps. rev ps" sample_proc _ nat 9 7] by metis
qed

end
