(* ===== verification/Terminate.thy ===== *)
theory Terminate
  imports Main
begin

text \<open>
  \<open>startProc\<close> and \<open>terminate\<close> of \<open>cmd/chaos-launcher/main.go\<close>: one goroutine per child waits for
  the child's exit or for the grace deadline. All of them select on the same channel of
  \<open>time.After\<close>, which delivers one value; the first goroutine to receive it is the only one.
  The goroutines, the children and the timer are one labelled-free step relation.
\<close>

section \<open>The machine\<close>

datatype wait_state = Waiting | Killing | Finished

datatype tick = NotYet | Ready | Taken

text \<open>
  \<open>exited i\<close>: the channel \<open>done\<close> of child \<open>i\<close> is closed; \<open>killed i\<close>: it was sent SIGKILL;
  \<open>started i\<close>: its command has a process.
\<close>

record Term =
  waits :: "nat \<Rightarrow> wait_state"
  exited :: "nat \<Rightarrow> bool"
  killed :: "nat \<Rightarrow> bool"
  started :: "nat \<Rightarrow> bool"
  deadline :: tick

text \<open>A child whose start failed has its channel closed by startProc.\<close>

definition start_term :: "(nat \<Rightarrow> bool) \<Rightarrow> Term" where
  "start_term ok = \<lparr>waits = (\<lambda>i. Waiting), exited = (\<lambda>i. \<not> ok i), killed = (\<lambda>i. False),
     started = ok, deadline = NotYet\<rparr>"

text \<open>
  \<open>obeys i\<close>: the child exits on SIGTERM, sooner or later, or the cancelled root context has killed
  it (as it has on the paths that cancel before they terminate; the end of the duration does not).
  \<open>n\<close> is the number of children.
\<close>

inductive term_step :: "nat \<Rightarrow> (nat \<Rightarrow> bool) \<Rightarrow> Term \<Rightarrow> Term \<Rightarrow> bool" for n obeys where
  child_exits: "i < n \<Longrightarrow> \<not> exited s i \<Longrightarrow> obeys i \<or> killed s i \<Longrightarrow>
    term_step n obeys s (s\<lparr>exited := (exited s)(i := True)\<rparr>)"
| timer_fires: "deadline s = NotYet \<Longrightarrow> term_step n obeys s (s\<lparr>deadline := Ready\<rparr>)"
| sees_done: "i < n \<Longrightarrow> waits s i = Waiting \<Longrightarrow> exited s i \<Longrightarrow>
    term_step n obeys s (s\<lparr>waits := (waits s)(i := Finished)\<rparr>)"
| sees_deadline: "i < n \<Longrightarrow> waits s i = Waiting \<Longrightarrow> deadline s = Ready \<Longrightarrow>
    term_step n obeys s (s\<lparr>waits := (waits s)(i := Killing), deadline := Taken,
      killed := (if started s i then (killed s)(i := True) else killed s)\<rparr>)"
| kill_done: "i < n \<Longrightarrow> waits s i = Killing \<Longrightarrow> exited s i \<Longrightarrow>
    term_step n obeys s (s\<lparr>waits := (waits s)(i := Finished)\<rparr>)"

inductive_cases term_stepE: "term_step n obeys s s'"

abbreviation term_steps :: "nat \<Rightarrow> (nat \<Rightarrow> bool) \<Rightarrow> Term \<Rightarrow> Term \<Rightarrow> bool" where
  "term_steps n obeys \<equiv> (term_step n obeys)\<^sup>*\<^sup>*"

text \<open>\<open>wg.Wait()\<close> returns when every goroutine is done.\<close>

definition all_finished :: "nat \<Rightarrow> Term \<Rightarrow> bool" where
  "all_finished n s \<longleftrightarrow> (\<forall>i < n. waits s i = Finished)"

section \<open>Invariant\<close>

text \<open>
  Only the receiver of the single tick kills; a finished goroutine's child has exited; a child
  exits on its own, by obeying, or by being killed.
\<close>

definition term_inv :: "(nat \<Rightarrow> bool) \<Rightarrow> (nat \<Rightarrow> bool) \<Rightarrow> Term \<Rightarrow> bool" where
  "term_inv ok obeys s \<longleftrightarrow>
     (\<forall>i j. killed s i \<longrightarrow> killed s j \<longrightarrow> i = j) \<and>
     (\<forall>i. killed s i \<longrightarrow> deadline s = Taken) \<and>
     (\<forall>i. waits s i = Finished \<longrightarrow> exited s i) \<and>
     (\<forall>i. exited s i \<longrightarrow> \<not> ok i \<or> obeys i \<or> killed s i)"

lemma term_inv_start: "term_inv ok obeys (start_term ok)"
  by (simp add: term_inv_def start_term_def)

lemma term_inv_step: "term_step n obeys s s' \<Longrightarrow> term_inv ok obeys s \<Longrightarrow> term_inv ok obeys s'"
  by (erule term_stepE) (auto simp: term_inv_def)

lemma term_inv_steps: "term_steps n obeys s s' \<Longrightarrow> term_inv ok obeys s \<Longrightarrow> term_inv ok obeys s'"
  by (induction rule: rtranclp_induct) (auto intro: term_inv_step)

section \<open>Progress when every child obeys\<close>

lemma finish_one:
  assumes "i < n" "obeys i \<or> exited s i"
  shows "\<exists>s'. term_steps n obeys s s' \<and> waits s' i = Finished \<and>
    (\<forall>j. j \<noteq> i \<longrightarrow> waits s' j = waits s j) \<and> (\<forall>j. exited s j \<longrightarrow> exited s' j)"
proof (cases "waits s i = Finished")
  case False
  obtain t where t: "term_steps n obeys s t" "exited t i" "waits t = waits s"
    "\<forall>j. exited s j \<longrightarrow> exited t j"
  proof (cases "exited s i")
    case False
    then have "term_step n obeys s (s\<lparr>exited := (exited s)(i := True)\<rparr>)"
      using assms by (intro child_exits) auto
    then have "term_steps n obeys s (s\<lparr>exited := (exited s)(i := True)\<rparr>)" by (rule r_into_rtranclp)
    then show thesis using that [of "s\<lparr>exited := (exited s)(i := True)\<rparr>"] by simp
  qed (use that [of s] in simp)
  let ?u = "t\<lparr>waits := (waits t)(i := Finished)\<rparr>"
  have "term_step n obeys t ?u"
  proof (cases "waits s i = Waiting")
    case True
    with t assms(1) show ?thesis by (intro sees_done) auto
  next
    case not_waiting: False
    with False have "waits s i = Killing" by (cases "waits s i") auto
    with t assms(1) show ?thesis by (intro kill_done) auto
  qed
  with t have "term_steps n obeys s ?u" by (meson rtranclp.rtrancl_into_rtrancl)
  with t show ?thesis by (intro exI [of _ ?u]) auto
qed auto

lemma finish_first:
  assumes "\<forall>i < n. obeys i \<or> exited s i" "k \<le> n"
  shows "\<exists>s'. term_steps n obeys s s' \<and> (\<forall>i < k. waits s' i = Finished) \<and> (\<forall>j. exited s j \<longrightarrow> exited s' j)"
  using assms(2)
proof (induction k)
  case (Suc k)
  then obtain t where t: "term_steps n obeys s t" "\<forall>i < k. waits t i = Finished"
    "\<forall>j. exited s j \<longrightarrow> exited t j" by auto
  have "k < n" using Suc.prems by simp
  then have "obeys k \<or> exited t k" using assms(1) t(3) by blast
  then obtain u where u: "term_steps n obeys t u" "waits u k = Finished"
    "\<forall>j. j \<noteq> k \<longrightarrow> waits u j = waits t j" "\<forall>j. exited t j \<longrightarrow> exited u j"
    using finish_one \<open>k < n\<close> by blast
  have "waits u i = Finished" if "i < Suc k" for i
    using that u(2,3) t(2) by (cases "i = k") auto
  moreover have "term_steps n obeys s u" using t(1) u(1) by (rule rtranclp_trans)
  ultimately show ?case using t(3) u(4) by blast
qed auto

lemma term_steps_exited: "term_steps n obeys s s' \<Longrightarrow> exited s i \<Longrightarrow> exited s' i"
  by (induction rule: rtranclp_induct) (auto elim: term_stepE)

section \<open>Properties\<close>

text \<open>
  C18. Shutdown depends on the children: when every child that was started
  exits on SIGTERM, the wait can be completed from every reachable state; when two children
  ignore SIGTERM, it never returns, since the deadline channel wakes one goroutine only and the
  second child is never killed.
\<close>

theorem terminate_waits:
  assumes "term_steps n obeys (start_term ok) s"
  shows "((\<forall>i < n. ok i \<longrightarrow> obeys i) \<longrightarrow> (\<exists>s'. term_steps n obeys s s' \<and> all_finished n s')) \<and>
    (\<forall>i j. i < n \<longrightarrow> j < n \<longrightarrow> i \<noteq> j \<longrightarrow> ok i \<and> \<not> obeys i \<and> ok j \<and> \<not> obeys j \<longrightarrow> \<not> all_finished n s)"
proof (intro conjI impI allI)
  assume obey: "\<forall>i < n. ok i \<longrightarrow> obeys i"
  have "exited (start_term ok) i" if "\<not> ok i" for i using that by (simp add: start_term_def)
  then have "\<forall>i < n. obeys i \<or> exited s i" using obey term_steps_exited [OF assms] by blast
  from finish_first [OF this order_refl] show "\<exists>s'. term_steps n obeys s s' \<and> all_finished n s'"
    by (auto simp: all_finished_def)
next
  fix i j
  assume ij: "i < n" "j < n" "i \<noteq> j" "ok i \<and> \<not> obeys i \<and> ok j \<and> \<not> obeys j"
  have inv: "term_inv ok obeys s" by (rule term_inv_steps [OF assms term_inv_start])
  show "\<not> all_finished n s"
  proof
    assume "all_finished n s"
    then have "exited s i" "exited s j" using inv ij(1,2) by (auto simp: all_finished_def term_inv_def)
    then have "killed s i" "killed s j" using inv ij(4) unfolding term_inv_def by blast+
    with inv ij(3) show False by (simp add: term_inv_def)
  qed
qed

theorem terminate_waits_witness:
  "\<not> all_finished 2 ((start_term (\<lambda>i. True))\<lparr>deadline := Ready\<rparr>) \<and>
   (\<exists>s'. term_steps 2 (\<lambda>i. True) (start_term (\<lambda>i. True)) s' \<and> all_finished 2 s')"
proof
  have "term_steps 2 (\<lambda>i. False) (start_term (\<lambda>i. True)) ((start_term (\<lambda>i. True))\<lparr>deadline := Ready\<rparr>)"
    by (rule r_into_rtranclp, rule timer_fires) (simp add: start_term_def)
  from terminate_waits [OF this]
  have "(0::nat) < 2 \<longrightarrow> (1::nat) < 2 \<longrightarrow> (0::nat) \<noteq> 1 \<longrightarrow> \<not> all_finished 2 ((start_term (\<lambda>i. True))\<lparr>deadline := Ready\<rparr>)"
    by blast
  then show "\<not> all_finished 2 ((start_term (\<lambda>i. True))\<lparr>deadline := Ready\<rparr>)" by simp
  show "\<exists>s'. term_steps 2 (\<lambda>i. True) (start_term (\<lambda>i. True)) s' \<and> all_finished 2 s'"
    using terminate_waits [of 2 "\<lambda>i. True" "\<lambda>i. True" "start_term (\<lambda>i. True)"] by simp
qed

end
