(* ===== verification/GoFloat.thy ===== *)
theory GoFloat
  imports Complex_Main Prelude
begin

text \<open>
  Go's integer division and its \<open>float64\<close> arithmetic. Finite floats are rational numbers and every
  operation rounds its exact result; the rounding \<open>fl\<close> is a parameter of the definitions that
  compute with floats. What is used of IEEE 754 is that rounding is monotone, leaves floats alone,
  and is exact on quotients of an integer up to \<open>2^53\<close> and a power of two. Infinities and NaN do not occur where it is used.
\<close>

section \<open>Integer division\<close>

text \<open>Division truncates towards zero, and the remainder has the dividend's sign.\<close>

definition go_div :: "int \<Rightarrow> int \<Rightarrow> int" where
  "go_div a b = sgn a * sgn b * (\<bar>a\<bar> div \<bar>b\<bar>)"

definition go_mod :: "int \<Rightarrow> int \<Rightarrow> int" where
  "go_mod a b = a - go_div a b * b"

lemma go_div_nonneg: "0 \<le> a \<Longrightarrow> 0 < b \<Longrightarrow> go_div a b = a div b"
  by (cases "a = 0") (simp_all add: go_div_def)

lemma go_mod_nonneg: "0 \<le> a \<Longrightarrow> 0 < b \<Longrightarrow> go_mod a b = a mod b"
  by (simp add: go_mod_def go_div_nonneg minus_div_mult_eq_mod)

section \<open>Rounding\<close>

definition float_rounding :: "(rat \<Rightarrow> rat) \<Rightarrow> bool" where
  "float_rounding fl \<longleftrightarrow>
     (\<forall>x y. x \<le> y \<longrightarrow> fl x \<le> fl y) \<and> (\<forall>x. fl (fl x) = fl x) \<and>
     (\<forall>i k. \<bar>i\<bar> \<le> 2 ^ 53 \<longrightarrow> k \<le> 1000 \<longrightarrow> fl (of_int i / 2 ^ k) = of_int i / 2 ^ k)"

lemma float_rounding_mono: "float_rounding fl \<Longrightarrow> x \<le> y \<Longrightarrow> fl x \<le> fl y"
  by (simp add: float_rounding_def)

lemma float_rounding_dyadic:
  "float_rounding fl \<Longrightarrow> \<bar>i\<bar> \<le> 2 ^ 53 \<Longrightarrow> k \<le> 1000 \<Longrightarrow> fl (of_int i / 2 ^ k) = of_int i / 2 ^ k"
  by (simp add: float_rounding_def)

lemma float_rounding_int: "float_rounding fl \<Longrightarrow> \<bar>i\<bar> \<le> 2 ^ 53 \<Longrightarrow> fl (of_int i) = of_int i"
  using float_rounding_dyadic [of fl i 0] by simp

lemma float_rounding_zero: "float_rounding fl \<Longrightarrow> fl 0 = 0"
  using float_rounding_int [of fl 0] by simp

lemma float_rounding_nonneg: "float_rounding fl \<Longrightarrow> 0 \<le> x \<Longrightarrow> 0 \<le> fl x"
  using float_rounding_mono [of fl 0 x] float_rounding_zero [of fl] by simp

lemma float_rounding_id: "float_rounding (\<lambda>x. x)"
  by (simp add: float_rounding_def)

text \<open>The conversion of a float to an integer type drops the fraction.\<close>

definition go_trunc :: "rat \<Rightarrow> int" where
  "go_trunc x = (if 0 \<le> x then \<lfloor>x\<rfloor> else \<lceil>x\<rceil>)"

lemma go_trunc_nonneg: "0 \<le> x \<Longrightarrow> 0 \<le> go_trunc x"
  by (simp add: go_trunc_def)

lemma go_trunc_mono: "0 \<le> x \<Longrightarrow> x \<le> y \<Longrightarrow> go_trunc x \<le> go_trunc y"
  by (simp add: go_trunc_def floor_mono)

lemma go_trunc_of_int [simp]: "go_trunc (of_int i) = i"
  by (simp add: go_trunc_def)

end
