(* ===== verification/Workload.thy ===== *)
theory Workload
  imports GoFloat GoStrings
begin

text \<open>
  \<open>pkg/workload\<close>: the four load generators. Each turns its configuration into pacing parameters and
  then runs goroutines until its context ends; a ticker with a period that is not positive panics.
  Here are the pacing, the size distribution, one allocation tick and the ping-pong of the scheduler
  load; \<open>Generators\<close> has the goroutines of the other loads. The passing of time and the operating
  system are the environment.
\<close>

section \<open>What a generator does with its configuration\<close>

datatype 'a start = Returns_at_once | Rejects string | Panics | Runs 'a

definition second_ns :: int where
  "second_ns = 1000000000"

text \<open>\<open>time.NewTicker\<close> panics unless its period is positive.\<close>

definition with_ticker :: "int \<Rightarrow> 'a \<Rightarrow> 'a start" where
  "with_ticker interval x = (if interval > 0 then Runs x else Panics)"

definition runs_with :: "('a \<Rightarrow> bool) \<Rightarrow> 'a start \<Rightarrow> bool" where
  "runs_with P m = (case m of Runs x \<Rightarrow> P x | Returns_at_once \<Rightarrow> False | Rejects e \<Rightarrow> False | Panics \<Rightarrow> False)"

definition at_least_one :: "int \<Rightarrow> int" where
  "at_least_one n = (if n < 1 then 1 else n)"

lemma at_least_one_pos: "1 \<le> at_least_one n"
  by (simp add: at_least_one_def)

section \<open>Sizes\<close>

record SizeDist =
  sd_Sizes :: "int list"
  sd_Weights :: "rat list"

definition DefaultSizeDist :: SizeDist where
  "DefaultSizeDist = \<lparr>sd_Sizes = [256, 4096, 65536], sd_Weights = [7/10, 25/100, 5/100]\<rparr>"

text \<open>\<open>d.Sizes[i]\<close>: nothing when the index is out of range, where the code panics.\<close>

definition size_at :: "int list \<Rightarrow> nat \<Rightarrow> int option" where
  "size_at sizes i = (if i < length sizes then Some (sizes ! i) else None)"

fun sum_weights :: "(rat \<Rightarrow> rat) \<Rightarrow> rat list \<Rightarrow> rat \<Rightarrow> rat" where
  "sum_weights fl [] acc = acc"
| "sum_weights fl (w # ws) acc = sum_weights fl ws (fl (acc + w))"

fun pick_size :: "(rat \<Rightarrow> rat) \<Rightarrow> int list \<Rightarrow> rat \<Rightarrow> rat list \<Rightarrow> nat \<Rightarrow> rat \<Rightarrow> int option" where
  "pick_size fl sizes pick [] i cum = size_at sizes (length sizes - 1)"
| "pick_size fl sizes pick (w # ws) i cum =
     (let cum' = fl (cum + w) in
      if pick \<le> cum' then size_at sizes i else pick_size fl sizes pick ws (Suc i) cum')"

text \<open>
  \<open>u\<close> is the value of \<open>r.Float64()\<close>, at least 0 and less than 1. The weights are written as the
  decimals of the source; the constants of the program are their roundings.
\<close>

definition sample_size :: "(rat \<Rightarrow> rat) \<Rightarrow> SizeDist \<Rightarrow> rat \<Rightarrow> int option" where
  "sample_size fl d u =
     (if sd_Sizes d = [] then Some 256
      else let ws = map fl (sd_Weights d); sum = sum_weights fl ws 0 in
        if sum \<le> 0 then size_at (sd_Sizes d) 0
        else pick_size fl (sd_Sizes d) (fl (u * sum)) ws 0 0)"

section \<open>RunAlloc\<close>

record AllocConfig =
  al_Goroutines :: int
  al_BytesPerSec :: int
  al_SizeDist :: SizeDist
  al_RingSize :: int

text \<open>The bytes of one tick of a millisecond, for a goroutine's share; the product is of 64 bits.\<close>

definition burst_bytes :: "int \<Rightarrow> int" where
  "burst_bytes bps = at_least_one (go_div (wrap64 (bps * 1000000)) second_ns)"

record alloc_plan =
  ap_workers :: int
  ap_burst :: int
  ap_ring :: int
  ap_dist :: SizeDist

definition RunAlloc :: "AllocConfig \<Rightarrow> alloc_plan start" where
  "RunAlloc cfg =
     (if al_Goroutines cfg \<le> 0 \<or> al_BytesPerSec cfg \<le> 0 then Returns_at_once
      else Runs
        \<lparr>ap_workers = al_Goroutines cfg,
         ap_burst = burst_bytes (at_least_one (go_div (al_BytesPerSec cfg) (al_Goroutines cfg))),
         ap_ring = (if al_RingSize cfg \<le> 0 then 64 else al_RingSize cfg),
         ap_dist = (if sd_Sizes (al_SizeDist cfg) = [] then DefaultSizeDist else al_SizeDist cfg)\<rparr>)"

text \<open>
  One tick: sizes are drawn until the burst is reached. \<open>draw k\<close> is the \<open>k\<close>-th size drawn; a size
  below 1 panics at \<open>buf[0]\<close>, or already in \<open>make\<close>. The state is the next slot of the ring and its
  occupied slots with their sizes.
\<close>

record ring =
  ring_idx :: int
  ring_slots :: "int \<Rightarrow> int option"

definition store :: "int \<Rightarrow> int \<Rightarrow> ring \<Rightarrow> ring" where
  "store cap sz r =
     r\<lparr>ring_slots := (ring_slots r)(ring_idx r := Some sz), ring_idx := go_mod (ring_idx r + 1) cap\<rparr>"

function alloc_tick :: "int \<Rightarrow> int \<Rightarrow> (nat \<Rightarrow> int) \<Rightarrow> nat \<Rightarrow> int \<Rightarrow> ring \<Rightarrow> (int \<times> nat \<times> ring) option" where
  "alloc_tick burst cap draw k allocated r =
     (if allocated < burst then
        (if draw k < 1 then None
         else alloc_tick burst cap draw (Suc k) (allocated + draw k) (store cap (draw k) r))
      else Some (allocated, k, r))"
  by pat_completeness auto

termination
  by (relation "measure (\<lambda>(burst, cap, draw, k, allocated, r). nat (burst - allocated))") auto

declare alloc_tick.simps [simp del]

section \<open>RunLock\<close>

definition ContentionNone :: string where "ContentionNone = ''none''"
definition ContentionLow :: string where "ContentionLow = ''low''"
definition ContentionModerate :: string where "ContentionModerate = ''moderate''"
definition ContentionHigh :: string where "ContentionHigh = ''high''"

record LockConfig =
  lk_Level :: string
  lk_Goroutines :: int
  lk_OpsPerSec :: int

definition critical_work :: "string \<Rightarrow> int" where
  "critical_work level =
     (if level = ContentionLow then 8 else if level = ContentionModerate then 64
      else if level = ContentionHigh then 512 else 16)"

text \<open>The pacing shared by the lock and syscall loads: a period for one goroutine's share.\<close>

definition share_interval :: "int \<Rightarrow> int \<Rightarrow> int" where
  "share_interval rate workers = go_div second_ns (at_least_one (go_div rate workers))"

definition RunLock :: "LockConfig \<Rightarrow> (int \<times> int \<times> int) start" where
  "RunLock cfg =
     (if lk_Level cfg = ContentionNone \<or> lk_Level cfg = [] then Returns_at_once
      else if lk_Goroutines cfg \<le> 0 \<or> lk_OpsPerSec cfg \<le> 0 then Returns_at_once
      else let interval = share_interval (lk_OpsPerSec cfg) (lk_Goroutines cfg) in
        with_ticker interval (lk_Goroutines cfg, critical_work (lk_Level cfg), interval))"

section \<open>RunSyscall\<close>

definition SyscallNone :: string where "SyscallNone = ''none''"
definition SyscallLoopbackTCP :: string where "SyscallLoopbackTCP = ''loopback_tcp''"
definition SyscallTmpfsFsync :: string where "SyscallTmpfsFsync = ''tmpfs_fsync''"

record SyscallConfig =
  sy_Target :: string
  sy_Goroutines :: int
  sy_SyscallsPerSec :: int
  sy_PayloadBytes :: int
  sy_TmpfsDir :: string

datatype syscall_load =
    Loopback int int int
  | Fsync "string list" int int

definition payload_of :: "SyscallConfig \<Rightarrow> int" where
  "payload_of cfg = (if sy_PayloadBytes cfg \<le> 0 then 256 else sy_PayloadBytes cfg)"

definition fsync_path :: "string \<Rightarrow> int \<Rightarrow> int \<Rightarrow> string" where
  "fsync_path dir pid i = dir @ ''/chaos-fsync-'' @ Itoa pid @ ''-'' @ Itoa i"

text \<open>
  \<open>isdir\<close> says whether a path is a directory, \<open>tmp\<close> is \<open>os.TempDir()\<close>, \<open>pid\<close> the process id; both
  directories are clean paths other than the root.
\<close>

definition fsync_dir :: "(string \<Rightarrow> bool) \<Rightarrow> string \<Rightarrow> SyscallConfig \<Rightarrow> string" where
  "fsync_dir isdir tmp cfg =
     (let dir = (if sy_TmpfsDir cfg = [] then ''/dev/shm'' else sy_TmpfsDir cfg)
      in if isdir dir then dir else tmp)"

definition RunSyscall :: "(string \<Rightarrow> bool) \<Rightarrow> string \<Rightarrow> int \<Rightarrow> SyscallConfig \<Rightarrow> syscall_load start" where
  "RunSyscall isdir tmp pid cfg =
     (let interval = share_interval (sy_SyscallsPerSec cfg) (sy_Goroutines cfg) in
      if sy_Goroutines cfg \<le> 0 \<or> sy_SyscallsPerSec cfg \<le> 0 then Returns_at_once
      else if sy_Target cfg = SyscallNone \<or> sy_Target cfg = [] then Returns_at_once
      else if sy_Target cfg = SyscallLoopbackTCP then
        with_ticker interval (Loopback (sy_Goroutines cfg) (payload_of cfg) interval)
      else if sy_Target cfg = SyscallTmpfsFsync then
        with_ticker interval
          (Fsync (map (\<lambda>i. fsync_path (fsync_dir isdir tmp cfg) pid i) [0..sy_Goroutines cfg - 1])
            (payload_of cfg) interval)
      else Rejects (sy_Target cfg))"

section \<open>RunScheduler\<close>

record SchedulerConfig =
  sc_Pairs :: int
  sc_OpsPerSec :: int

text \<open>No ticker is made when the period rounds to zero: then the loop is not paced.\<close>

definition RunScheduler :: "SchedulerConfig \<Rightarrow> (int \<times> int) start" where
  "RunScheduler cfg =
     (if sc_Pairs cfg \<le> 0 then Returns_at_once
      else Runs (sc_Pairs cfg,
        if sc_OpsPerSec cfg > 0 then share_interval (sc_OpsPerSec cfg) (sc_Pairs cfg) else 0))"

text \<open>
  One goroutine per pair and two channels of capacity 1. It takes the token out of either channel,
  waits for a tick when paced, and puts it into the other one; every wait also ends with the
  context. The counters record the sends and the ticks.
\<close>

datatype pair_pc = At_select | Got_ping | Send_pong | Got_pong | Send_ping | Stopped

record pair =
  pr_pc :: pair_pc
  pr_ping :: nat
  pr_pong :: nat
  pr_sends :: nat
  pr_ticks :: nat

definition start_pair :: pair where
  "start_pair = \<lparr>pr_pc = At_select, pr_ping = 1, pr_pong = 0, pr_sends = 0, pr_ticks = 0\<rparr>"

definition paced_tick :: "bool \<Rightarrow> pair \<Rightarrow> pair" where
  "paced_tick paced s = (if paced then s\<lparr>pr_ticks := pr_ticks s + 1\<rparr> else s)"

inductive pair_step :: "bool \<Rightarrow> pair \<Rightarrow> pair \<Rightarrow> bool" for paced where
  take_ping: "pr_pc s = At_select \<Longrightarrow> pr_ping s > 0 \<Longrightarrow>
    pair_step paced s (s\<lparr>pr_ping := pr_ping s - 1, pr_pc := Got_ping\<rparr>)"
| take_pong: "pr_pc s = At_select \<Longrightarrow> pr_pong s > 0 \<Longrightarrow>
    pair_step paced s (s\<lparr>pr_pong := pr_pong s - 1, pr_pc := Got_pong\<rparr>)"
| tick_ping: "pr_pc s = Got_ping \<Longrightarrow> pair_step paced s ((paced_tick paced s)\<lparr>pr_pc := Send_pong\<rparr>)"
| tick_pong: "pr_pc s = Got_pong \<Longrightarrow> pair_step paced s ((paced_tick paced s)\<lparr>pr_pc := Send_ping\<rparr>)"
| put_pong: "pr_pc s = Send_pong \<Longrightarrow> pr_pong s < 1 \<Longrightarrow>
    pair_step paced s (s\<lparr>pr_pong := pr_pong s + 1, pr_sends := pr_sends s + 1, pr_pc := At_select\<rparr>)"
| put_ping: "pr_pc s = Send_ping \<Longrightarrow> pr_ping s < 1 \<Longrightarrow>
    pair_step paced s (s\<lparr>pr_ping := pr_ping s + 1, pr_sends := pr_sends s + 1, pr_pc := At_select\<rparr>)"
| cancelled: "pr_pc s \<noteq> Stopped \<Longrightarrow> \<not> (pr_pc s \<in> {Got_ping, Got_pong} \<and> \<not> paced) \<Longrightarrow>
    pair_step paced s (s\<lparr>pr_pc := Stopped\<rparr>)"

abbreviation pair_steps :: "bool \<Rightarrow> pair \<Rightarrow> pair \<Rightarrow> bool" where
  "pair_steps paced \<equiv> (pair_step paced)\<^sup>*\<^sup>*"

section \<open>The size distribution\<close>

lemma pick_size_index:
  assumes "length sizes = i + length ws" "sizes \<noteq> []"
  shows "\<exists>k < length sizes. pick_size fl sizes pick ws i cum = Some (sizes ! k) \<and>
    (pick \<le> sum_weights fl ws cum \<longrightarrow> ws \<noteq> [] \<longrightarrow>
      i \<le> k \<and> pick \<le> sum_weights fl (take (Suc k - i) ws) cum \<and>
      (\<forall>j. i \<le> j \<and> j < k \<longrightarrow> sum_weights fl (take (Suc j - i) ws) cum < pick))"
  using assms(1)
proof (induction ws arbitrary: i cum)
  case Nil
  then have "length sizes - 1 < length sizes" using assms(2) by (cases sizes) simp_all
  then show ?case by (intro exI [of _ "length sizes - 1"]) (simp add: size_at_def)
next
  case (Cons w ws)
  show ?case
  proof (cases "pick \<le> fl (cum + w)")
    case True
    then show ?thesis using Cons.prems by (intro exI [of _ i]) (simp add: size_at_def)
  next
    case False
    obtain k where k: "k < length sizes" "pick_size fl sizes pick ws (Suc i) (fl (cum + w)) = Some (sizes ! k)"
      and least: "pick \<le> sum_weights fl ws (fl (cum + w)) \<Longrightarrow> ws \<noteq> [] \<Longrightarrow>
        Suc i \<le> k \<and> pick \<le> sum_weights fl (take (Suc k - Suc i) ws) (fl (cum + w)) \<and>
        (\<forall>j. Suc i \<le> j \<and> j < k \<longrightarrow> sum_weights fl (take (Suc j - Suc i) ws) (fl (cum + w)) < pick)"
      using Cons.IH [of "Suc i" "fl (cum + w)"] Cons.prems by auto
    show ?thesis
    proof (intro exI [of _ k] conjI impI)
      assume pick: "pick \<le> sum_weights fl (w # ws) cum" "w # ws \<noteq> []"
      with False have ws: "ws \<noteq> []" by (cases ws) auto
      note l = least [OF _ ws]
      have le: "pick \<le> sum_weights fl ws (fl (cum + w))" using pick(1) by simp
      show "i \<le> k" using l [OF le] by simp
      show "pick \<le> sum_weights fl (take (Suc k - i) (w # ws)) cum"
        using l [OF le] by (simp add: Suc_diff_le)
      show "\<forall>j. i \<le> j \<and> j < k \<longrightarrow> sum_weights fl (take (Suc j - i) (w # ws)) cum < pick"
      proof (intro allI impI)
        fix j assume j: "i \<le> j \<and> j < k"
        show "sum_weights fl (take (Suc j - i) (w # ws)) cum < pick"
        proof (cases "j = i")
          case True
          then show ?thesis using False by simp
        next
          case False
          with j l [OF le] show ?thesis by (simp add: Suc_diff_le)
        qed
      qed
    qed (use k False in \<open>simp_all add: Let_def\<close>)
  qed
qed

lemma sum_weights_float: "float_rounding fl \<Longrightarrow> ws \<noteq> [] \<Longrightarrow> fl (sum_weights fl ws acc) = sum_weights fl ws acc"
proof (induction ws arbitrary: acc)
  case (Cons w ws)
  then show ?case by (cases ws) (simp_all add: float_rounding_def)
qed simp

section \<open>One allocation tick\<close>

definition ring_ok :: "int \<Rightarrow> ring \<Rightarrow> bool" where
  "ring_ok cap r \<longleftrightarrow> 0 \<le> ring_idx r \<and> ring_idx r < cap \<and> dom (ring_slots r) \<subseteq> {0..<cap}"

lemma ring_ok_store: "ring_ok cap r \<Longrightarrow> ring_ok cap (store cap sz r)"
  by (auto simp: ring_ok_def store_def go_mod_nonneg split: if_splits)

lemma alloc_tick_total:
  assumes "\<And>k. lo \<le> draw k" "\<And>k. draw k \<le> hi" "1 \<le> lo"
  shows "allocated < burst + hi \<Longrightarrow> ring_ok cap r \<Longrightarrow>
    \<exists>end_total n r'. alloc_tick burst cap draw k allocated r = Some (end_total, k + n, r') \<and>
    burst \<le> end_total \<and> end_total < burst + hi \<and> allocated + int n * lo \<le> end_total \<and>
    (allocated < burst \<longrightarrow> 0 < n) \<and> ring_ok cap r'"
proof (induction "nat (burst - allocated)" arbitrary: k allocated r rule: less_induct)
  case less
  show ?case
  proof (cases "allocated < burst")
    case True
    have draw: "1 \<le> draw k" "draw k \<le> hi" "lo \<le> draw k" using assms(1,2) [of k] assms(3) by simp_all
    have "nat (burst - (allocated + draw k)) < nat (burst - allocated)" using True draw by simp
    from less.hyps [OF this, of "store cap (draw k) r" "Suc k"] True draw less.prems
    obtain end_total n r' where rest: "alloc_tick burst cap draw (Suc k) (allocated + draw k) (store cap (draw k) r) =
        Some (end_total, Suc k + n, r')" "burst \<le> end_total" "end_total < burst + hi"
        "allocated + draw k + int n * lo \<le> end_total" "ring_ok cap r'"
      by (auto simp: ring_ok_store)
    have "alloc_tick burst cap draw k allocated r = Some (end_total, k + Suc n, r')"
      using rest(1) True draw by (simp add: alloc_tick.simps [of burst cap draw k])
    moreover have "allocated + int (Suc n) * lo \<le> end_total"
      using rest(4) draw by (simp add: algebra_simps)
    ultimately show ?thesis using rest by blast
  next
    case False
    then have "alloc_tick burst cap draw k allocated r = Some (allocated, k + 0, r)"
      by (simp add: alloc_tick.simps)
    moreover have "allocated + int 0 * lo \<le> allocated" by simp
    ultimately show ?thesis using False less.prems by (metis not_less)
  qed
qed

section \<open>The token\<close>

definition held :: "pair \<Rightarrow> nat" where
  "held s = (if pr_pc s = At_select then 0 else 1)"

definition waiting_send :: "pair \<Rightarrow> nat" where
  "waiting_send s = (if pr_pc s = Send_pong \<or> pr_pc s = Send_ping then 1 else 0)"

definition pair_inv :: "bool \<Rightarrow> pair \<Rightarrow> bool" where
  "pair_inv paced s \<longleftrightarrow>
     (pr_pc s \<noteq> Stopped \<longrightarrow> pr_ping s + pr_pong s + held s = 1 \<and>
       (paced \<longrightarrow> pr_ticks s = pr_sends s + waiting_send s)) \<and>
     pr_ping s + pr_pong s \<le> 1 \<and> (paced \<longrightarrow> pr_sends s \<le> pr_ticks s)"

lemma pair_inv_start: "pair_inv paced start_pair"
  by (simp add: pair_inv_def start_pair_def held_def waiting_send_def)

lemma pair_inv_step: "pair_step paced s s' \<Longrightarrow> pair_inv paced s \<Longrightarrow> pair_inv paced s'"
  by (induction rule: pair_step.induct)
    (auto simp: pair_inv_def held_def waiting_send_def paced_tick_def)

lemma pair_inv_steps: "pair_steps paced s s' \<Longrightarrow> pair_inv paced s \<Longrightarrow> pair_inv paced s'"
  by (induction rule: rtranclp_induct) (auto intro: pair_inv_step)

section \<open>Properties\<close>

text \<open>
  Drawing a size never panics and follows the weights: for a distribution with one weight per
  size the result is one of the sizes whatever the rounding, and when the weights sum to something
  positive it is the first one whose cumulated weight reaches the pick.
\<close>

theorem sample_size_correct:
  assumes "length (sd_Weights d) = length (sd_Sizes d)" "sd_Sizes d \<noteq> []"
    and "float_rounding fl" "0 \<le> u" "u < 1"
  shows "\<exists>i < length (sd_Sizes d). sample_size fl d u = Some (sd_Sizes d ! i) \<and>
    (0 < sum_weights fl (map fl (sd_Weights d)) 0 \<longrightarrow>
      fl (u * sum_weights fl (map fl (sd_Weights d)) 0) \<le> sum_weights fl (take (Suc i) (map fl (sd_Weights d))) 0 \<and>
      (\<forall>j < i. sum_weights fl (take (Suc j) (map fl (sd_Weights d))) 0 < fl (u * sum_weights fl (map fl (sd_Weights d)) 0)))"
proof (cases "sum_weights fl (map fl (sd_Weights d)) 0 \<le> 0")
  case True
  then show ?thesis using assms(2) by (intro exI [of _ 0]) (simp add: sample_size_def size_at_def Let_def)
next
  case False
  let ?sum = "sum_weights fl (map fl (sd_Weights d)) 0"
  have ws: "map fl (sd_Weights d) \<noteq> []" using assms(1,2) by auto
  have "u * ?sum \<le> ?sum" using False assms(5) by (simp add: mult_le_cancel_right1)
  then have "fl (u * ?sum) \<le> ?sum"
    using float_rounding_mono [OF assms(3)] sum_weights_float [OF assms(3) ws] by metis
  with pick_size_index [of "sd_Sizes d" 0 "map fl (sd_Weights d)" fl "fl (u * ?sum)" 0] assms(1,2) ws False
  show ?thesis by (auto simp: sample_size_def Let_def)
qed

theorem sample_size_correct_witness:
  "\<exists>sz \<in> {256, 4096, 65536}. sample_size (\<lambda>x. x) DefaultSizeDist (8/10) = Some sz"
proof -
  have "length (sd_Weights DefaultSizeDist) = length (sd_Sizes DefaultSizeDist)" "sd_Sizes DefaultSizeDist \<noteq> []"
    by (simp_all add: DefaultSizeDist_def)
  from sample_size_correct [OF this float_rounding_id, of "8/10"]
  obtain i where "i < length (sd_Sizes DefaultSizeDist)"
    "sample_size (\<lambda>x. x) DefaultSizeDist (8/10) = Some (sd_Sizes DefaultSizeDist ! i)"
    by auto
  then show ?thesis using nth_mem [of i "sd_Sizes DefaultSizeDist"] by (simp add: DefaultSizeDist_def)
qed

text \<open>
  A tick of the allocation load ends and overshoots by less than one object: with sizes between
  lo and hi it allocates at least the burst and less than the burst and hi more, at least one object
  however small the burst is, and keeps the ring inside its slots.
\<close>

theorem alloc_tick_bounds:
  assumes "\<And>k. lo \<le> draw k" "\<And>k. draw k \<le> hi" "1 \<le> lo" "ring_ok cap r" "1 \<le> burst"
  shows "\<exists>end_total n r'. alloc_tick burst cap draw 0 0 r = Some (end_total, n, r') \<and>
    burst \<le> end_total \<and> end_total < burst + hi \<and> 1 \<le> n \<and> int n * lo \<le> end_total \<and> ring_ok cap r'"
proof -
  have "0 < burst + hi" using assms(1,2) [of 0] assms(3,5) by simp
  from alloc_tick_total [where draw = draw and k = 0, OF assms(1-3) this assms(4)] assms(5)
  show ?thesis by (auto simp: Suc_le_eq)
qed

theorem alloc_tick_bounds_witness:
  "\<exists>end_total n r'. alloc_tick 1000 64 (\<lambda>k. 256) 0 0 \<lparr>ring_idx = 0, ring_slots = Map.empty\<rparr> = Some (end_total, n, r') \<and>
    1000 \<le> end_total \<and> end_total < 1256"
  using alloc_tick_bounds [of 256 "\<lambda>k. 256" 256 64 "\<lparr>ring_idx = 0, ring_slots = Map.empty\<rparr>" 1000]
  by (auto simp: ring_ok_def)

text \<open>
  C29. The ping-pong of the scheduler load keeps exactly one token and never blocks on a send: until
  the goroutine stops, the token is in one channel or in its hand, a send always finds its channel
  empty, and with a pace there is one tick for every send.
\<close>

theorem scheduler_token:
  assumes "pair_steps paced start_pair s" "pr_pc s \<noteq> Stopped"
  shows "pr_ping s + pr_pong s + held s = 1 \<and> (pr_pc s = Send_pong \<longrightarrow> pr_pong s = 0) \<and>
    (pr_pc s = Send_ping \<longrightarrow> pr_ping s = 0) \<and> (paced \<longrightarrow> pr_ticks s = pr_sends s + waiting_send s) \<and>
    (\<exists>s'. pair_step paced s s' \<and> pr_pc s' \<noteq> Stopped)"
proof -
  have inv: "pair_inv paced s" using pair_inv_steps [OF assms(1) pair_inv_start] .
  then have token: "pr_ping s + pr_pong s + held s = 1" "paced \<longrightarrow> pr_ticks s = pr_sends s + waiting_send s"
    using assms(2) by (simp_all add: pair_inv_def)
  have "\<exists>s'. pair_step paced s s' \<and> pr_pc s' \<noteq> Stopped"
  proof (cases "pr_pc s")
    case At_select
    then have "pr_ping s > 0 \<or> pr_pong s > 0" using token(1) by (auto simp: held_def)
    then show ?thesis using pair_step.take_ping pair_step.take_pong At_select by fastforce
  next
    case Got_ping
    then show ?thesis using pair_step.tick_ping by fastforce
  next
    case Got_pong
    then show ?thesis using pair_step.tick_pong by fastforce
  next
    case Send_pong
    then have "pr_pong s < 1" using token(1) by (simp add: held_def)
    then show ?thesis using pair_step.put_pong Send_pong by fastforce
  next
    case Send_ping
    then have "pr_ping s < 1" using token(1) by (simp add: held_def)
    then show ?thesis using pair_step.put_ping Send_ping by fastforce
  qed (use assms(2) in simp)
  with token show ?thesis by (auto simp: held_def)
qed

theorem scheduler_token_witness:
  "\<exists>s. pair_steps True start_pair s \<and> pr_pc s = Got_ping \<and> pr_ping s + pr_pong s + held s = 1"
proof -
  let ?s = "start_pair\<lparr>pr_ping := pr_ping start_pair - 1, pr_pc := Got_ping\<rparr>"
  have run: "pair_steps True start_pair ?s"
    by (rule r_into_rtranclp, rule pair_step.take_ping) (simp_all add: start_pair_def)
  moreover have "pr_pc ?s \<noteq> Stopped" by simp
  ultimately show ?thesis using scheduler_token [of True ?s] by (intro exI [of _ ?s]) simp
qed

end
