(* ===== verification/LoadProfiles.thy ===== *)
theory LoadProfiles
  imports Workload
begin

text \<open>
  \<open>pkg/profile\<close>: the workload archetypes, their registry, and what a worker's generators do with
  them. Float constants are written as the decimals of the source.
\<close>

section \<open>Data\<close>

record SteadyConfig =
  ss_Goroutines :: int
  ss_AllocBytesPerSec :: int
  ss_AllocSizeDist :: SizeDist
  ss_ChannelOpsPerSec :: int
  ss_SyscallTarget :: string
  ss_SyscallsPerSec :: int
  ss_LockContention :: string
  ss_LockOpsPerSec :: int

record ReconcileConfig =
  rb_Period :: int
  rb_Duration :: int
  rb_AllocMultiplier :: rat
  rb_GoroutineSpike :: int
  rb_SyscallMultiplier :: rat

record Profile =
  pf_Name :: string
  pf_Description :: string
  pf_SteadyState :: SteadyConfig
  pf_Reconcile :: ReconcileConfig

section \<open>The profiles\<close>

definition em_dash :: string where
  "em_dash = [CHR 0xE2, CHR 0x80, CHR 0x94]"

definition control_plane_profile :: Profile where
  "control_plane_profile = \<lparr>pf_Name = ''control-plane'',
     pf_Description = ''kube-apiserver / controller-manager / scheduler '' @ em_dash @ '' heavy fan-out, moderate alloc, low syscall'',
     pf_SteadyState = \<lparr>ss_Goroutines = 200, ss_AllocBytesPerSec = 10 * 1024 * 1024,
       ss_AllocSizeDist = \<lparr>sd_Sizes = [256, 4096], sd_Weights = [7/10, 3/10]\<rparr>,
       ss_ChannelOpsPerSec = 50000, ss_SyscallTarget = SyscallLoopbackTCP,
       ss_SyscallsPerSec = 100, ss_LockContention = ContentionModerate, ss_LockOpsPerSec = 1000\<rparr>,
     pf_Reconcile = \<lparr>rb_Period = 30 * second_ns, rb_Duration = 200 * 1000000,
       rb_AllocMultiplier = 5, rb_GoroutineSpike = 500, rb_SyscallMultiplier = 1\<rparr>\<rparr>"

definition etcd_like_profile :: Profile where
  "etcd_like_profile = \<lparr>pf_Name = ''etcd-like'',
     pf_Description = ''etcd-class store '' @ em_dash @ '' fsync syscall + lock contention contributor'',
     pf_SteadyState = \<lparr>ss_Goroutines = 100, ss_AllocBytesPerSec = 2 * 1024 * 1024,
       ss_AllocSizeDist = DefaultSizeDist,
       ss_ChannelOpsPerSec = 10000, ss_SyscallTarget = SyscallTmpfsFsync,
       ss_SyscallsPerSec = 1000, ss_LockContention = ContentionHigh, ss_LockOpsPerSec = 2000\<rparr>,
     pf_Reconcile = \<lparr>rb_Period = 10 * second_ns, rb_Duration = 50 * 1000000,
       rb_AllocMultiplier = 12/10, rb_GoroutineSpike = 20, rb_SyscallMultiplier = 2\<rparr>\<rparr>"

definition logging_profile :: Profile where
  "logging_profile = \<lparr>pf_Name = ''logging'',
     pf_Description = ''Vector / Loki '' @ em_dash @ '' GC pressure dominator, high alloc churn'',
     pf_SteadyState = \<lparr>ss_Goroutines = 150, ss_AllocBytesPerSec = 50 * 1024 * 1024,
       ss_AllocSizeDist = \<lparr>sd_Sizes = [256, 4096, 16384], sd_Weights = [5/10, 4/10, 1/10]\<rparr>,
       ss_ChannelOpsPerSec = 100000, ss_SyscallTarget = SyscallLoopbackTCP,
       ss_SyscallsPerSec = 500, ss_LockContention = ContentionModerate, ss_LockOpsPerSec = 500\<rparr>,
     pf_Reconcile = \<lparr>rb_Period = 10 * second_ns, rb_Duration = 200 * 1000000,
       rb_AllocMultiplier = 2, rb_GoroutineSpike = 100, rb_SyscallMultiplier = 15/10\<rparr>\<rparr>"

definition monitoring_profile :: Profile where
  "monitoring_profile = \<lparr>pf_Name = ''monitoring'',
     pf_Description = ''Prometheus / Thanos '' @ em_dash @ '' periodic-large-burst contributor'',
     pf_SteadyState = \<lparr>ss_Goroutines = 100, ss_AllocBytesPerSec = 5 * 1024 * 1024,
       ss_AllocSizeDist = DefaultSizeDist,
       ss_ChannelOpsPerSec = 20000, ss_SyscallTarget = SyscallLoopbackTCP,
       ss_SyscallsPerSec = 200, ss_LockContention = ContentionModerate, ss_LockOpsPerSec = 500\<rparr>,
     pf_Reconcile = \<lparr>rb_Period = 30 * second_ns, rb_Duration = 500 * 1000000,
       rb_AllocMultiplier = 10, rb_GoroutineSpike = 100, rb_SyscallMultiplier = 1\<rparr>\<rparr>"

definition networking_profile :: Profile where
  "networking_profile = \<lparr>pf_Name = ''networking'',
     pf_Description = ''OVN-Kubernetes / multus / CNI plugins '' @ em_dash @ '' highest M-explosion contributor'',
     pf_SteadyState = \<lparr>ss_Goroutines = 80, ss_AllocBytesPerSec = 3 * 1024 * 1024,
       ss_AllocSizeDist = DefaultSizeDist,
       ss_ChannelOpsPerSec = 5000, ss_SyscallTarget = SyscallLoopbackTCP,
       ss_SyscallsPerSec = 5000, ss_LockContention = ContentionLow, ss_LockOpsPerSec = 200\<rparr>,
     pf_Reconcile = \<lparr>rb_Period = 15 * second_ns, rb_Duration = 100 * 1000000,
       rb_AllocMultiplier = 15/10, rb_GoroutineSpike = 200, rb_SyscallMultiplier = 3\<rparr>\<rparr>"

definition operator_generic_profile :: Profile where
  "operator_generic_profile = \<lparr>pf_Name = ''operator-generic'',
     pf_Description = ''Generic platform operator '' @ em_dash @ '' fleet-quantity profile, mostly idle informer + worker queue'',
     pf_SteadyState = \<lparr>ss_Goroutines = 50, ss_AllocBytesPerSec = 1 * 1024 * 1024,
       ss_AllocSizeDist = DefaultSizeDist,
       ss_ChannelOpsPerSec = 5000, ss_SyscallTarget = SyscallLoopbackTCP,
       ss_SyscallsPerSec = 50, ss_LockContention = ContentionLow, ss_LockOpsPerSec = 100\<rparr>,
     pf_Reconcile = \<lparr>rb_Period = 30 * second_ns, rb_Duration = 100 * 1000000,
       rb_AllocMultiplier = 2, rb_GoroutineSpike = 100, rb_SyscallMultiplier = 1\<rparr>\<rparr>"

section \<open>The registry\<close>

text \<open>Each file's \<open>init\<close> registers its profile; a later registration of a name replaces it.\<close>

definition register :: "Profile \<Rightarrow> (string \<times> Profile) list \<Rightarrow> (string \<times> Profile) list" where
  "register p reg = (pf_Name p, p) # filter (\<lambda>e. fst e \<noteq> pf_Name p) reg"

definition registry :: "(string \<times> Profile) list" where
  "registry = fold register
     [control_plane_profile, etcd_like_profile, logging_profile, monitoring_profile, networking_profile,
      operator_generic_profile] []"

definition profile_order :: "string list" where
  "profile_order =
     [''control-plane'', ''networking'', ''monitoring'', ''logging'', ''operator-generic'', ''etcd-like'']"

definition All_profiles :: "Profile list" where
  "All_profiles = List.map_filter (map_of registry) profile_order"

definition profile_Names :: "string list" where
  "profile_Names = map pf_Name All_profiles"

text \<open>\<open>Get\<close>: the error carries the name asked for and the known ones.\<close>

definition profile_Get :: "string \<Rightarrow> (string \<times> string list) + Profile" where
  "profile_Get name = (case map_of registry name of None \<Rightarrow> Inl (name, profile_Names) | Some p \<Rightarrow> Inr p)"

end
