(* ===== verification/Launcher.thy ===== *)
theory Launcher
  imports ApplierContract Verify Preflight RunConfig ProcTree Terminate LoadProfiles
begin

text \<open>
  \<open>cmd/chaos-launcher/main.go\<close>: finding the topology, checking its profiles, setting up the tuning,
  spawning observer, victim and workers, and the strict-mode verification, up to the point where the
  run begins or the launcher gives up. Starting a command, the running processes' files and the
  environment are parameters.
\<close>

section \<open>Topology and profiles\<close>

text \<open>
  \<open>loadTopology\<close>: the name itself if it is a file, else the first built-in that exists. \<open>bindir\<close>
  is the directory of the executable, a clean path: absolute, or a dot when it is not known. Below it
  and below its parent, \<open>filepath.Join\<close> of a clean name gives these paths.
\<close>

definition below_dir :: "string \<Rightarrow> string \<Rightarrow> string" where
  "below_dir d f = (if d = ''.'' then f else if d = ''/'' then d @ f else path_join d f)"

definition below_parent :: "string \<Rightarrow> string \<Rightarrow> string" where
  "below_parent d f = path_join (if d = ''.'' then ''..'' else take (nat (lastIndex d ''/'')) d) f"

definition topology_candidates :: "string \<Rightarrow> string \<Rightarrow> string list" where
  "topology_candidates bindir name =
     (let built_in = path_join ''topologies'' (name @ ''.yaml'') in
      [built_in, below_parent bindir built_in, below_dir bindir built_in])"

datatype 'e find_error = TopoLoad "'e topo_load_error" | NotFound string "string list"

fun first_existing :: "(string \<Rightarrow> bool) \<Rightarrow> string list \<Rightarrow> string option" where
  "first_existing stat [] = None"
| "first_existing stat (p # ps) = (if stat p then Some p else first_existing stat ps)"

definition loadTopology ::
  "(string \<Rightarrow> bool) \<Rightarrow> (string \<Rightarrow> ('e topo_load_error, Topology) outcome) \<Rightarrow> string \<Rightarrow> string \<Rightarrow>
   ('e find_error, Topology) outcome" where
  "loadTopology stat load bindir name =
     (if stat name then wrap_err TopoLoad (load name)
      else case first_existing stat (topology_candidates bindir name) of
        Some p \<Rightarrow> wrap_err TopoLoad (load p)
      | None \<Rightarrow> Fails (NotFound name (topology_candidates bindir name)))"

definition check_profiles :: "string list \<Rightarrow> Component \<Rightarrow> (string \<times> string, unit) outcome" where
  "check_profiles known c =
     for_each (\<lambda>p. guard_err (ps_Profile p \<notin> set known) (c_Name c, ps_Profile p)) (c_Processes c)"

definition validateProfiles :: "string list \<Rightarrow> Topology \<Rightarrow> (string \<times> string, unit) outcome" where
  "validateProfiles known t = for_each (check_profiles known) (Components t)"

section \<open>Commands\<close>

text \<open>
  \<open>binDir\<close> and \<open>rawDir\<close> are clean paths other than \<open>.\<close> and \<open>/\<close>, so \<open>filepath.Join\<close> adds a slash.
\<close>

definition worker_args :: "string \<Rightarrow> Config \<Rightarrow> FlatProcess \<Rightarrow> string \<Rightarrow> string list" where
  "worker_args rawDir rc fp syncSocket =
     [''--profile='' @ fp_Profile fp, ''--run-id='' @ rc_RunID rc, ''--output-dir='' @ rawDir,
      ''--mode='' @ rc_Mode rc, ''--duration='' @ Duration_String (rc_Duration rc),
      ''--replica-id='' @ fp_ReplicaID fp, ''--component='' @ fp_Component fp] @
     (if syncSocket \<noteq> [] then [''--sync-socket='' @ syncSocket] else [])"

definition worker_cmd ::
  "host \<Rightarrow> string list \<Rightarrow> string \<Rightarrow> string \<Rightarrow> Config \<Rightarrow> FlatProcess \<Rightarrow> string \<Rightarrow> Cmd" where
  "worker_cmd h environ binDir rawDir rc fp syncSocket =
     (CommandContext h (path_join binDir ''chaos-worker'') (worker_args rawDir rc fp syncSocket))
       \<lparr>cmd_Env := environ @ (if fp_GOMAXPROCS fp > 0 then [''GOMAXPROCS='' @ Itoa (fp_GOMAXPROCS fp)] else []),
        cmd_Stdout := Some 1, cmd_Stderr := Some 2\<rparr>"

definition victim_args :: "string \<Rightarrow> Config \<Rightarrow> Plan option \<Rightarrow> string list" where
  "victim_args rawDir rc plan =
     (let pinning = (case plan of None \<Rightarrow> vc_PinningCPUs (rc_Victim rc) | Some pl \<Rightarrow> CPUList_String (pl_VictimCPUs pl))
      in [''--mode='' @ vc_Mode (rc_Victim rc), ''--output-dir='' @ rawDir, ''--run-id='' @ rc_RunID rc,
          ''--duration='' @ Duration_String (rc_Duration rc)] @
         (if pinning \<noteq> [] then [''--pinning-cpus='' @ pinning] else []))"

definition victim_cmd :: "host \<Rightarrow> string \<Rightarrow> string \<Rightarrow> Config \<Rightarrow> Plan option \<Rightarrow> Cmd" where
  "victim_cmd h binDir rawDir rc plan =
     (CommandContext h (path_join binDir ''chaos-victim'') (victim_args rawDir rc plan))
       \<lparr>cmd_Stdout := Some 1, cmd_Stderr := Some 2\<rparr>"

definition observer_cmd :: "host \<Rightarrow> string \<Rightarrow> string \<Rightarrow> Config \<Rightarrow> Cmd" where
  "observer_cmd h binDir rawDir rc =
     (CommandContext h (path_join binDir ''chaos-observer'')
       [''--output-dir='' @ rawDir, ''--run-id='' @ rc_RunID rc,
        ''--duration='' @ Duration_String (rc_Duration rc),
        ''--sample-interval='' @ Duration_String (oc_SampleInterval (rc_Observer rc)),
        ''--worker-pid-filter='' @ oc_WorkerPIDFilter (rc_Observer rc)])
       \<lparr>cmd_Stdout := Some 1, cmd_Stderr := Some 2\<rparr>"

text \<open>The environment a started command sees: a nil \<open>Env\<close> inherits the launcher's.\<close>

definition effective_env :: "string list \<Rightarrow> Cmd \<Rightarrow> string list" where
  "effective_env environ cmd = (if cmd_Env cmd = [] then environ else cmd_Env cmd)"

section \<open>Spawning\<close>

record managedProc =
  mp_name :: string
  mp_cmd :: Cmd
  mp_pid :: "int option"

type_synonym tuning = "(Plan \<times> backend) option"

text \<open>The tuned command of a component, or the command itself when no tuning applies.\<close>

definition tune_cmd ::
  "host \<Rightarrow> tuning \<Rightarrow> string \<Rightarrow> string \<Rightarrow> Cmd \<Rightarrow> os_op list \<Rightarrow> (applier_error + Cmd) \<times> os_op list" where
  "tune_cmd h tn component replicaID cmd ops =
     (case tn of
        None \<Rightarrow> (Inr cmd, ops)
      | Some (plan, app) \<Rightarrow>
          (case Plan_FindAssignment plan component replicaID of
             None \<Rightarrow> (Inr cmd, ops)
           | Some a \<Rightarrow> Applier_Wrap app h ops cmd a))"

text \<open>\<open>start\<close> is \<open>cmd.Start\<close> after the given processes: a process id, or nothing on failure.\<close>

type_synonym start_fun = "managedProc list \<Rightarrow> Cmd \<Rightarrow> int option"

definition startProc :: "start_fun \<Rightarrow> managedProc list \<Rightarrow> string \<Rightarrow> Cmd \<Rightarrow> managedProc" where
  "startProc start procs name cmd = \<lparr>mp_name = name, mp_cmd = cmd, mp_pid = start procs cmd\<rparr>"

text \<open>A process to spawn: its name slot, its component and replica, its command.\<close>

type_synonym spawn_item = "string \<times> string \<times> string \<times> Cmd"

definition spawn_items ::
  "host \<Rightarrow> string list \<Rightarrow> string \<Rightarrow> string \<Rightarrow> Config \<Rightarrow> string \<Rightarrow> Plan option \<Rightarrow> FlatProcess list \<Rightarrow> spawn_item list" where
  "spawn_items h environ binDir rawDir rc syncSocket plan flat =
     (''observer'', SpecialChaosObserver, [], observer_cmd h binDir rawDir rc) #
     (''victim'', SpecialChaosVictim, [], victim_cmd h binDir rawDir rc plan) #
     map (\<lambda>fp. (''worker['' @ fp_ReplicaID fp @ '']'', fp_Component fp, fp_ReplicaID fp,
                worker_cmd h environ binDir rawDir rc fp syncSocket)) flat"

text \<open>A failing Wrap is fatal; the processes started before it are left behind.\<close>

fun spawn_all ::
  "host \<Rightarrow> start_fun \<Rightarrow> tuning \<Rightarrow> spawn_item list \<Rightarrow> managedProc list \<Rightarrow> os_op list \<Rightarrow>
   ((string \<times> applier_error) option) \<times> managedProc list \<times> os_op list" where
  "spawn_all h start tn [] procs ops = (None, procs, ops)"
| "spawn_all h start tn ((name, component, replicaID, cmd) # items) procs ops =
     (case tune_cmd h tn component replicaID cmd ops of
        (Inl e, ops') \<Rightarrow> (Some (name, e), procs, ops')
      | (Inr w, ops') \<Rightarrow> spawn_all h start tn items (procs @ [startProc start procs name w]) ops')"

section \<open>Verification\<close>

definition HasSuffix :: "string \<Rightarrow> string \<Rightarrow> bool" where
  "HasSuffix s p \<longleftrightarrow> HasPrefix (rev s) (rev p)"

definition TrimSuffix :: "string \<Rightarrow> string \<Rightarrow> string" where
  "TrimSuffix s p = (if HasSuffix s p then take (length s - length p) s else s)"

text \<open>The verify key of a name slot.\<close>

definition pid_key :: "string \<Rightarrow> string option" where
  "pid_key name =
     (if HasPrefix name ''worker['' \<and> HasSuffix name '']''
      then Some (TrimSuffix (TrimPrefix name ''worker['') '']'')
      else if name = ''victim'' then Some SpecialChaosVictim
      else if name = ''observer'' then Some SpecialChaosObserver else None)"

definition put_pid :: "string \<Rightarrow> int \<Rightarrow> (string \<times> int) list \<Rightarrow> (string \<times> int) list" where
  "put_pid k v m = (k, v) # filter (\<lambda>e. fst e \<noteq> k) m"

fun collect_pids :: "managedProc list \<Rightarrow> (string \<times> int) list \<Rightarrow> (string \<times> int) list" where
  "collect_pids [] m = m"
| "collect_pids (p # ps) m =
     collect_pids ps
       (case mp_pid p of
          None \<Rightarrow> m
        | Some pid \<Rightarrow> (case pid_key (mp_name p) of None \<Rightarrow> m | Some k \<Rightarrow> put_pid k pid m))"

section \<open>The launch\<close>

text \<open>The host as the launcher meets it.\<close>

record world =
  w_host :: host
  w_sysfs :: sysfs
  w_proc :: proc_fs
  w_status :: procfs
  w_start :: start_fun
  w_environ :: "string list"
  w_iter :: iter_order
  w_pids :: pid_order
  w_stat :: "string \<Rightarrow> bool"
  w_listen :: "string \<Rightarrow> bool"
  w_tmp :: string

datatype launch_error =
    UnknownProfile "string \<times> string" | MissingBinary string | SyncFailed
  | PreflightFailed nat | PlanFailed plan_error | NoBackend applier_error
  | PrepareFailed applier_error | WrapFailed string applier_error | VerifyFailed

datatype launch_result =
    Running tuning "managedProc list"
  | Fatal launch_error "managedProc list"
  | Stuck

definition Applier_PrepareHost :: "backend \<Rightarrow> host \<Rightarrow> os_op list \<Rightarrow> (applier_error + unit) \<times> os_op list" where
  "Applier_PrepareHost b h ops =
     (case b of Cgroup \<Rightarrow> cgroup_PrepareHost h ops | Systemd \<Rightarrow> (Inr (), ops) | Taskset \<Rightarrow> (Inr (), ops))"

text \<open>Preflight, plan, back end and host preparation for a loaded profile.\<close>

definition setup_tuning ::
  "world \<Rightarrow> Config \<Rightarrow> PerformanceProfile \<Rightarrow> Topology \<Rightarrow> FlatProcess list \<Rightarrow>
   (launch_error, (Plan \<times> backend) \<times> os_op list) outcome" where
  "setup_tuning w rc prof topo flat =
     (case Preflight (w_sysfs w) prof of
        Hangs \<Rightarrow> Hangs
      | Fails u \<Rightarrow> Hangs
      | Returns report \<Rightarrow>
          and_then (guard_err (length (RequiredFailures report) > 0)
            (PreflightFailed (length (RequiredFailures report)))) (\<lambda>_.
          and_then (wrap_err PlanFailed (BuildPlan (w_iter w) prof topo flat)) (\<lambda>plan.
            case AutoSelect (w_host w) (rc_TuningBackend rc) [] of
              (Inl e, ops) \<Rightarrow> Fails (NoBackend e)
            | (Inr b, ops) \<Rightarrow>
                (case Applier_PrepareHost b (w_host w) ops of
                   (Inl e, ops') \<Rightarrow> Fails (PrepareFailed e)
                 | (Inr _, ops') \<Rightarrow> Returns ((plan, b), ops')))))"

text \<open>
  The strict-mode check after the spawns; a failure terminates the children (\<open>Terminate\<close>) and
  ends the run.
\<close>

definition strict_verify :: "world \<Rightarrow> Plan \<Rightarrow> managedProc list \<Rightarrow> bool option" where
  "strict_verify w plan procs =
     (case resolveInnerPIDs (w_proc w) (w_pids w) (collect_pids procs []) of
        None \<Rightarrow> None
      | Some pids \<Rightarrow>
          (case VerifyAll (w_status w) plan (map_of pids) of
             Returns results \<Rightarrow> Some (\<not> AnyFailed results)
           | Fails u \<Rightarrow> None | Hangs \<Rightarrow> None))"

definition spawn_and_verify ::
  "world \<Rightarrow> Config \<Rightarrow> string \<Rightarrow> string \<Rightarrow> string \<Rightarrow> tuning \<Rightarrow> os_op list \<Rightarrow> FlatProcess list \<Rightarrow> launch_result" where
  "spawn_and_verify w rc binDir rawDir syncSocket tn ops flat =
     (case spawn_all (w_host w) (w_start w) tn
             (spawn_items (w_host w) (w_environ w) binDir rawDir rc syncSocket (map_option fst tn) flat) [] ops of
        (Some (name, e), procs, _) \<Rightarrow> Fatal (WrapFailed name e) procs
      | (None, procs, _) \<Rightarrow>
          (case tn of
             None \<Rightarrow> Running tn procs
           | Some (plan, _) \<Rightarrow>
               (case strict_verify w plan procs of
                  None \<Rightarrow> Stuck
                | Some ok \<Rightarrow> if ok then Running tn procs else Fatal VerifyFailed procs)))"

text \<open>In sync mode the launcher serves a socket named after the run before it spawns anything.\<close>

definition sync_socket :: "world \<Rightarrow> Config \<Rightarrow> string" where
  "sync_socket w rc =
     (if rc_Mode rc = ''sync'' then path_join (w_tmp w) (''chaos-sync-'' @ rc_RunID rc @ ''.sock'') else [])"

definition launch_with ::
  "world \<Rightarrow> Config \<Rightarrow> string \<Rightarrow> string \<Rightarrow> tuning \<Rightarrow> os_op list \<Rightarrow> FlatProcess list \<Rightarrow> launch_result" where
  "launch_with w rc binDir rawDir tn ops flat =
     (if rc_Mode rc = ''sync'' \<and> \<not> w_listen w (sync_socket w rc) then Fatal SyncFailed []
      else spawn_and_verify w rc binDir rawDir (sync_socket w rc) tn ops flat)"

definition missing_binary :: "world \<Rightarrow> string \<Rightarrow> string option" where
  "missing_binary w binDir =
     List.find (\<lambda>name. \<not> w_stat w (path_join binDir name)) [''chaos-worker'', ''chaos-victim'', ''chaos-observer'']"

text \<open>
  \<open>main\<close> from the loaded run config and topology on. \<open>prof\<close> is the performance profile the config
  names, loaded and validated, if it names one. The processes of a \<open>Fatal\<close> are the children
  started by then: after a failed verification the root context is cancelled and \<open>terminate\<close> gets
  them, after a failed Wrap nobody does.
\<close>

definition launch ::
  "world \<Rightarrow> Config \<Rightarrow> PerformanceProfile option \<Rightarrow> Topology \<Rightarrow> string \<Rightarrow> string \<Rightarrow> launch_result" where
  "launch w rc prof topo binDir rawDir =
     (let flat = Topology_Flatten topo (rc_WorkerGOMAXPROCS rc) in
      case validateProfiles profile_Names topo of
        Fails e \<Rightarrow> Fatal (UnknownProfile e) []
      | Hangs \<Rightarrow> Stuck
      | Returns u \<Rightarrow>
          (case missing_binary w binDir of
             Some name \<Rightarrow> Fatal (MissingBinary name) []
           | None \<Rightarrow>
               (case prof of
                  None \<Rightarrow> launch_with w rc binDir rawDir None [] flat
                | Some p \<Rightarrow>
                    (case setup_tuning w rc p topo flat of
                       Returns (tn, ops) \<Rightarrow> launch_with w rc binDir rawDir (Some tn) ops flat
                     | Fails e \<Rightarrow> Fatal e []
                     | Hangs \<Rightarrow> Stuck))))"

section \<open>Lemmas\<close>

lemma setup_tuning_Returns:
  assumes "setup_tuning w rc p topo flat = Returns (tn, ops)"
  obtains report where "Preflight (w_sysfs w) p = Returns report" "RequiredFailures report = []"
    "BuildPlan (w_iter w) p topo flat = Returns (fst tn)"
proof (cases "Preflight (w_sysfs w) p")
  case (Returns report)
  obtain plan where plan: "RequiredFailures report = []" "BuildPlan (w_iter w) p topo flat = Returns plan"
    and rest: "(case AutoSelect (w_host w) (rc_TuningBackend rc) [] of
              (Inl e, ops) \<Rightarrow> Fails (NoBackend e)
            | (Inr b, ops) \<Rightarrow>
                (case Applier_PrepareHost b (w_host w) ops of
                   (Inl e, ops') \<Rightarrow> Fails (PrepareFailed e)
                 | (Inr _, ops') \<Rightarrow> Returns ((plan, b), ops'))) = Returns (tn, ops)"
    using assms unfolding setup_tuning_def Returns by (auto simp: outcome_simps)
  have "fst tn = plan"
    using rest by (auto split: prod.splits sum.splits)
  with Returns plan show thesis by (intro that) auto
qed (use assms in \<open>simp_all add: setup_tuning_def\<close>)

definition spawned :: "host \<Rightarrow> tuning \<Rightarrow> spawn_item \<Rightarrow> managedProc \<Rightarrow> bool" where
  "spawned h tn item p \<longleftrightarrow>
     (case item of (name, component, replicaID, cmd) \<Rightarrow> mp_name p = name \<and>
        (\<exists>ops ops'. tune_cmd h tn component replicaID cmd ops = (Inr (mp_cmd p), ops')))"

lemma spawn_all_spawned:
  "spawn_all h start tn items procs ops = (None, procs', ops') \<Longrightarrow>
   \<exists>new. procs' = procs @ new \<and> list_all2 (spawned h tn) items new"
proof (induction items arbitrary: procs ops)
  case (Cons item items)
  obtain name component replicaID cmd where item: "item = (name, component, replicaID, cmd)"
    by (cases item)
  obtain w ops1 where w: "tune_cmd h tn component replicaID cmd ops = (Inr w, ops1)"
    "spawn_all h start tn items (procs @ [startProc start procs name w]) ops1 = (None, procs', ops')"
    using Cons.prems by (auto simp: item split: prod.splits sum.splits)
  obtain new where new: "procs' = (procs @ [startProc start procs name w]) @ new"
    "list_all2 (spawned h tn) items new" using Cons.IH [OF w(2)] by blast
  have "spawned h tn item (startProc start procs name w)"
    using w(1) by (auto simp: spawned_def item startProc_def)
  with new show ?case by (intro exI [of _ "startProc start procs name w # new"]) simp
qed simp

text \<open>A launch that reaches the run, taken apart.\<close>

lemma launch_Running:
  assumes "launch w rc (Some p) topo binDir rawDir = Running tn procs"
  obtains pl app report where "tn = Some (pl, app)"
    "Preflight (w_sysfs w) p = Returns report" "RequiredFailures report = []"
    "BuildPlan (w_iter w) p topo (Topology_Flatten topo (rc_WorkerGOMAXPROCS rc)) = Returns pl"
    "list_all2 (spawned (w_host w) tn)
       (spawn_items (w_host w) (w_environ w) binDir rawDir rc (sync_socket w rc) (Some pl)
         (Topology_Flatten topo (rc_WorkerGOMAXPROCS rc))) procs"
    "strict_verify w pl procs = Some True"
proof -
  let ?flat = "Topology_Flatten topo (rc_WorkerGOMAXPROCS rc)" and ?sock = "sync_socket w rc"
  obtain t ops where tuned: "setup_tuning w rc p topo ?flat = Returns (t, ops)"
    and run: "spawn_and_verify w rc binDir rawDir ?sock (Some t) ops ?flat = Running tn procs"
    using assms
    by (auto simp: launch_def launch_with_def Let_def split: outcome.splits prod.splits option.splits if_splits)
  obtain pl app where t: "t = (pl, app)" by (cases t)
  from tuned obtain report where report: "Preflight (w_sysfs w) p = Returns report"
    "RequiredFailures report = []" "BuildPlan (w_iter w) p topo ?flat = Returns pl"
    by (rule setup_tuning_Returns) (simp add: t)
  obtain ops' where spawn: "spawn_all (w_host w) (w_start w) (Some t)
      (spawn_items (w_host w) (w_environ w) binDir rawDir rc ?sock (Some pl) ?flat) [] ops = (None, procs, ops')"
    and ok: "tn = Some t" "strict_verify w pl procs = Some True"
    using run by (auto simp: spawn_and_verify_def t split: prod.splits option.splits if_splits)
  show thesis
    using that [OF _ report] spawn_all_spawned [OF spawn] ok t by auto
qed

lemma strict_verify_Some:
  assumes "strict_verify w pl procs = Some True"
  obtains pids rs where "resolveInnerPIDs (w_proc w) (w_pids w) (collect_pids procs []) = Some pids"
    "VerifyAll (w_status w) pl (map_of pids) = Returns rs" "\<not> AnyFailed rs"
  using assms by (auto simp: strict_verify_def split: option.splits outcome.splits)

lemma spawned_tuned:
  assumes "spawned h (Some (pl, app)) (name, component, replicaID, cmd) p"
    and "Plan_FindAssignment pl component replicaID = Some a"
  shows "\<exists>ops ops'. Applier_Wrap app h ops cmd a = (Inr (mp_cmd p), ops')"
  using assms by (auto simp: spawned_def tune_cmd_def)

end
