(* ===== verification/GoFlags.thy ===== *)
theory GoFlags
  imports GoStrings
begin

text \<open>
  Go's \<open>flag\<close> package as the commands use it: a table of flag variables and \<open>FlagSet.Parse\<close>, with
  one or two dashes, values after an equals sign or in the next argument, boolean flags, and the end
  of the flags at the first argument that is none.
\<close>

section \<open>Flag variables\<close>

text \<open>What a flag does to the record of flags: a boolean takes no argument; the others may reject it.\<close>

datatype 'f flag_var = Bool_flag "bool \<Rightarrow> 'f \<Rightarrow> 'f" | Value_flag "string \<Rightarrow> 'f \<Rightarrow> 'f option"

type_synonym 'f flag_table = "(string \<times> 'f flag_var) list"

definition StringVar :: "((string \<Rightarrow> string) \<Rightarrow> 'f \<Rightarrow> 'f) \<Rightarrow> 'f flag_var" where
  "StringVar upd = Value_flag (\<lambda>v f. Some (upd (\<lambda>_. v) f))"

text \<open>Durations and integers come with their readers, \<open>time.ParseDuration\<close> and \<open>ParseInt\<close> of base 0.\<close>

definition IntVar :: "(string \<Rightarrow> int option) \<Rightarrow> ((int \<Rightarrow> int) \<Rightarrow> 'f \<Rightarrow> 'f) \<Rightarrow> 'f flag_var" where
  "IntVar parse upd = Value_flag (\<lambda>v f. map_option (\<lambda>n. upd (\<lambda>_. n) f) (parse v))"

definition BoolVar :: "((bool \<Rightarrow> bool) \<Rightarrow> 'f \<Rightarrow> 'f) \<Rightarrow> 'f flag_var" where
  "BoolVar upd = Bool_flag (\<lambda>b. upd (\<lambda>_. b))"

definition ParseBool :: "string \<Rightarrow> bool option" where
  "ParseBool s =
     (if s \<in> {''1'', ''t'', ''T'', ''true'', ''TRUE'', ''True''} then Some True
      else if s \<in> {''0'', ''f'', ''F'', ''false'', ''FALSE'', ''False''} then Some False
      else None)"

section \<open>Parse\<close>

text \<open>
  With \<open>ExitOnError\<close> a request for help exits with 0 and a bad flag with 2; both print to standard
  error first.
\<close>

datatype 'f parsed = Parsed 'f | Wants_help | Bad_flag string

definition set_bool :: "(bool \<Rightarrow> 'f \<Rightarrow> 'f) \<Rightarrow> string option \<Rightarrow> 'f \<Rightarrow> 'f option" where
  "set_bool put val f =
     (case val of None \<Rightarrow> Some (put True f) | Some v \<Rightarrow> map_option (\<lambda>b. put b f) (ParseBool v))"

text \<open>The name of a flag and its value, when there is an equals sign past the first character.\<close>

definition name_and_value :: "string \<Rightarrow> string \<times> string option" where
  "name_and_value s =
     (let i = Index (tl s) CHR ''='' in
      if i < 0 then (s, None) else (take (nat i + 1) s, Some (drop (nat i + 2) s)))"

definition flag_text :: "string \<Rightarrow> string" where
  "flag_text s = (if s ! 1 = CHR ''-'' then drop 2 s else drop 1 s)"

fun parse_flags :: "'f flag_table \<Rightarrow> string list \<Rightarrow> 'f \<Rightarrow> 'f parsed" where
  "parse_flags tab [] f = Parsed f"
| "parse_flags tab (s # args) f =
     (if length s < 2 \<or> hd s \<noteq> CHR ''-'' \<or> s = ''--'' then Parsed f
      else if flag_text s = [] \<or> hd (flag_text s) = CHR ''-'' \<or> hd (flag_text s) = CHR ''='' then Bad_flag s
      else case name_and_value (flag_text s) of (name, val) \<Rightarrow>
        (case map_of tab name of
           None \<Rightarrow> if name = ''help'' \<or> name = ''h'' then Wants_help else Bad_flag name
         | Some (Bool_flag put) \<Rightarrow>
             (case set_bool put val f of None \<Rightarrow> Bad_flag name | Some f' \<Rightarrow> parse_flags tab args f')
         | Some (Value_flag put) \<Rightarrow>
             (case val of
                Some v \<Rightarrow>
                  (case put v f of None \<Rightarrow> Bad_flag name | Some f' \<Rightarrow> parse_flags tab args f')
              | None \<Rightarrow>
                  (case args of
                     [] \<Rightarrow> Bad_flag name
                   | v # args' \<Rightarrow>
                       (case put v f of None \<Rightarrow> Bad_flag name | Some f' \<Rightarrow> parse_flags tab args' f')))))"

section \<open>Lemmas\<close>

text \<open>A name with a value that sets it, in the one form the launcher uses.\<close>

definition plain_name :: "string \<Rightarrow> bool" where
  "plain_name name \<longleftrightarrow> name \<noteq> [] \<and> hd name \<noteq> CHR ''-'' \<and> CHR ''='' \<notin> set name"

lemma name_and_value_eq: "plain_name name \<Longrightarrow> name_and_value (name @ CHR ''='' # v) = (name, Some v)"
proof -
  assume name: "plain_name name"
  then obtain c cs where cs: "name = c # cs" "CHR ''='' \<notin> set cs" by (cases name) (auto simp: plain_name_def)
  then have "Index (tl (name @ CHR ''='' # v)) CHR ''='' = int (length cs)" by (simp add: Index_first)
  then show ?thesis using cs by (simp add: name_and_value_def)
qed

lemma parse_flags_value:
  assumes "plain_name name" "map_of tab name = Some (Value_flag put)" "put v f = Some f'"
  shows "parse_flags tab ((''--'' @ name @ CHR ''='' # v) # args) f = parse_flags tab args f'"
proof -
  obtain c cs where name: "name = c # cs" "c \<noteq> CHR ''-''" "c \<noteq> CHR ''=''"
    using assms(1) by (cases name) (auto simp: plain_name_def)
  have "flag_text (''--'' @ name @ CHR ''='' # v) = name @ CHR ''='' # v" by (simp add: flag_text_def)
  then show ?thesis using name_and_value_eq [OF assms(1), of v] name assms(2,3) by simp
qed

lemma parse_flags_string:
  assumes "map_of tab name = Some (StringVar upd)" "plain_name name"
  shows "parse_flags tab ((''--'' @ name @ CHR ''='' # v) # args) f = parse_flags tab args (upd (\<lambda>_. v) f)"
  by (rule parse_flags_value [OF assms(2), of _ "\<lambda>v f. Some (upd (\<lambda>_. v) f)"])
    (simp_all add: assms(1) StringVar_def)

lemma parse_flags_int:
  assumes "map_of tab name = Some (IntVar parse upd)" "plain_name name" "parse v = Some n"
  shows "parse_flags tab ((''--'' @ name @ CHR ''='' # v) # args) f = parse_flags tab args (upd (\<lambda>_. n) f)"
  by (rule parse_flags_value [OF assms(2), of _ "\<lambda>v f. map_option (\<lambda>n. upd (\<lambda>_. n) f) (parse v)"])
    (simp_all add: assms(1,3) IntVar_def)

end
