(* ===== verification/Victim.thy ===== *)
theory Victim
  imports Launcher GoFlags Workload
begin

text \<open>
  \<open>cmd/chaos-victim\<close>: the command line, the CPU set the victim pins itself to, the wake-up loop with
  its catch-up rule, the deadline arithmetic and the request pacing of the HTTP mode. The clock, the
  system calls and the HDR histograms are parameters.
\<close>

section \<open>Command line\<close>

record victim_flags =
  vf_mode :: string
  vf_pinningCPUs :: string
  vf_outputDir :: string
  vf_runID :: string
  vf_duration :: int
  vf_httpAddr :: string
  vf_rps :: int
  vf_showVersion :: bool

definition victim_defaults :: victim_flags where
  "victim_defaults = \<lparr>vf_mode = ''hires_jitter'', vf_pinningCPUs = [], vf_outputDir = [], vf_runID = [],
     vf_duration = 600 * second_ns, vf_httpAddr = ''127.0.0.1:0'', vf_rps = 100, vf_showVersion = False\<rparr>"

definition victim_table :: "(string \<Rightarrow> int option) \<Rightarrow> (string \<Rightarrow> int option) \<Rightarrow> victim_flags flag_table" where
  "victim_table parse_duration parse_int =
     [(''mode'', StringVar vf_mode_update), (''pinning-cpus'', StringVar vf_pinningCPUs_update),
      (''output-dir'', StringVar vf_outputDir_update), (''run-id'', StringVar vf_runID_update),
      (''duration'', IntVar parse_duration vf_duration_update), (''http-addr'', StringVar vf_httpAddr_update),
      (''rps'', IntVar parse_int vf_rps_update), (''version'', BoolVar vf_showVersion_update)]"

datatype victim_error = VBadMode string | VNoOutputDir | VNoRunID

definition check_victim_flags :: "victim_flags \<Rightarrow> victim_error option" where
  "check_victim_flags f =
     (if vf_showVersion f then None
      else if vf_mode f \<noteq> ''hires_jitter'' \<and> vf_mode f \<noteq> ''http_rtt'' then Some (VBadMode (vf_mode f))
      else if vf_outputDir f = [] then Some VNoOutputDir
      else if vf_runID f = [] then Some VNoRunID
      else None)"

section \<open>parseCPUSet\<close>

datatype cpuset_error = BadCPURange string | BadCPUId string

text \<open>The loop over a range appends to a slice; like the tuning package's it wraps around at the end.\<close>

partial_function (option) append_range :: "int \<Rightarrow> int \<Rightarrow> int list \<Rightarrow> int list option" where
  "append_range c hi out =
     (if c \<le> hi then append_range (wrap64 (c + 1)) hi (out @ [c]) else Some out)"

declare append_range.simps [code]

fun cpuset_parts :: "string list \<Rightarrow> int list \<Rightarrow> (cpuset_error, int list) outcome" where
  "cpuset_parts [] out = Returns out"
| "cpuset_parts (p # ps) out =
     (let part = TrimSpace p in
      if part = [] then cpuset_parts ps out
      else let i = Index part CHR ''-'' in
      if i > 0 then
        (let (lo, err1) = Atoi (take (nat i) part);
             (hi, err2) = Atoi (drop (nat i + 1) part)
         in if err1 \<noteq> None \<or> err2 \<noteq> None \<or> lo > hi then Fails (BadCPURange part)
            else (case append_range lo hi out of
                None \<Rightarrow> Hangs
              | Some out' \<Rightarrow> cpuset_parts ps out'))
      else
        (let (c, err) = Atoi part
         in if err \<noteq> None then Fails (BadCPUId part) else cpuset_parts ps (out @ [c])))"

definition parseCPUSet :: "string \<Rightarrow> (cpuset_error, int list) outcome" where
  "parseCPUSet s = cpuset_parts (Split CHR '','' s) []"

text \<open>\<open>pinSelf\<close>: \<open>set_affinity\<close> is the library call on the CPUs of the set; nil means success.\<close>

definition pinSelf :: "(int list \<Rightarrow> 'e option) \<Rightarrow> string \<Rightarrow> (cpuset_error + 'e, unit) outcome" where
  "pinSelf set_affinity cpuSet =
     (case parseCPUSet cpuSet of
        Returns cpus \<Rightarrow> (case set_affinity cpus of None \<Rightarrow> Returns () | Some e \<Rightarrow> Fails (Inr e))
      | Fails e \<Rightarrow> Fails (Inl e)
      | Hangs \<Rightarrow> Hangs)"

text \<open>
  \<open>main\<close> on parsed flags, up to the measurement: the exit with 2, the version, or the mode with the
  pinning error that is printed and otherwise ignored.
\<close>

datatype 'e victim_begin = VExits victim_error | VVersion | VStarts string "'e option" | VNever

definition victim_begins ::
  "(int list \<Rightarrow> 'e option) \<Rightarrow> victim_flags \<Rightarrow> (cpuset_error + 'e) victim_begin" where
  "victim_begins set_affinity f =
     (case check_victim_flags f of
        Some e \<Rightarrow> VExits e
      | None \<Rightarrow>
          if vf_showVersion f then VVersion
          else if vf_pinningCPUs f = [] then VStarts (vf_mode f) None
          else (case pinSelf set_affinity (vf_pinningCPUs f) of
              Returns _ \<Rightarrow> VStarts (vf_mode f) None
            | Fails e \<Rightarrow> VStarts (vf_mode f) (Some e)
            | Hangs \<Rightarrow> VNever))"

section \<open>The jitter loop\<close>

definition jitter_period :: int where
  "jitter_period = 1000000"

definition catch_up_limit :: int where
  "catch_up_limit = 100 * 1000000"

text \<open>One iteration: the recorded jitter and the next target, for a wake-up at \<open>actual\<close>.\<close>

definition jitter_of :: "int \<Rightarrow> int \<Rightarrow> int" where
  "jitter_of target actual = (if actual - target < 0 then 0 else actual - target)"

definition next_target :: "int \<Rightarrow> int \<Rightarrow> int" where
  "next_target target actual =
     (let target' = target + jitter_period in
      if actual - target' > catch_up_limit then actual + jitter_period else target')"

fun jitter_loop :: "int \<Rightarrow> int list \<Rightarrow> int list \<times> int" where
  "jitter_loop target [] = ([], target)"
| "jitter_loop target (actual # wakeups) =
     (let (js, end_target) = jitter_loop (next_target target actual) wakeups
      in (jitter_of target actual # js, end_target))"

section \<open>Sleeping\<close>

text \<open>\<open>sleepUntil\<close>: the deadline on the monotonic clock, as seconds and nanoseconds; none if past.\<close>

definition sleep_timespec :: "int \<Rightarrow> int \<Rightarrow> int \<Rightarrow> (int \<times> int) option" where
  "sleep_timespec target now mono_now =
     (let wait = target - now in
      if wait \<le> 0 then None
      else let deadline = mono_now + wait in Some (go_div deadline second_ns, go_mod deadline second_ns))"

datatype sleep_result = Slept | Interrupted | SleepError int

text \<open>\<open>sleepUntilMono\<close> repeats an interrupted call; \<open>call k\<close> is the \<open>k\<close>-th result.\<close>

partial_function (option) sleep_loop :: "(nat \<Rightarrow> sleep_result) \<Rightarrow> nat \<Rightarrow> int option option" where
  "sleep_loop call k =
     (case call k of
        Slept \<Rightarrow> Some None
      | Interrupted \<Rightarrow> sleep_loop call (k + 1)
      | SleepError e \<Rightarrow> Some (Some e))"

section \<open>Output\<close>

text \<open>
  A row of the bucket file from the quantiles of a histogram, and the lines of the snapshot from its
  bars; the time stamp's rendering is a parameter.
\<close>

definition micros :: "int \<Rightarrow> string" where
  "micros ns = Itoa (go_div ns 1000)"

definition bucket_row :: "string \<Rightarrow> int \<times> int \<times> int \<times> int \<Rightarrow> int \<Rightarrow> int \<Rightarrow> string list" where
  "bucket_row ts quantiles maxV count =
     (case quantiles of (p50, p95, p99, p999) \<Rightarrow>
        [ts, micros p50, micros p95, micros p99, micros p999, micros maxV, Itoa count])"

definition snapshot_lines :: "(int \<times> int) list \<Rightarrow> string list" where
  "snapshot_lines bars =
     (''# HDR snapshot '' @ em_dash @ '' value_ns count'') #
     map (\<lambda>(upto, count). Itoa upto @ CHR 0x09 # Itoa count) (filter (\<lambda>(upto, count). count \<noteq> 0) bars)"

section \<open>HTTP mode\<close>

text \<open>The request period; division by zero panics, and so does a ticker that is not positive.\<close>

definition http_interval :: "int \<Rightarrow> int start" where
  "http_interval rps =
     (if rps = 0 then Panics else let interval = go_div second_ns rps in with_ticker interval interval)"

section \<open>Lemmas\<close>

lemma append_range_eq:
  "min_int \<le> c \<Longrightarrow> hi < max_int \<Longrightarrow> append_range c hi out = Some (out @ [c..hi])"
proof (induction "nat (hi + 1 - c)" arbitrary: c out)
  case 0
  then show ?case by (subst append_range.simps) simp
next
  case (Suc n)
  then have le: "c \<le> hi" by simp
  have "wrap64 (c + 1) = c + 1" using Suc.prems le by (simp add: wrap64_id)
  moreover have "append_range (c + 1) hi (out @ [c]) = Some ((out @ [c]) @ [c + 1..hi])"
    using Suc by (intro Suc.hyps(1)) simp_all
  moreover have "[c..hi] = c # [c + 1..hi]" using le by (rule upto_rec1)
  ultimately show ?case using le by (subst append_range.simps) simp
qed

text \<open>The parser of the victim on the grammar of CPU lists: the CPUs of each piece, in order.\<close>

fun piece_list :: "piece \<Rightarrow> int list" where
  "piece_list (Single c) = [c]"
| "piece_list (Span lo hi) = [lo..hi]"

lemma set_piece_list [simp]: "set (piece_list p) = piece_cpus p"
  by (cases p) simp_all

lemma cpuset_parts_piece:
  assumes "valid_piece p"
  shows "cpuset_parts (render_piece p # ps) out = cpuset_parts ps (out @ piece_list p)"
proof (cases p)
  case (Single c)
  then have "Atoi (Itoa c) = (c, None)" "Index (Itoa c) CHR ''-'' = - 1"
    using assms by (auto intro!: Atoi_Itoa simp: min_int_def Index_notin Itoa_nonneg_no_minus)
  then show ?thesis using Single TrimSpace_render_piece [of p] by (simp add: Let_def)
next
  case (Span lo hi)
  then have "append_range lo hi out = Some (out @ [lo..hi])"
    using assms by (intro append_range_eq) (auto simp: min_int_def)
  moreover have "Atoi (Itoa lo) = (lo, None)" "Atoi (Itoa hi) = (hi, None)"
    using assms Span by (auto intro!: Atoi_Itoa simp: min_int_def)
  ultimately show ?thesis
    using assms Span TrimSpace_render_piece [of p] by (simp add: Let_def Index_span)
qed

lemma cpuset_parts_pieces:
  "\<forall>p \<in> set ps. valid_piece p \<Longrightarrow>
   cpuset_parts (map render_piece ps) out = Returns (out @ concat (map piece_list ps))"
  by (induction ps arbitrary: out) (auto simp: cpuset_parts_piece simp del: cpuset_parts.simps(2))

lemma parseCPUSet_pieces:
  assumes "ps \<noteq> []" "\<forall>p \<in> set ps. valid_piece p"
  shows "parseCPUSet (join '','' (map render_piece ps)) = Returns (concat (map piece_list ps))"
proof -
  have "Split CHR '','' (join '','' (map render_piece ps)) = map render_piece ps"
    using assms(1) by (intro Split_join) (auto simp: render_piece_no_comma)
  then show ?thesis using assms(2) by (simp add: parseCPUSet_def cpuset_parts_pieces)
qed

lemma piece_list_mk_piece: "start \<le> prev \<Longrightarrow> piece_list (mk_piece start prev) = [start..prev]"
  by (simp add: mk_piece_def)

lemma concat_runs:
  "start \<le> prev \<Longrightarrow> sorted_wrt (<) (prev # cs) \<Longrightarrow>
   concat (map piece_list (CPUList.runs cs start prev)) = [start..prev] @ cs"
proof (induction cs start prev rule: CPUList.runs.induct)
  case (2 c cs start prev)
  show ?case
  proof (cases "c = prev + 1")
    case True
    then have "[start..c] = [start..prev] @ [c]" using "2.prems" upto_rec2 [of start c] by simp
    with 2 True show ?thesis by simp
  next
    case False
    with 2 show ?thesis by (simp add: piece_list_mk_piece)
  qed
qed (simp add: piece_list_mk_piece)

lemma parseCPUSet_String:
  assumes "wf_cpus l" "max_int \<notin> set l" shows "parseCPUSet (CPUList_String l) = Returns l"
proof (cases l)
  case Nil
  then show ?thesis by (simp add: parseCPUSet_def)
next
  case (Cons c cs)
  have sorted: "strict_sorted (c # cs)" using assms Cons by (simp add: wf_cpus_def)
  have "\<forall>x \<in> set l. x < max_int" using assms by (metis wf_cpus_def order_le_less)
  then have "\<forall>p \<in> set (CPUList.runs cs c c). valid_piece p"
    using assms Cons sorted by (intro runs_valid) (auto simp: wf_cpus_def)
  then have "parseCPUSet (CPUList_String l) = Returns (concat (map piece_list (CPUList.runs cs c c)))"
    using Cons sorted by (simp add: String_eq_runs parseCPUSet_pieces)
  also have "concat (map piece_list (CPUList.runs cs c c)) = l"
    using Cons sorted by (subst concat_runs) auto
  finally show ?thesis .
qed

lemma next_target_ge: "target + jitter_period \<le> next_target target actual"
  by (simp add: next_target_def jitter_period_def catch_up_limit_def Let_def)

lemma next_target_close: "actual - next_target target actual \<le> catch_up_limit"
  by (simp add: next_target_def jitter_period_def catch_up_limit_def Let_def)

lemma jitter_of_eq: "jitter_of target actual = max 0 (actual - target)"
  by (simp add: jitter_of_def)

lemma jitter_loop_end:
  "jitter_loop target ws = (js, e) \<Longrightarrow>
   length js = length ws \<and> target + int (length ws) * jitter_period \<le> e \<and>
   (ws \<noteq> [] \<longrightarrow> last ws - e \<le> catch_up_limit)"
proof (induction ws arbitrary: target js e)
  case (Cons w ws)
  obtain js' where js: "jitter_loop (next_target target w) ws = (js', e)" "js = jitter_of target w # js'"
    using Cons.prems by (auto split: prod.splits)
  have "ws = [] \<Longrightarrow> e = next_target target w" using js(1) by simp
  with Cons.IH [OF js(1)] js(2) next_target_ge [of target w] next_target_close [of w target]
  show ?case by (auto simp: algebra_simps)
qed simp

lemma jitter_loop_on_time:
  "jitter_loop target ws = (js, e) \<Longrightarrow>
   \<forall>i < length ws. ws ! i \<le> target + (int i + 1) * jitter_period + catch_up_limit \<Longrightarrow>
   e = target + int (length ws) * jitter_period \<and>
   (\<forall>i < length ws. js ! i = max 0 (ws ! i - (target + int i * jitter_period)))"
proof (induction ws arbitrary: target js e)
  case (Cons w ws)
  obtain js' where js: "jitter_loop (next_target target w) ws = (js', e)" "js = jitter_of target w # js'"
    using Cons.prems(1) by (auto split: prod.splits)
  have "w \<le> target + jitter_period + catch_up_limit" using Cons.prems(2) by fastforce
  then have nt: "next_target target w = target + jitter_period" by (simp add: next_target_def Let_def)
  have "\<forall>i < length ws. ws ! i \<le> (target + jitter_period) + (int i + 1) * jitter_period + catch_up_limit"
    using Cons.prems(2) by (fastforce simp: algebra_simps)
  from Cons.IH [OF js(1) [unfolded nt] this]
  show ?case by (auto simp: js(2) jitter_of_eq algebra_simps nth_Cons split: nat.splits)
qed simp

text \<open>Interrupted sleeps are repeated until the first other result, which is the loop's.\<close>

lemma sleep_loop_result:
  assumes "\<forall>j < n. call (k + j) = Interrupted" "call (k + n) \<noteq> Interrupted"
  shows "sleep_loop call k = Some (case call (k + n) of SleepError e \<Rightarrow> Some e | _ \<Rightarrow> None)"
  using assms
proof (induction n arbitrary: k)
  case 0
  then show ?case by (subst sleep_loop.simps) (simp split: sleep_result.splits)
next
  case (Suc n)
  have "call k = Interrupted" using Suc.prems(1) by (metis add_0_right zero_less_Suc)
  moreover have "sleep_loop call (Suc k) = Some (case call (Suc k + n) of SleepError e \<Rightarrow> Some e | _ \<Rightarrow> None)"
    using Suc.prems by (intro Suc.IH) (auto simp flip: add_Suc_right)
  ultimately show ?case by (subst sleep_loop.simps) simp
qed

section \<open>Properties\<close>

text \<open>
  C28. The jitter loop keeps its rate: it records one value per wake-up, never schedules more than
  one wake-up per period, and after each iteration is at most 100 ms behind; and as long as no
  wake-up is later than that, the targets form the exact 1 kHz grid and every recorded value is the
  lateness against the grid, so no error accumulates.
\<close>

theorem jitter_loop_paced:
  assumes "jitter_loop target ws = (js, e)"
  shows "length js = length ws \<and> target + int (length ws) * jitter_period \<le> e \<and>
    (ws \<noteq> [] \<longrightarrow> last ws - e \<le> catch_up_limit) \<and>
    ((\<forall>i < length ws. ws ! i \<le> target + (int i + 1) * jitter_period + catch_up_limit) \<longrightarrow>
      e = target + int (length ws) * jitter_period \<and>
      (\<forall>i < length ws. js ! i = max 0 (ws ! i - (target + int i * jitter_period))))"
  using jitter_loop_end [OF assms] jitter_loop_on_time [OF assms] by blast

theorem jitter_loop_paced_witness:
  "\<exists>js e. jitter_loop 1000000 [1000050, 200000000, 201500000] = (js, e) \<and> length js = 3 \<and> 4000000 \<le> e"
proof -
  obtain js e where "jitter_loop 1000000 [1000050, 200000000, 201500000] = (js, e)" by fastforce
  from this jitter_loop_paced [OF this] show ?thesis by (auto simp: jitter_period_def)
qed

text \<open>
  The HTTP mode runs for exactly the request rates from 1 to \<open>10^9\<close> per second and panics on
  every other value of --rps; its interval is the longest whole number of nanoseconds that reaches
  the rate.
\<close>

theorem http_interval_exact:
  "(http_interval rps = Panics \<longleftrightarrow> rps \<le> 0 \<or> second_ns < rps) \<and>
   (\<forall>i. http_interval rps = Runs i \<longrightarrow> 0 < i \<and> rps * i \<le> second_ns \<and> second_ns < rps * (i + 1))"
proof (cases "0 < rps")
  case True
  have "0 < second_ns div rps \<longleftrightarrow> rps \<le> second_ns"
    using True by (auto simp: second_ns_def pos_imp_zdiv_pos_iff)
  moreover have "rps * (second_ns div rps) \<le> second_ns" "second_ns < rps * (second_ns div rps + 1)"
    using True by (auto simp: distrib_left pos_mod_bound minus_mod_eq_mult_div [symmetric])
  ultimately show ?thesis
    using True by (auto simp: http_interval_def with_ticker_def Let_def go_div_nonneg second_ns_def)
next
  case False
  then have "rps = 0 \<or> go_div second_ns rps \<le> 0"
    by (auto simp: go_div_def second_ns_def mult_le_0_iff pos_imp_zdiv_nonneg_iff)
  with False show ?thesis by (auto simp: http_interval_def with_ticker_def Let_def)
qed

end
