(* ===== verification/RuntimeInfo.thy ===== *)
theory RuntimeInfo
  imports CPUList "HOL-Library.Word"
begin

unbundle bit_operations_syntax

text \<open>
  \<open>pkg/runtimeinfo\<close>: what a worker reports about itself, on Linux: its CPU affinity from the mask
  that \<open>sched_getaffinity\<close> fills, its cgroup limits, its thread count and resident memory. The
  content of a file, or nothing, is a parameter, and so is the result of the system call.
\<close>

section \<open>FormatCPUSet\<close>

definition format_flush :: "string \<Rightarrow> int \<Rightarrow> int \<Rightarrow> string" where
  "format_flush sb start prev =
     (if sb \<noteq> [] then sb @ '','' else sb) @
     (if start = prev then Itoa start else Itoa start @ ''-'' @ Itoa prev)"

fun format_loop :: "int list \<Rightarrow> string \<Rightarrow> int \<Rightarrow> int \<Rightarrow> string" where
  "format_loop [] sb start prev = format_flush sb start prev"
| "format_loop (c # cs) sb start prev =
     (if c = prev + 1 then format_loop cs sb start c
      else format_loop cs (format_flush sb start prev) c c)"

definition FormatCPUSet :: "int list \<Rightarrow> string" where
  "FormatCPUSet cpus = (case cpus of [] \<Rightarrow> [] | c # cs \<Rightarrow> format_loop cs [] c c)"

section \<open>readAffinity\<close>

definition cpuSetBytes :: int where
  "cpuSetBytes = 128"

definition byte_cpus :: "int \<Rightarrow> 8 word \<Rightarrow> int list" where
  "byte_cpus byteIdx b =
     (if b = 0 then []
      else map (\<lambda>k. byteIdx * 8 + int k) (filter (\<lambda>k. b AND push_bit k 1 \<noteq> 0) [0..<8]))"

fun mask_cpus :: "int \<Rightarrow> 8 word list \<Rightarrow> int list" where
  "mask_cpus byteIdx [] = []"
| "mask_cpus byteIdx (b # bs) = byte_cpus byteIdx b @ mask_cpus (byteIdx + 1) bs"

text \<open>The system call's return value, its error number and the mask it left behind.\<close>

definition readAffinity :: "int \<times> int \<times> 8 word list \<Rightarrow> string" where
  "readAffinity call =
     (case call of (r1, errno, msk) \<Rightarrow>
        if errno \<noteq> 0 \<or> r1 < 0 then []
        else let cpus = mask_cpus 0 msk in if cpus = [] then [] else FormatCPUSet cpus)"

section \<open>readCgroup\<close>

fun cgroup_base :: "string list \<Rightarrow> string option" where
  "cgroup_base [] = None"
| "cgroup_base (line # lines) =
     (let parts = SplitN CHR '':'' line 3 in
      if length parts \<noteq> 3 then cgroup_base lines
      else if parts ! 0 \<noteq> ''0'' then cgroup_base lines
      else Some (''/sys/fs/cgroup'' @ parts ! 2))"

definition trimmed_file :: "(string \<Rightarrow> string option) \<Rightarrow> string \<Rightarrow> string" where
  "trimmed_file file path = (case file path of None \<Rightarrow> [] | Some b \<Rightarrow> TrimSpace b)"

definition readCgroup :: "(string \<Rightarrow> string option) \<Rightarrow> string \<times> string" where
  "readCgroup file =
     (case file ''/proc/self/cgroup'' of
        None \<Rightarrow> ([], [])
      | Some cg \<Rightarrow>
          (case cgroup_base (Split CHR 0x0A (TrimSpace cg)) of
             None \<Rightarrow> ([], [])
           | Some base \<Rightarrow>
               (trimmed_file file (base @ ''/cpu.max''), trimmed_file file (base @ ''/cpuset.cpus.effective''))))"

section \<open>Capture\<close>

record Snapshot =
  sn_GoVersion :: string
  sn_GOMAXPROCS :: int
  sn_NumCPU :: int
  sn_Affinity :: string
  sn_CgroupQuota :: string
  sn_CgroupCPUSet :: string
  sn_PID :: int

text \<open>What the Go runtime answers is a parameter: version, GOMAXPROCS, processors, process id.\<close>

definition Capture ::
  "string \<times> int \<times> int \<times> int \<Rightarrow> int \<times> int \<times> 8 word list \<Rightarrow> (string \<Rightarrow> string option) \<Rightarrow> Snapshot" where
  "Capture rt call file =
     (case rt of (goversion, procs, ncpu, pid) \<Rightarrow>
        \<lparr>sn_GoVersion = goversion, sn_GOMAXPROCS = procs, sn_NumCPU = ncpu, sn_Affinity = readAffinity call,
         sn_CgroupQuota = fst (readCgroup file), sn_CgroupCPUSet = snd (readCgroup file), sn_PID = pid\<rparr>)"

section \<open>/proc/self/status\<close>

fun threads_in :: "string list \<Rightarrow> int" where
  "threads_in [] = 0"
| "threads_in (line # lines) =
     (if \<not> HasPrefix line ''Threads:'' then threads_in lines
      else let fields = Fields line in
        if length fields \<noteq> 2 then 0
        else case Atoi (fields ! 1) of (n, err) \<Rightarrow> if err \<noteq> None then 0 else n)"

definition ReadThreads :: "(string \<Rightarrow> string option) \<Rightarrow> int" where
  "ReadThreads file =
     (case file ''/proc/self/status'' of None \<Rightarrow> 0 | Some s \<Rightarrow> threads_in (scan_lines s))"

text \<open>The product with 1024 is one of 64-bit integers.\<close>

fun rss_in :: "string list \<Rightarrow> int" where
  "rss_in [] = 0"
| "rss_in (line # lines) =
     (if \<not> HasPrefix line ''VmRSS:'' then rss_in lines
      else let fields = Fields line in
        if length fields < 2 then 0
        else case ParseInt (fields ! 1) of (n, err) \<Rightarrow> if err \<noteq> None then 0 else wrap64 (n * 1024))"

definition ReadRSSBytes :: "(string \<Rightarrow> string option) \<Rightarrow> int" where
  "ReadRSSBytes file =
     (case file ''/proc/self/status'' of None \<Rightarrow> 0 | Some s \<Rightarrow> rss_in (scan_lines s))"

section \<open>FormatCPUSet renders as CPU lists do\<close>

lemma format_flush_eq: "format_flush sb start prev = flush_range start prev sb"
  by (simp add: format_flush_def flush_range_def)

lemma format_loop_eq: "format_loop cs sb start prev = string_loop cs start prev sb"
  by (induction cs arbitrary: sb start prev) (simp_all add: format_flush_eq)

lemma FormatCPUSet_eq:
  assumes "strict_sorted cpus" shows "FormatCPUSet cpus = CPUList_String cpus"
  using assms by (cases cpus) (simp_all only: FormatCPUSet_def CPUList_String_def sort_strict_sorted
    list.case format_loop_eq)

section \<open>The mask\<close>

definition mask_bit :: "8 word list \<Rightarrow> nat \<Rightarrow> bool" where
  "mask_bit msk c \<longleftrightarrow> c < 8 * length msk \<and> bit (msk ! (c div 8)) (c mod 8)"

lemma and_bit_iff: "(b AND 2 ^ k \<noteq> (0 :: 8 word)) \<longleftrightarrow> k < 8 \<and> bit b k"
  by (simp add: and_exp_eq_0_iff_not_bit) (use bit_imp_le_length in fastforce)

lemma set_byte_cpus: "set (byte_cpus i b) = {i * 8 + int k |k. k < 8 \<and> bit b k}"
  by (cases "b = 0") (auto simp: byte_cpus_def and_bit_iff push_bit_of_1)

lemma byte_cpus_sorted: "strict_sorted (byte_cpus i b)"
proof -
  have "strict_sorted (map (\<lambda>k. i * 8 + int k) ks)" if "strict_sorted ks" for ks
    using that by (simp add: sorted_wrt_map)
  moreover have "strict_sorted (filter (\<lambda>k. b AND push_bit k 1 \<noteq> 0) [0..<8])"
    by (intro sorted_wrt_filter) simp
  ultimately show ?thesis by (simp add: byte_cpus_def)
qed

lemma byte_cpus_range: "c \<in> set (byte_cpus i b) \<Longrightarrow> i * 8 \<le> c \<and> c < (i + 1) * 8"
  by (auto simp: set_byte_cpus)

lemma mask_cpus_range: "c \<in> set (mask_cpus i bs) \<Longrightarrow> i * 8 \<le> c \<and> c < (i + int (length bs)) * 8"
  by (induction bs arbitrary: i) (fastforce dest: byte_cpus_range)+

lemma mask_cpus_sorted: "strict_sorted (mask_cpus i bs)"
proof (induction bs arbitrary: i)
  case (Cons b bs)
  have "x < y" if "x \<in> set (byte_cpus i b)" "y \<in> set (mask_cpus (i + 1) bs)" for x y
    using byte_cpus_range [OF that(1)] mask_cpus_range [OF that(2)] by simp
  with Cons show ?case by (simp add: sorted_wrt_append byte_cpus_sorted)
qed simp

lemma set_mask_cpus: "set (mask_cpus i bs) = (\<lambda>c. i * 8 + int c) ` {c. mask_bit bs c}"
proof (induction bs arbitrary: i)
  case (Cons b bs)
  have "{c. mask_bit (b # bs) c} = {c. c < 8 \<and> bit b c} \<union> (\<lambda>c. c + 8) ` {c. mask_bit bs c}"
  proof (rule set_eqI)
    fix c
    show "c \<in> {c. mask_bit (b # bs) c} \<longleftrightarrow> c \<in> {c. c < 8 \<and> bit b c} \<union> (\<lambda>c. c + 8) ` {c. mask_bit bs c}"
    proof (cases "c < 8")
      case False
      then obtain d where "c = d + 8" by (metis add.commute le_Suc_ex not_less)
      moreover from this have "c div 8 = Suc (d div 8)" "c mod 8 = d mod 8" by simp_all
      ultimately show ?thesis by (auto simp: mask_bit_def)
    qed (auto simp: mask_bit_def)
  qed
  moreover have "(\<lambda>c. i * 8 + int c) ` {c. c < 8 \<and> bit b c} = set (byte_cpus i b)"
    by (auto simp: set_byte_cpus)
  moreover have "(\<lambda>c. i * 8 + int c) ` (\<lambda>c. c + 8) ` {c. mask_bit bs c} = (\<lambda>c. (i + 1) * 8 + int c) ` {c. mask_bit bs c}"
    by (simp add: image_image algebra_simps)
  ultimately show ?case by (simp add: Cons.IH image_Un)
qed (simp add: mask_bit_def)

lemma mask_cpus_wf:
  assumes "int (length msk) = cpuSetBytes"
  shows "wf_cpus (mask_cpus 0 msk)" "max_int \<notin> set (mask_cpus 0 msk)"
  using assms mask_cpus_range [of _ 0 msk] mask_cpus_sorted [of 0 msk]
  by (fastforce simp: wf_cpus_def cpuSetBytes_def max_int_def)+

section \<open>Properties\<close>

text \<open>
  C24. The reported affinity is exact: the text in the startup event parses, with the parser of the
  tuning package, to the sorted list of precisely the CPUs whose bits the kernel set in the mask.
\<close>

theorem affinity_roundtrip:
  assumes "int (length msk) = cpuSetBytes" "0 \<le> r1"
  shows "\<exists>l. ParseCPUList (readAffinity (r1, 0, msk)) = Returns l \<and> wf_cpus l \<and>
    set l = int ` {c. mask_bit msk c}"
proof -
  have "readAffinity (r1, 0, msk) = CPUList_String (mask_cpus 0 msk)"
    using assms(2) by (auto simp: readAffinity_def Let_def FormatCPUSet_eq mask_cpus_sorted)
  then show ?thesis
    using parse_String [OF mask_cpus_wf [OF assms(1)]] mask_cpus_wf [OF assms(1)] by (simp add: set_mask_cpus)
qed

definition sample_mask :: "8 word list" where
  "sample_mask = 0x0F # 0x81 # replicate 126 0"

theorem affinity_roundtrip_witness:
  "\<exists>l. ParseCPUList (readAffinity (128, 0, sample_mask)) = Returns l \<and> set l = int ` {c. mask_bit sample_mask c}"
  using affinity_roundtrip [of sample_mask 128] by (auto simp: sample_mask_def cpuSetBytes_def)

end
