(* ===== verification/Worker.thy ===== *)
theory Worker
  imports LoadProfiles GoFlags RuntimeInfo
begin

text \<open>
  \<open>cmd/chaos-worker/main.go\<close>: the checks of the command line, the configuration of the steady-state
  load and of a reconcile burst, the percentile of a runtime histogram, the watcher of garbage
  collections and the coordinator that turns triggers into bursts. What the Go runtime and the
  clock deliver are parameters.
\<close>

section \<open>Command line\<close>

record worker_flags =
  wk_profile :: string
  wk_runID :: string
  wk_outputDir :: string
  wk_mode :: string
  wk_syncSocket :: string
  wk_duration :: int
  wk_replicaID :: string
  wk_component :: string
  wk_showVersion :: bool

definition worker_defaults :: worker_flags where
  "worker_defaults = \<lparr>wk_profile = [], wk_runID = [], wk_outputDir = [], wk_mode = ''drift'', wk_syncSocket = [],
     wk_duration = 600 * second_ns, wk_replicaID = [], wk_component = [], wk_showVersion = False\<rparr>"

definition worker_table :: "(string \<Rightarrow> int option) \<Rightarrow> worker_flags flag_table" where
  "worker_table parse_duration =
     [(''profile'', StringVar wk_profile_update), (''run-id'', StringVar wk_runID_update),
      (''output-dir'', StringVar wk_outputDir_update), (''mode'', StringVar wk_mode_update),
      (''sync-socket'', StringVar wk_syncSocket_update),
      (''duration'', IntVar parse_duration wk_duration_update),
      (''replica-id'', StringVar wk_replicaID_update), (''component'', StringVar wk_component_update),
      (''version'', BoolVar wk_showVersion_update)]"

datatype worker_error =
    NoProfile | NoRunID | NoOutputDir | BadWorkerMode string | NoSyncSocket | UnknownLoad string "string list"

definition check_worker_flags :: "worker_flags \<Rightarrow> worker_error option" where
  "check_worker_flags f =
     (if wk_showVersion f then None
      else if wk_profile f = [] then Some NoProfile
      else if wk_runID f = [] then Some NoRunID
      else if wk_outputDir f = [] then Some NoOutputDir
      else if wk_mode f \<noteq> ''drift'' \<and> wk_mode f \<noteq> ''sync'' then Some (BadWorkerMode (wk_mode f))
      else if wk_mode f = ''sync'' \<and> wk_syncSocket f = [] then Some NoSyncSocket
      else None)"

text \<open>What \<open>main\<close> does with the parsed flags before it touches the file system: exit 2, print the version, or go on.\<close>

datatype worker_begin = Exit2 worker_error | Prints_version | Goes_on Profile

definition worker_begins :: "worker_flags \<Rightarrow> worker_begin" where
  "worker_begins f =
     (case check_worker_flags f of
        Some e \<Rightarrow> Exit2 e
      | None \<Rightarrow>
          if wk_showVersion f then Prints_version
          else case profile_Get (wk_profile f) of
            Inl (name, known) \<Rightarrow> Exit2 (UnknownLoad name known)
          | Inr p \<Rightarrow> Goes_on p)"

section \<open>Steady state\<close>

text \<open>Fields the code leaves out are zero.\<close>

definition steady_scheduler :: "Profile \<Rightarrow> SchedulerConfig" where
  "steady_scheduler p =
     \<lparr>sc_Pairs = go_div (ss_Goroutines (pf_SteadyState p)) 4, sc_OpsPerSec = ss_ChannelOpsPerSec (pf_SteadyState p)\<rparr>"

definition steady_workers :: "Profile \<Rightarrow> int" where
  "steady_workers p = at_least_one (go_div (ss_Goroutines (pf_SteadyState p)) 8)"

definition steady_alloc :: "Profile \<Rightarrow> AllocConfig" where
  "steady_alloc p =
     \<lparr>al_Goroutines = steady_workers p, al_BytesPerSec = ss_AllocBytesPerSec (pf_SteadyState p),
      al_SizeDist = ss_AllocSizeDist (pf_SteadyState p), al_RingSize = 0\<rparr>"

definition steady_syscall :: "Profile \<Rightarrow> SyscallConfig" where
  "steady_syscall p =
     \<lparr>sy_Target = ss_SyscallTarget (pf_SteadyState p), sy_Goroutines = steady_workers p,
      sy_SyscallsPerSec = ss_SyscallsPerSec (pf_SteadyState p), sy_PayloadBytes = 0, sy_TmpfsDir = []\<rparr>"

definition steady_lock :: "Profile \<Rightarrow> LockConfig" where
  "steady_lock p =
     \<lparr>lk_Level = ss_LockContention (pf_SteadyState p), lk_Goroutines = steady_workers p,
      lk_OpsPerSec = ss_LockOpsPerSec (pf_SteadyState p)\<rparr>"

section \<open>A reconcile burst\<close>

text \<open>The configurations of the burst's two loads; nothing where the code starts none.\<close>

definition burst_alloc :: "(rat \<Rightarrow> rat) \<Rightarrow> Profile \<Rightarrow> AllocConfig option" where
  "burst_alloc fl p =
     (if rb_GoroutineSpike (pf_Reconcile p) > 0 \<and> rb_AllocMultiplier (pf_Reconcile p) > 0
      then Some
        \<lparr>al_Goroutines = rb_GoroutineSpike (pf_Reconcile p),
         al_BytesPerSec = go_trunc (fl (fl (of_int (ss_AllocBytesPerSec (pf_SteadyState p))) *
           fl (rb_AllocMultiplier (pf_Reconcile p)))),
         al_SizeDist = ss_AllocSizeDist (pf_SteadyState p), al_RingSize = 0\<rparr>
      else None)"

definition burst_syscall :: "(rat \<Rightarrow> rat) \<Rightarrow> Profile \<Rightarrow> SyscallConfig option" where
  "burst_syscall fl p =
     (if fl (rb_SyscallMultiplier (pf_Reconcile p)) > 1 \<and> ss_SyscallTarget (pf_SteadyState p) \<noteq> SyscallNone
      then Some
        \<lparr>sy_Target = ss_SyscallTarget (pf_SteadyState p),
         sy_Goroutines = at_least_one (go_div (rb_GoroutineSpike (pf_Reconcile p)) 4),
         sy_SyscallsPerSec = go_trunc (fl (fl (of_int (ss_SyscallsPerSec (pf_SteadyState p))) *
           fl (fl (rb_SyscallMultiplier (pf_Reconcile p)) - 1))),
         sy_PayloadBytes = 0, sy_TmpfsDir = []\<rparr>
      else None)"

text \<open>The events a burst emits, by their type.\<close>

definition burst_events :: "Profile \<Rightarrow> string list" where
  "burst_events p =
     (if rb_Duration (pf_Reconcile p) \<le> 0 then [] else [''reconcile_start'', ''reconcile_end''])"

section \<open>The coordinator\<close>

datatype coord_mode = No_loop | On_tick | On_token | On_nothing

text \<open>
  Before the loop: in drift mode a random offset below the period, which the context may cut short;
  in sync mode a connection, or the ticker without an offset when it fails.
\<close>

definition coordinator_setup :: "string \<Rightarrow> int \<Rightarrow> bool \<Rightarrow> bool \<Rightarrow> coord_mode \<times> string list" where
  "coordinator_setup mode period cut_short dialled =
     (if mode = ''drift'' then
        (if period \<le> 0 then (No_loop, []) else if cut_short then (No_loop, []) else (On_tick, []))
      else if mode = ''sync'' then
        (if \<not> dialled then (if period \<le> 0 then (No_loop, [''sync_error'']) else (On_tick, [''sync_error'']))
         else (On_token, []))
      else (On_nothing, []))"

datatype coord_event = Ctx_done | Tick_fires | Token | Hang_up

text \<open>A nil channel is never ready; a closed one ends the loop.\<close>

fun coordinator_loop :: "coord_mode \<Rightarrow> Profile \<Rightarrow> coord_event list \<Rightarrow> string list" where
  "coordinator_loop m p [] = []"
| "coordinator_loop m p (e # es) =
     (case e of
        Ctx_done \<Rightarrow> []
      | Tick_fires \<Rightarrow> (if m = On_tick then burst_events p else []) @ coordinator_loop m p es
      | Token \<Rightarrow> (if m = On_token then burst_events p else []) @ coordinator_loop m p es
      | Hang_up \<Rightarrow> if m = On_token then [] else coordinator_loop m p es)"

definition coordinator :: "string \<Rightarrow> Profile \<Rightarrow> bool \<Rightarrow> bool \<Rightarrow> coord_event list \<Rightarrow> string list" where
  "coordinator mode p cut_short dialled es =
     (case coordinator_setup mode (rb_Period (pf_Reconcile p)) cut_short dialled of
        (m, emitted) \<Rightarrow> emitted @ (if m = No_loop then [] else coordinator_loop m p es))"

section \<open>Histograms\<close>

text \<open>A \<open>metrics.Float64Histogram\<close>: bucket bounds may be infinite.\<close>

datatype bound = Neg_inf | Fin rat | Pos_inf

record histogram =
  hg_counts :: "64 word list"
  hg_buckets :: "bound list"

definition sum_counts :: "64 word list \<Rightarrow> 64 word" where
  "sum_counts counts = foldl (+) 0 counts"

text \<open>
  The second loop; \<open>None\<close> is an index out of range. \<open>q\<close> is a float and the target is the product's
  integer part.
\<close>

definition bucket_at :: "bound list \<Rightarrow> nat \<Rightarrow> bound option" where
  "bucket_at bs i = (if i < length bs then Some (bs ! i) else None)"

fun find_bucket :: "bound list \<Rightarrow> 64 word \<Rightarrow> 64 word list \<Rightarrow> nat \<Rightarrow> 64 word \<Rightarrow> bound option" where
  "find_bucket bs target [] i seen = (if bs = [] then None else Some (last bs))"
| "find_bucket bs target (c # cs) i seen =
     (let seen' = seen + c in
      if target \<le> seen' then (if i + 1 < length bs then Some (bs ! (i + 1)) else bucket_at bs i)
      else find_bucket bs target cs (i + 1) seen')"

definition percentile :: "(rat \<Rightarrow> rat) \<Rightarrow> histogram option \<Rightarrow> rat \<Rightarrow> bound option" where
  "percentile fl h q =
     (case h of
        None \<Rightarrow> Some (Fin 0)
      | Some h \<Rightarrow>
          (let n = sum_counts (hg_counts h) in
           if n = 0 then Some (Fin 0)
           else find_bucket (hg_buckets h)
             (word_of_int (go_trunc (fl (fl (of_int (uint n)) * q)))) (hg_counts h) 0 0))"

text \<open>The p99 in nanoseconds; \<open>to_ns\<close> is the float-to-integer conversion of the product with \<open>1e9\<close>.\<close>

definition p99_ns :: "(rat \<Rightarrow> rat) \<Rightarrow> (bound \<Rightarrow> 64 word) \<Rightarrow> histogram option \<Rightarrow> 64 word option" where
  "p99_ns fl to_ns h =
     (case h of
        None \<Rightarrow> Some 0
      | Some h' \<Rightarrow>
          if length (hg_buckets h') > 1 then map_option to_ns (percentile fl h (fl (99/100))) else Some 0)"

section \<open>Garbage collections\<close>

text \<open>
  The watcher: one event for every poll that finds the cycle counter ahead of the last one, with the
  difference. A poll is the counter and the pause, computed as above.
\<close>

fun gc_watch :: "64 word \<Rightarrow> (64 word \<times> 64 word) list \<Rightarrow> (64 word \<times> 64 word) list" where
  "gc_watch lastCount [] = []"
| "gc_watch lastCount ((count, pause) # polls) =
     (if lastCount < count then (count - lastCount, pause) # gc_watch count polls
      else gc_watch lastCount polls)"

fun last_count :: "64 word \<Rightarrow> (64 word \<times> 64 word) list \<Rightarrow> 64 word" where
  "last_count lastCount [] = lastCount"
| "last_count lastCount ((count, pause) # polls) =
     last_count (if lastCount < count then count else lastCount) polls"

section \<open>Events\<close>

text \<open>
  The events the worker emits, as the maps it gives to the encoder. Times and the profile's run are
  parameters; a time stamp is a float, as is the duration in seconds.
\<close>

datatype event_value = EString string | EInt int | EFloat rat | EWord "64 word"

type_synonym event = "(string \<times> event_value) list"

definition worker_version :: string where
  "worker_version = ''1.1.0''"

definition now_of :: "(rat \<Rightarrow> rat) \<Rightarrow> int \<Rightarrow> rat" where
  "now_of fl unix_nano = fl (fl (of_int unix_nano) / of_int second_ns)"

definition startup_event :: "rat \<Rightarrow> rat \<Rightarrow> worker_flags \<Rightarrow> Snapshot \<Rightarrow> event" where
  "startup_event ts duration_sec c rt =
     [(''ts'', EFloat ts), (''type'', EString ''startup''), (''profile'', EString (wk_profile c)),
      (''replica_id'', EString (wk_replicaID c)), (''component'', EString (wk_component c)),
      (''run_id'', EString (wk_runID c)), (''mode'', EString (wk_mode c)),
      (''duration_sec'', EFloat duration_sec), (''pid'', EInt (sn_PID rt)),
      (''go_version'', EString (sn_GoVersion rt)), (''gomaxprocs'', EInt (sn_GOMAXPROCS rt)),
      (''num_cpu'', EInt (sn_NumCPU rt)), (''affinity'', EString (sn_Affinity rt)),
      (''cgroup_quota'', EString (sn_CgroupQuota rt)), (''cgroup_cpuset'', EString (sn_CgroupCPUSet rt)),
      (''version'', EString worker_version)]"

definition shutdownReason :: "bool \<Rightarrow> string" where
  "shutdownReason deadline_exceeded = (if deadline_exceeded then ''duration'' else ''sigterm'')"

definition shutdown_event :: "rat \<Rightarrow> bool \<Rightarrow> event" where
  "shutdown_event ts deadline_exceeded =
     [(''ts'', EFloat ts), (''type'', EString ''shutdown''), (''reason'', EString (shutdownReason deadline_exceeded))]"

text \<open>One tick of the 1 Hz observer; no event when the percentile indexes out of range, which panics.\<close>

definition sample_event ::
  "(rat \<Rightarrow> rat) \<Rightarrow> (bound \<Rightarrow> 64 word) \<Rightarrow> rat \<Rightarrow> int \<Rightarrow> (string \<Rightarrow> string option) \<Rightarrow> histogram option \<Rightarrow> 64 word \<Rightarrow> event option" where
  "sample_event fl to_ns ts goroutines proc pauses cycles =
     map_option (\<lambda>p99.
       [(''ts'', EFloat ts), (''type'', EString ''sample''), (''goroutines'', EInt goroutines),
        (''threads'', EInt (ReadThreads proc)), (''rss_bytes'', EInt (ReadRSSBytes proc)),
        (''gc_pause_ns_p99'', EWord p99), (''gc_count'', EWord cycles)])
       (p99_ns fl to_ns pauses)"

definition gc_event :: "rat \<Rightarrow> 64 word \<times> 64 word \<Rightarrow> event" where
  "gc_event ts e =
     [(''ts'', EFloat ts), (''type'', EString ''gc_event''), (''cycles'', EWord (fst e)), (''pause_ns'', EWord (snd e))]"

end
