(* ===== verification/Observer.thy ===== *)
theory Observer
  imports LoadProfiles GoFlags ProcTree "HOL-Library.Word"
begin

text \<open>
  \<open>cmd/chaos-observer/main.go\<close>: the command line, the sampling of \<open>/proc/stat\<close> and the deltas
  between two samples, the search for worker processes, their threads and memory, and the loop that
  writes one row per tick. The contents of files, the clock, the rounding of floats and their text
  are parameters.
\<close>

section \<open>Command line\<close>

record observer_flags =
  of_outputDir :: string
  of_runID :: string
  of_duration :: int
  of_sampleInterval :: int
  of_workerPIDFilter :: string
  of_showVersion :: bool

definition observer_defaults :: observer_flags where
  "observer_defaults = \<lparr>of_outputDir = [], of_runID = [], of_duration = 600 * second_ns,
     of_sampleInterval = second_ns, of_workerPIDFilter = ''chaos-worker'', of_showVersion = False\<rparr>"

definition observer_table :: "(string \<Rightarrow> int option) \<Rightarrow> observer_flags flag_table" where
  "observer_table parse_duration =
     [(''output-dir'', StringVar of_outputDir_update), (''run-id'', StringVar of_runID_update),
      (''duration'', IntVar parse_duration of_duration_update),
      (''sample-interval'', IntVar parse_duration of_sampleInterval_update),
      (''worker-pid-filter'', StringVar of_workerPIDFilter_update),
      (''version'', BoolVar of_showVersion_update)]"

datatype observer_error = ONoOutputDir | ONoRunID

definition check_observer_flags :: "observer_flags \<Rightarrow> observer_error option" where
  "check_observer_flags f =
     (if of_showVersion f then None
      else if of_outputDir f = [] then Some ONoOutputDir
      else if of_runID f = [] then Some ONoRunID
      else None)"

section \<open>/proc/stat\<close>

text \<open>The time of a sample is nothing in the zero value, which \<open>readStat\<close> returns on an error.\<close>

record statSample =
  ts_of :: "int option"
  user_of :: "64 word"
  nice_of :: "64 word"
  system_of :: "64 word"
  idle_of :: "64 word"
  iowait_of :: "64 word"
  irq_of :: "64 word"
  softirq_of :: "64 word"
  steal_of :: "64 word"
  ctxt_of :: "64 word"

definition zero_sample :: statSample where
  "zero_sample = \<lparr>ts_of = None, user_of = 0, nice_of = 0, system_of = 0, idle_of = 0, iowait_of = 0,
     irq_of = 0, softirq_of = 0, steal_of = 0, ctxt_of = 0\<rparr>"

text \<open>\<open>n, _ := strconv.ParseUint(v, 10, 64)\<close> and the closure \<open>get\<close>.\<close>

definition uint_value :: "string \<Rightarrow> 64 word" where
  "uint_value v = word_of_int (fst (ParseUint v))"

definition get_val :: "64 word list \<Rightarrow> nat \<Rightarrow> 64 word" where
  "get_val vals i = (if i \<ge> length vals then 0 else vals ! i)"

definition cpu_line :: "string \<Rightarrow> statSample \<Rightarrow> statSample" where
  "cpu_line line s =
     (let vals = map uint_value (tl (Fields line)) in
      s\<lparr>user_of := get_val vals 0, nice_of := get_val vals 1, system_of := get_val vals 2,
        idle_of := get_val vals 3, iowait_of := get_val vals 4, irq_of := get_val vals 5,
        softirq_of := get_val vals 6, steal_of := get_val vals 7\<rparr>)"

definition ctxt_line :: "string \<Rightarrow> statSample \<Rightarrow> statSample" where
  "ctxt_line line s =
     (let fields = Fields line in
      if length fields = 2 then s\<lparr>ctxt_of := uint_value (fields ! 1)\<rparr> else s)"

fun stat_lines :: "string list \<Rightarrow> statSample \<Rightarrow> statSample" where
  "stat_lines [] s = s"
| "stat_lines (line # lines) s =
     stat_lines lines
       (if HasPrefix line ''cpu '' then cpu_line line s
        else if HasPrefix line ''ctxt '' then ctxt_line line s
        else s)"

text \<open>The sample, and whether the file could be opened.\<close>

definition readStat :: "string option \<Rightarrow> int \<Rightarrow> statSample \<times> bool" where
  "readStat content now =
     (case content of
        None \<Rightarrow> (zero_sample, False)
      | Some s \<Rightarrow> (stat_lines (scan_lines s) (zero_sample\<lparr>ts_of := Some now\<rparr>), True))"

section \<open>Deltas\<close>

record delta =
  d_ctxt :: int
  d_user :: rat
  d_system :: rat
  d_idle :: rat
  d_iowait :: rat
  d_irq :: rat
  d_softirq :: rat
  d_steal :: rat

definition zero_delta :: delta where
  "zero_delta = \<lparr>d_ctxt = 0, d_user = 0, d_system = 0, d_idle = 0, d_iowait = 0, d_irq = 0,
     d_softirq = 0, d_steal = 0\<rparr>"

text \<open>\<open>Duration.Seconds\<close>.\<close>

definition seconds :: "(rat \<Rightarrow> rat) \<Rightarrow> int \<Rightarrow> rat" where
  "seconds fl d =
     fl (fl (of_int (go_div d second_ns)) + fl (fl (of_int (go_mod d second_ns)) / of_int second_ns))"

definition total_of :: "statSample \<Rightarrow> 64 word" where
  "total_of s =
     user_of s + nice_of s + system_of s + idle_of s + iowait_of s + irq_of s + softirq_of s + steal_of s"

definition pct :: "(rat \<Rightarrow> rat) \<Rightarrow> rat \<Rightarrow> 64 word \<Rightarrow> 64 word \<Rightarrow> rat" where
  "pct fl totalDelta now prevV = fl (fl (100 * fl (of_int (uint (now - prevV)))) / totalDelta)"

text \<open>The rate and the percentages once the times are in order; the code's second test of \<open>dt\<close> holds.\<close>

definition ctxt_rate :: "(rat \<Rightarrow> rat) \<Rightarrow> rat \<Rightarrow> statSample \<Rightarrow> statSample \<Rightarrow> int" where
  "ctxt_rate fl dt s prev = go_trunc (fl (fl (of_int (sint (ctxt_of s - ctxt_of prev))) / dt))"

definition delta_of :: "(rat \<Rightarrow> rat) \<Rightarrow> statSample \<Rightarrow> statSample \<Rightarrow> delta" where
  "delta_of fl s prev =
     (case (ts_of s, ts_of prev) of
        (Some now, Some before) \<Rightarrow>
          (let dt = seconds fl (now - before) in
           if dt \<le> 0 then zero_delta
           else let d = zero_delta\<lparr>d_ctxt := ctxt_rate fl dt s prev\<rparr>;
                    totalDelta = fl (of_int (uint (total_of s - total_of prev))) in
             if totalDelta \<le> 0 then d
             else d\<lparr>d_user := pct fl totalDelta (user_of s + nice_of s) (user_of prev + nice_of prev),
                    d_system := pct fl totalDelta (system_of s) (system_of prev),
                    d_idle := pct fl totalDelta (idle_of s) (idle_of prev),
                    d_iowait := pct fl totalDelta (iowait_of s) (iowait_of prev),
                    d_irq := pct fl totalDelta (irq_of s) (irq_of prev),
                    d_softirq := pct fl totalDelta (softirq_of s) (softirq_of prev),
                    d_steal := pct fl totalDelta (steal_of s) (steal_of prev)\<rparr>)
      | _ \<Rightarrow> zero_delta)"

section \<open>Workers\<close>

definition text_or_empty :: "string option \<Rightarrow> string" where
  "text_or_empty b = (case b of None \<Rightarrow> [] | Some s \<Rightarrow> s)"

fun scan_workers :: "proc_fs \<Rightarrow> string \<Rightarrow> (string \<times> bool) list \<Rightarrow> int list" where
  "scan_workers fs flt [] = []"
| "scan_workers fs flt ((name, isDir) # es) =
     (if \<not> isDir then scan_workers fs flt es
      else case Atoi name of
        (_, Some _) \<Rightarrow> scan_workers fs flt es
      | (pid, None) \<Rightarrow>
          if Contains (text_or_empty (proc_file fs (''/proc/'' @ name @ ''/comm''))) flt
          then pid # scan_workers fs flt es
          else case proc_file fs (''/proc/'' @ name @ ''/cmdline'') of
            None \<Rightarrow> scan_workers fs flt es
          | Some cmdline \<Rightarrow>
              if Contains cmdline flt then pid # scan_workers fs flt es else scan_workers fs flt es)"

definition findWorkerPIDs :: "proc_fs \<Rightarrow> string \<Rightarrow> int list" where
  "findWorkerPIDs fs flt =
     (case dir_entries fs of None \<Rightarrow> [] | Some es \<Rightarrow> scan_workers fs flt es)"

text \<open>Both sums are of 64-bit integers; the values of numbers that do not parse are used all the same.\<close>

fun status_sums :: "string list \<Rightarrow> int \<Rightarrow> int \<Rightarrow> int \<times> int" where
  "status_sums [] threads rss = (threads, rss)"
| "status_sums (line # lines) threads rss =
     (let fields = Fields line in
      if HasPrefix line ''Threads:'' then
        (if length fields = 2 then status_sums lines (wrap64 (threads + fst (Atoi (fields ! 1)))) rss
         else status_sums lines threads rss)
      else if HasPrefix line ''VmRSS:'' then
        (if length fields \<ge> 2
         then status_sums lines threads (wrap64 (rss + wrap64 (fst (ParseInt (fields ! 1)) * 1024)))
         else status_sums lines threads rss)
      else status_sums lines threads rss)"

fun sum_pids :: "(string \<Rightarrow> string option) \<Rightarrow> int list \<Rightarrow> int \<Rightarrow> int \<Rightarrow> int \<times> int" where
  "sum_pids file [] threads rss = (threads, rss)"
| "sum_pids file (pid # pids) threads rss =
     (case file (''/proc/'' @ Itoa pid @ ''/status'') of
        None \<Rightarrow> sum_pids file pids threads rss
      | Some s \<Rightarrow> (case status_sums (scan_lines s) threads rss of (t, r) \<Rightarrow> sum_pids file pids t r))"

definition sumThreadsAndRSS :: "(string \<Rightarrow> string option) \<Rightarrow> int list \<Rightarrow> int \<times> int" where
  "sumThreadsAndRSS file pids = sum_pids file pids 0 0"

section \<open>Load average and runnable processes\<close>

text \<open>\<open>ParseFloat\<close> without its error, and the zero of the type it returns, are parameters.\<close>

definition readLoadavg1 :: "'f \<Rightarrow> (string \<Rightarrow> 'f) \<Rightarrow> (string \<Rightarrow> string option) \<Rightarrow> 'f" where
  "readLoadavg1 zero parse_float file =
     (case file ''/proc/loadavg'' of
        None \<Rightarrow> zero
      | Some b \<Rightarrow> (let fields = Fields b in if length fields = 0 then zero else parse_float (fields ! 0)))"

fun procs_running_in :: "string list \<Rightarrow> int" where
  "procs_running_in [] = 0"
| "procs_running_in (line # lines) =
     (if HasPrefix line ''procs_running''
      then (let fields = Fields line in
        if length fields = 2 then fst (Atoi (fields ! 1)) else procs_running_in lines)
      else procs_running_in lines)"

definition readProcsRunning :: "(string \<Rightarrow> string option) \<Rightarrow> int" where
  "readProcsRunning file =
     (case file ''/proc/stat'' of None \<Rightarrow> 0 | Some s \<Rightarrow> procs_running_in (scan_lines s))"

section \<open>The sampling loop\<close>

definition csv_header :: "string list" where
  "csv_header = [''ts'', ''worker_count'', ''total_threads'', ''total_rss_mb'', ''loadavg_1'', ''procs_running'',
     ''ctxt_per_sec'', ''softirq_pct'', ''irq_pct'', ''steal_pct'', ''user_pct'', ''system_pct'', ''iowait_pct'',
     ''idle_pct'']"

text \<open>
  What a tick meets: its time, \<open>/proc/stat\<close> and the clock at the sample, the process directory at the
  search for workers, and the files read after it.
\<close>

record tick =
  tk_ts :: int
  tk_stat :: "string option"
  tk_now :: int
  tk_procs :: proc_fs
  tk_files :: "string \<Rightarrow> string option"

text \<open>
  The floats of Go: their rounding, \<open>FormatFloat\<close> in format \<open>f\<close> with a given number of decimals, and
  the reading and rendering of the load average, which need not be finite.
\<close>

record 'f go_floats =
  gf_fl :: "rat \<Rightarrow> rat"
  gf_format :: "rat \<Rightarrow> nat \<Rightarrow> string"
  gf_zero :: 'f
  gf_parse :: "string \<Rightarrow> 'f"
  gf_load :: "'f \<Rightarrow> string"

definition sample_row :: "'f go_floats \<Rightarrow> string \<Rightarrow> tick \<Rightarrow> delta \<Rightarrow> string list" where
  "sample_row g flt t d =
     (let fl = gf_fl g; pids = findWorkerPIDs (tk_procs t) flt;
          (threads, rss) = sumThreadsAndRSS (tk_files t) pids in
      [gf_format g (fl (fl (of_int (tk_ts t)) / of_int second_ns)) 3, Itoa (int (length pids)), Itoa threads,
       gf_format g (fl (fl (fl (of_int rss) / 1024) / 1024)) 1,
       gf_load g (readLoadavg1 (gf_zero g) (gf_parse g) (tk_files t)), Itoa (readProcsRunning (tk_files t)),
       Itoa (d_ctxt d), gf_format g (d_softirq d) 2, gf_format g (d_irq d) 2, gf_format g (d_steal d) 2,
       gf_format g (d_user d) 2, gf_format g (d_system d) 2, gf_format g (d_iowait d) 2,
       gf_format g (d_idle d) 2])"

text \<open>A tick whose sample fails writes nothing and keeps the last sample; the end is the context's.\<close>

datatype obs_event = Obs_tick tick | Obs_end

fun observer_loop :: "'f go_floats \<Rightarrow> string \<Rightarrow> statSample \<Rightarrow> obs_event list \<Rightarrow> string list list" where
  "observer_loop g flt prev [] = []"
| "observer_loop g flt prev (Obs_end # es) = []"
| "observer_loop g flt prev (Obs_tick t # es) =
     (case readStat (tk_stat t) (tk_now t) of
        (cur, ok) \<Rightarrow>
          if \<not> ok then observer_loop g flt prev es
          else sample_row g flt t (delta_of (gf_fl g) cur prev) # observer_loop g flt cur es)"

text \<open>
  The run from checked flags: nothing when the ticker is not positive, which panics; else the rows
  of the file. The first sample's error is dropped and leaves the zero sample.
\<close>

definition observer_run :: "'f go_floats \<Rightarrow> observer_flags \<Rightarrow> string option \<Rightarrow> int \<Rightarrow> obs_event list \<Rightarrow> string list list start" where
  "observer_run g f content now es =
     with_ticker (of_sampleInterval f)
       (csv_header # observer_loop g (of_workerPIDFilter f) (fst (readStat content now)) es)"

section \<open>main\<close>

text \<open>
  From the arguments to the exit code and the rows of \<open>observer.csv\<close>: \<open>mkdir_all\<close> and \<open>create\<close> answer
  for the file system. The flag package exits with 2 on a bad flag and with 0 on a request for help;
  the panic of a ticker exits with 2, and the header is in the file by then.
\<close>

definition observer_csv :: "observer_flags \<Rightarrow> string" where
  "observer_csv f = path_join (of_outputDir f) ''observer.csv''"

definition observer_main ::
  "'f go_floats \<Rightarrow> (string \<Rightarrow> int option) \<Rightarrow> (string \<Rightarrow> bool) \<Rightarrow> (string \<Rightarrow> bool) \<Rightarrow> string list \<Rightarrow>
   string option \<Rightarrow> int \<Rightarrow> obs_event list \<Rightarrow> int \<times> string list list option" where
  "observer_main g parse_duration mkdir_all create args content now es =
     (case parse_flags (observer_table parse_duration) args observer_defaults of
        Bad_flag msg \<Rightarrow> (2, None)
      | Wants_help \<Rightarrow> (0, None)
      | Parsed f \<Rightarrow>
          (case check_observer_flags f of
             Some e \<Rightarrow> (2, None)
           | None \<Rightarrow>
               if of_showVersion f then (0, None)
               else if \<not> mkdir_all (of_outputDir f) then (1, None)
               else if \<not> create (observer_csv f) then (1, None)
               else (case observer_run g f content now es of
                       Runs rows \<Rightarrow> (0, Some rows)
                     | _ \<Rightarrow> (2, Some [csv_header]))))"

end
