(* ===== verification/PlanGuarantees.thy ===== *)
theory PlanGuarantees
  imports PlanProps
begin

text \<open>
  The properties of \<open>pkg/tuning/plan.go\<close>: what every plan returned by \<open>BuildPlan\<close> guarantees, when
  one is returned, and how assignments are found again.
\<close>

section \<open>Replanning without explicit CPUs\<close>

lemma no_exclusive_sets:
  assumes "placing_ok cm reserved isolated workload taken"
    and "\<And>name. \<not> (ct_Class (tuning_of cm name) = ClassIsolatedExclusive \<and> ct_CPUs (tuning_of cm name) \<noteq> [])"
  shows "taken = []" "workload = isolated"
proof -
  have inv: "taken_inv cm isolated (taken, workload)" "wf_cpus isolated"
    using assms(1) by (simp_all add: placing_ok_def)
  show "taken = []"
    using inv(1) assms(2) by (cases taken) (auto simp: taken_inv_def)
  with inv show "workload = isolated"
    by (intro wf_cpus_eqI) (auto simp: taken_inv_def)
qed

lemma exclusive_loop_skips:
  assumes "\<And>name. ct_CPUs (tuning_of cm name) = []"
  shows "exclusive_loop it site cm isolated names st = Returns st"
  by (induction names arbitrary: site)
    (simp_all add: exclusive_step_def assms split: prod.splits)

lemma tuning_of_no_cpus:
  "\<forall>ct \<in> snd ` set cm. ct_CPUs ct = [] \<Longrightarrow> ct_CPUs (tuning_of cm name) = []"
  by (force simp: tuning_of_def split: option.splits dest: map_of_SomeD)

lemma finish_plan_capacity:
  assumes "\<And>name. ct_CPUs (tuning_of (ComponentMap (Spec p)) name) = []"
    and pools: "wf_cpus isolated" "set reserved \<inter> set isolated = {}"
    and rest: "wf_cpus rest" "set rest \<subseteq> set isolated" "4 \<le> length rest"
    and workers: "\<forall>a \<in> set workers. slice_of reserved (set isolated - set rest) a"
      "sorted_wrt compatible workers"
  shows "\<exists>pl. finish_plan p topo reserved isolated isolated workers = Returns pl"
proof -
  let ?o = "observer_assignment reserved" and ?cm = "ComponentMap (Spec p)"
  let ?free = "CPUList_Difference isolated (used_cpus (workers @ [?o]))"
  have "set rest \<subseteq> set ?free"
    using pools rest(2) workers(1) by (fastforce simp: set_used_cpus slice_of_def observer_assignment_def)
  then have room: "defaultVictimWidth \<le> length ?free"
    using rest(3) card_mono [of "set ?free" "set rest"]
      distinct_card [OF wf_cpus_distinct [OF rest(1)]]
      distinct_card [OF wf_cpus_distinct [OF wf_Difference [OF pools(1)]], of "used_cpus (workers @ [?o])"]
    by (simp add: defaultVictimWidth_def)
  define l where "l = drop (length ?free - defaultVictimWidth) ?free"
  have victim: "victim_cpus ?cm isolated (workers @ [?o]) = Returns l"
    using room assms(1) [of SpecialChaosVictim] by (simp add: victim_cpus_def victim_explicit_eq l_def Let_def)
  note free_l = default_victim [OF room l_def]
  have "compatible a ?o" if "a \<in> set workers" for a
    using that workers(1) pools by (fastforce simp: slice_of_def compatible_def observer_assignment_def)
  moreover have "compatible a (victim_assignment ?cm l)" if "a \<in> set (workers @ [?o])" for a
    using free_l(3) [OF that] by (auto simp: compatible_def victim_assignment_def)
  ultimately have "sorted_wrt compatible (workers @ [?o, victim_assignment ?cm l])"
    using workers(2) by (auto simp: sorted_wrt_append)
  then show ?thesis
    using victim by (simp add: finish_plan_def Let_def post_validate_Returns [THEN iffD2])
qed

lemma valid_profile_isolated:
  assumes "valid_profile p" "IsolatedCPUs p = (Returns isolated :: (plan_error, cpulist) outcome)"
  shows "\<exists>reserved. ReservedCPUs p = (Returns reserved :: (plan_error, cpulist) outcome) \<and>
    valid_pools (CPU (Spec p)) reserved isolated \<and> wf_cpus isolated"
proof -
  obtain r i where "ReservedCPUs p = (Returns r :: (plan_error, cpulist) outcome)"
    "IsolatedCPUs p = (Returns i :: (plan_error, cpulist) outcome)"
    "valid_pools (CPU (Spec p)) r i" "wf_cpus i"
    using valid_profile_pools [OF assms(1)] by metis
  with assms(2) show ?thesis by auto
qed

section \<open>Finding assignments\<close>

lemma find_assignment_Some:
  assumes "a \<in> set as" "a_ReplicaID a \<noteq> []"
    and "\<And>b. b \<in> set as \<Longrightarrow> a_ReplicaID b = a_ReplicaID a \<Longrightarrow> b = a"
  shows "find_assignment as (a_Component a) (a_ReplicaID a) = Some a"
  using assms
proof (induction as)
  case (Cons b as)
  show ?case
  proof (cases "a_ReplicaID b = a_ReplicaID a")
    case True
    then have "b = a" using Cons.prems(3) by simp
    then show ?thesis by simp
  next
    case False
    then have "find_assignment as (a_Component a) (a_ReplicaID a) = Some a"
      using Cons by auto
    with False Cons.prems(2) show ?thesis by simp
  qed
qed simp

lemma plan_finds_worker:
  assumes "fair_order it" "BuildPlan it p topo (Topology_Flatten topo ov) = Returns pl"
    and "fp \<in> set (Topology_Flatten topo ov)"
  shows "\<exists>a. Plan_FindAssignment pl (fp_Component fp) (fp_ReplicaID fp) = Some a \<and>
    a \<in> set (pl_Assignments pl) \<and> worker_of p fp a"
proof (rule BuildPlan_Returns [OF assms(1,2)])
  let ?flat = "Topology_Flatten topo ov"
  fix reserved isolated taken workload workers rest vcpus
  assume loop: "process_loop p reserved workload taken ?flat workload = Returns (workers, rest)"
    and pl: "pl_Assignments pl =
      workers @ [observer_assignment reserved, victim_assignment (ComponentMap (Spec p)) vcpus]"
  have all2: "list_all2 (worker_of p) ?flat workers" using process_loop_workers [OF loop] by simp
  obtain k where k: "k < length ?flat" "?flat ! k = fp" using assms(3) by (auto simp: in_set_conv_nth)
  then have a: "worker_of p fp (workers ! k)" "k < length workers"
    using list_all2_nthD [OF all2] list_all2_lengthD [OF all2] by auto
  have ids: "map a_ReplicaID workers = map fp_ReplicaID ?flat"
    using all2 by (induction rule: list_all2_induct) (simp_all add: worker_of_def)
  have nonempty: "a_ReplicaID (workers ! k) \<noteq> []"
    using a(1) Flatten_replica_nonempty [OF assms(3)] by (simp add: worker_of_def)
  have inj: "inj_on a_ReplicaID (set workers)"
    using Flatten_inv [of ov topo] ids
    by (metis flat_inv_def Topology_Flatten_def distinct_map)
  have "b = workers ! k"
    if "b \<in> set (pl_Assignments pl)" "a_ReplicaID b = a_ReplicaID (workers ! k)" for b
  proof -
    have "b \<in> set workers"
      using that nonempty by (auto simp: pl observer_assignment_def victim_assignment_def)
    with inj that(2) a(2) show ?thesis by (auto dest: inj_onD)
  qed
  then have "find_assignment (pl_Assignments pl) (a_Component (workers ! k)) (a_ReplicaID (workers ! k)) =
      Some (workers ! k)"
    using nonempty a(2) by (intro find_assignment_Some) (simp_all add: pl)
  with a show ?thesis
    by (auto simp: Plan_FindAssignment_def pl worker_of_def)
qed

text \<open>The victim's CPUs, named or carved, are a well-formed set out of the two pools.\<close>

lemma victim_cpus_wf:
  assumes "victim_cpus cm isolated assns = Returns l" "map_parses reserved isolated cm" "wf_cpus isolated"
  shows "wf_cpus l \<and> l \<noteq> [] \<and> set l \<subseteq> set reserved \<union> set isolated"
  using assms(1)
proof (cases rule: victim_cpus_Returns)
  case explicit
  then show ?thesis by (auto elim!: map_parses_D [OF assms(2)])
next
  case default
  from default_victim(1,2) [OF default(1,2)] default(2) assms(3) show ?thesis
    by (auto intro: wf_drop wf_Difference)
qed

lemma plan_victim_wf:
  assumes "fair_order it" "BuildPlan it p topo flat = Returns pl"
  shows "wf_cpus (pl_VictimCPUs pl) \<and> pl_VictimCPUs pl \<noteq> []"
proof (rule BuildPlan_Returns [OF assms])
  fix reserved isolated taken workload workers vcpus
  assume "placing_ok (ComponentMap (Spec p)) reserved isolated workload taken"
    and v: "victim_cpus (ComponentMap (Spec p)) isolated (workers @ [observer_assignment reserved]) = Returns vcpus"
    and pl: "pl_VictimCPUs pl = vcpus"
  then have "map_parses reserved isolated (ComponentMap (Spec p))" "wf_cpus isolated"
    by (simp_all add: placing_ok_def)
  from victim_cpus_wf [OF v this] show ?thesis by (simp add: pl)
qed

section \<open>Properties\<close>

definition sample_build :: "(plan_error, Plan) outcome" where
  "sample_build = BuildPlan (\<lambda>k ks. rev ks) sample_profile sample_topology (Topology_Flatten sample_topology 0)"

text \<open>
  C1. Isolation: in a plan that BuildPlan returns, an exclusive assignment shares no CPU with any
  other assignment, worker, observer or victim.
\<close>

theorem plan_exclusive_isolated:
  assumes "fair_order it" "BuildPlan it p topo flat = Returns pl"
    and "i < length (pl_Assignments pl)" "j < length (pl_Assignments pl)" "i \<noteq> j"
    and "a_Exclusive (pl_Assignments pl ! i)"
  shows "set (a_CPUs (pl_Assignments pl ! i)) \<inter> set (a_CPUs (pl_Assignments pl ! j)) = {}"
proof -
  have "post_validate (pl_Assignments pl) = Returns ()"
    using BuildPlan_Returns [OF assms(1,2)] post_validate_Returns by metis
  with assms(3-) show ?thesis unfolding post_validate_nth by blast
qed

theorem plan_exclusive_isolated_witness:
  "\<exists>pl. sample_build = Returns pl \<and>
    set (a_CPUs (pl_Assignments pl ! 4)) \<inter> set (a_CPUs (pl_Assignments pl ! 1)) = {}"
proof -
  have "returns_with (\<lambda>pl. length (pl_Assignments pl) = 5 \<and> a_Exclusive (pl_Assignments pl ! 4)) sample_build"
    by code_simp
  then obtain pl where pl: "sample_build = Returns pl" "length (pl_Assignments pl) = 5"
    "a_Exclusive (pl_Assignments pl ! 4)" by (auto simp: returns_with_iff)
  show ?thesis
    using plan_exclusive_isolated [OF fair_order_rev pl(1) [unfolded sample_build_def], of 4 1] pl by auto
qed

text \<open>
  C2. The victim is isolated: unless the profile gives the chaos-victim another class, its CPUs
  are not empty, belong to the isolated pool, and are shared with no worker and not with the
  observer; when the profile names no CPUs for it, there are exactly four.
\<close>

theorem plan_victim_isolated:
  assumes "fair_order it" "BuildPlan it p topo flat = Returns pl"
    and "ct_Class (tuning_of (ComponentMap (Spec p)) SpecialChaosVictim) \<in> {[], ClassIsolatedExclusive}"
  shows "pl_VictimCPUs pl \<noteq> [] \<and> set (pl_VictimCPUs pl) \<subseteq> set (pl_Isolated pl) \<and>
    a_CPUs (last (pl_Assignments pl)) = pl_VictimCPUs pl \<and>
    (\<forall>a \<in> set (butlast (pl_Assignments pl)). set (a_CPUs a) \<inter> set (pl_VictimCPUs pl) = {}) \<and>
    (ct_CPUs (tuning_of (ComponentMap (Spec p)) SpecialChaosVictim) = [] \<longrightarrow> length (pl_VictimCPUs pl) = 4)"
proof (rule BuildPlan_Returns [OF assms(1,2)])
  let ?cm = "ComponentMap (Spec p)"
  fix reserved isolated taken workload workers rest vcpus
  assume ok: "placing_ok ?cm reserved isolated workload taken"
    and all: "\<And>name. ct_Class (tuning_of ?cm name) = ClassIsolatedExclusive \<Longrightarrow>
      ct_CPUs (tuning_of ?cm name) \<noteq> [] \<Longrightarrow> name \<in> fst ` set taken"
    and v: "victim_cpus ?cm isolated (workers @ [observer_assignment reserved]) = Returns vcpus"
    and comp: "sorted_wrt compatible (workers @ [observer_assignment reserved, victim_assignment ?cm vcpus])"
    and valid: "valid_profile p"
    and pl: "pl_Isolated pl = isolated" "pl_VictimCPUs pl = vcpus"
      "pl_Assignments pl = workers @ [observer_assignment reserved, victim_assignment ?cm vcpus]"
  have excl: "a_Exclusive (victim_assignment ?cm vcpus)"
    using assms(3) by (auto simp: victim_assignment_def victim_class_eq)
  have "vcpus \<noteq> [] \<and> set vcpus \<subseteq> set isolated \<and>
    (ct_CPUs (tuning_of ?cm SpecialChaosVictim) = [] \<longrightarrow> length vcpus = 4)"
    using v
  proof (cases rule: victim_cpus_Returns)
    case explicit
    have named: "ct_Class (tuning_of ?cm SpecialChaosVictim) \<noteq> []"
      using tuning_known_class [OF valid explicit(1)] by auto
    then obtain cpus where "(SpecialChaosVictim, cpus) \<in> set taken"
      using all [OF _ explicit(1)] assms(3) by auto
    then have "set vcpus \<subseteq> set isolated"
      using ok taken_inv_entry(1,2) explicit(3) by (fastforce simp: placing_ok_def)
    with explicit show ?thesis by simp
  next
    case default
    from default_victim(1,2) [OF default(1,2)] show ?thesis by auto
  qed
  moreover have "\<forall>a \<in> set (workers @ [observer_assignment reserved]). set (a_CPUs a) \<inter> set vcpus = {}"
    using comp excl by (auto simp: sorted_wrt_append compatible_def victim_assignment_def)
  ultimately show ?thesis by (simp add: pl butlast_append victim_assignment_def)
qed

theorem plan_victim_isolated_witness:
  "\<exists>pl. sample_build = Returns pl \<and> pl_VictimCPUs pl \<noteq> [] \<and>
    a_CPUs (last (pl_Assignments pl)) = pl_VictimCPUs pl"
proof -
  have "returns_with (\<lambda>pl. True) sample_build" by code_simp
  then obtain pl where pl: "sample_build = Returns pl" by (auto simp: returns_with_iff)
  moreover have "ct_Class (tuning_of (ComponentMap (Spec sample_profile)) SpecialChaosVictim) \<in>
      {[], ClassIsolatedExclusive}" by code_simp
  ultimately show ?thesis
    using plan_victim_isolated [OF fair_order_rev pl [unfolded sample_build_def]] by auto
qed



text \<open>
  C33. One assignment per process: the workers appear in launch order with the identity of their
  process, the class that the component map or the default gives them, the exclusive flag of that
  class, and a GOMAXPROCS equal to the size of their CPU set unless the map overrides it; the
  observer and the victim follow.
\<close>

theorem plan_workers:
  assumes "fair_order it" "BuildPlan it p topo flat = Returns pl"
  shows "\<exists>workers. list_all2 (worker_of p) flat workers \<and>
    map a_Component (pl_Assignments pl) =
      map fp_Component flat @ [SpecialChaosObserver, SpecialChaosVictim] \<and>
    take (length flat) (pl_Assignments pl) = workers"
proof (rule BuildPlan_Returns [OF assms])
  let ?cm = "ComponentMap (Spec p)"
  fix reserved isolated taken workload workers rest vcpus
  assume loop: "process_loop p reserved workload taken flat workload = Returns (workers, rest)"
    and pl: "pl_Assignments pl = workers @ [observer_assignment reserved, victim_assignment ?cm vcpus]"
  have workers: "list_all2 (worker_of p) flat workers" using process_loop_workers [OF loop] by simp
  then have "map a_Component workers = map fp_Component flat"
    by (induction rule: list_all2_induct) (simp_all add: worker_of_def)
  with workers list_all2_lengthD [OF workers] show ?thesis
    by (simp add: pl observer_assignment_def victim_assignment_def)
qed

theorem plan_workers_witness:
  "\<exists>pl. sample_build = Returns pl \<and> map a_Component (pl_Assignments pl) =
    [''etcd'', ''vector'', ''vector'', ''chaos-observer'', ''chaos-victim'']"
proof -
  have "returns_with (\<lambda>pl. True) sample_build" by code_simp
  then obtain pl where pl: "sample_build = Returns pl" by (auto simp: returns_with_iff)
  moreover have "map fp_Component (Topology_Flatten sample_topology 0) = [''etcd'', ''vector'', ''vector'']"
    by code_simp
  ultimately show ?thesis
    using plan_workers [OF fair_order_rev pl [unfolded sample_build_def]]
    by (auto simp: SpecialChaosObserver_def SpecialChaosVictim_def)
qed

text \<open>
  C12. Capacity: a valid profile whose component map names no CPUs can be planned whenever no
  process is best-effort and the isolated pool holds the processes' widths plus the four default
  victim CPUs.
\<close>

theorem plan_capacity:
  assumes "fair_order it" "valid_profile p" "IsolatedCPUs p = (Returns isolated :: (plan_error, cpulist) outcome)"
    and "\<forall>ct \<in> snd ` set (ComponentMap (Spec p)). ct_CPUs ct = []"
    and "\<forall>fp \<in> set flat. process_class p (fp_Component fp) \<noteq> ClassBestEffort"
    and "total_demand p flat + 4 \<le> int (length isolated)"
  shows "\<exists>pl. BuildPlan it p topo flat = Returns pl"
proof -
  obtain reserved where pools: "ReservedCPUs p = (Returns reserved :: (plan_error, cpulist) outcome)"
    "valid_pools (CPU (Spec p)) reserved isolated" "wf_cpus isolated"
    using valid_profile_isolated [OF assms(2,3)] by blast
  note no_cpus = tuning_of_no_cpus [OF assms(4)]
  have disj: "set reserved \<inter> set isolated = {}" using pools(2) by (simp add: valid_pools_def)
  have "total_demand p flat \<le> int (length isolated)" using assms(6) by simp
  then obtain workers rest where loop:
    "process_loop p reserved isolated [] flat isolated = Returns (workers, rest)"
    "wf_cpus rest" "set rest \<subseteq> set isolated" "int (length rest) = int (length isolated) - total_demand p flat"
    "\<forall>a \<in> set workers. slice_of reserved (set isolated - set rest) a" "sorted_wrt compatible workers"
    using process_loop_capacity [of p reserved isolated isolated flat "[]"] no_cpus assms(2,5) disj pools(3)
    by auto
  have room: "4 \<le> length rest" using loop(4) assms(6) by simp
  obtain pl where "finish_plan p topo reserved isolated isolated workers = Returns pl"
    using finish_plan_capacity [OF no_cpus pools(3) disj loop(2,3) room loop(5,6)] by blast
  moreover have "Profile_Validate it p = Returns ()"
    using Validate_Returns_iff [OF assms(1)] assms(2) by simp
  ultimately show ?thesis
    using loop(1) pools(1) assms(3)
    by (simp add: BuildPlan_def Let_def exclusive_loop_skips [OF no_cpus])
qed

definition open_profile :: PerformanceProfile where
  "open_profile = sample_profile\<lparr>Spec := (Spec sample_profile)\<lparr>ComponentMap :=
     [(''etcd'', sample_ct\<lparr>ct_Class := ''isolated-exclusive'', ct_CPUs := [], ct_RTPriority := 0\<rparr>)],
     CPU := (CPU (Spec sample_profile))\<lparr>cpu_Isolated := ''2-7,9-10''\<rparr>\<rparr>\<rparr>"

theorem plan_capacity_witness:
  "\<exists>pl. BuildPlan (\<lambda>k ks. ks) open_profile sample_topology (Topology_Flatten sample_topology 0) = Returns pl"
proof (rule plan_capacity [OF fair_order_id])
  have "Profile_Validate (\<lambda>k ks. ks) open_profile = Returns ()" by code_simp
  then show "valid_profile open_profile" using Validate_Returns_iff [OF fair_order_id] by simp
  show "IsolatedCPUs open_profile = (Returns [2, 3, 4, 5, 6, 7, 9, 10] :: (plan_error, cpulist) outcome)"
    by code_simp
  show "\<forall>ct \<in> snd ` set (ComponentMap (Spec open_profile)). ct_CPUs ct = []" by code_simp
  show "\<forall>fp \<in> set (Topology_Flatten sample_topology 0).
    process_class open_profile (fp_Component fp) \<noteq> ClassBestEffort" by code_simp
  have "total_demand open_profile (Topology_Flatten sample_topology 0) = 4" by code_simp
  then show "total_demand open_profile (Topology_Flatten sample_topology 0) + 4
    \<le> int (length [2, 3, 4, 5, 6, 7, 9, 10 :: int])" by simp
qed

text \<open>
  C35. Termination: planning never hangs where validating the profile does not, whatever the
  topology.
\<close>

theorem plan_terminates:
  assumes "fair_order it"
  shows "BuildPlan it p topo flat = Hangs \<longleftrightarrow> Profile_Validate it p = Hangs"
  using assms by (rule BuildPlan_no_hang)

theorem plan_terminates_witness: "sample_build \<noteq> Hangs"
proof -
  have "Profile_Validate (\<lambda>k ks. rev ks) sample_profile = Returns ()" by code_simp
  then show ?thesis
    using plan_terminates [OF fair_order_rev, of sample_profile] by (simp add: sample_build_def)
qed

text \<open>
  C34. Planning is deterministic: the same plan is returned whatever order the runtime picks for
  the three map iterations that BuildPlan and Validate make.
\<close>

theorem plan_deterministic:
  assumes "fair_order it" "fair_order it'"
  shows "BuildPlan it p topo flat = Returns pl \<longleftrightarrow> BuildPlan it' p topo flat = Returns pl"
  using assms BuildPlan_order_free by metis

theorem plan_deterministic_witness:
  "\<exists>pl. BuildPlan (\<lambda>k ks. ks) sample_profile sample_topology (Topology_Flatten sample_topology 0) = Returns pl"
proof -
  have "returns_with (\<lambda>pl. True) sample_build" by code_simp
  then show ?thesis
    using plan_deterministic [OF fair_order_rev fair_order_id, of sample_profile sample_topology]
    by (auto simp: returns_with_iff sample_build_def)
qed

text \<open>
  Best-effort workers need explicit victim CPUs: without an explicit exclusive CPU set in the
  component map, a process of the best-effort class takes the whole isolated pool, and no plan is
  ever returned.
\<close>

theorem plan_best_effort_needs_victim_cpus:
  assumes "fair_order it" "\<forall>ct \<in> snd ` set (ComponentMap (Spec p)). ct_CPUs ct = []"
    and "fp \<in> set flat" "process_class p (fp_Component fp) = ClassBestEffort"
  shows "BuildPlan it p topo flat \<noteq> Returns pl"
proof
  let ?cm = "ComponentMap (Spec p)"
  assume "BuildPlan it p topo flat = Returns pl"
  then show False
  proof (rule BuildPlan_Returns [OF assms(1)])
    fix reserved isolated taken workload workers rest vcpus
    assume ok: "placing_ok ?cm reserved isolated workload taken"
      and loop: "process_loop p reserved workload taken flat workload = Returns (workers, rest)"
      and v: "victim_cpus ?cm isolated (workers @ [observer_assignment reserved]) = Returns vcpus"
    note no_cpus = tuning_of_no_cpus [OF assms(2)]
    have "workload = isolated" using no_exclusive_sets(2) [OF ok] no_cpus by blast
    with loop assms(3,4) obtain a where a: "a \<in> set workers" "a_CPUs a = isolated"
      using process_loop_best_effort by metis
    from v show False
    proof (cases rule: victim_cpus_Returns)
      case explicit
      with no_cpus show ?thesis by blast
    next
      case default
      have "a \<in> set (workers @ [observer_assignment reserved])" using a(1) by simp
      with default_victim [OF default(1,2)] a(2) show ?thesis by (fastforce simp: Int_absorb2)
    qed
  qed
qed

definition greedy_profile :: PerformanceProfile where
  "greedy_profile = open_profile\<lparr>Spec := (Spec open_profile)\<lparr>DefaultClass := ''best-effort''\<rparr>\<rparr>"

theorem plan_best_effort_needs_victim_cpus_witness:
  "\<not> (\<exists>pl. BuildPlan (\<lambda>k ks. ks) greedy_profile sample_topology
       (Topology_Flatten sample_topology 0) = Returns pl)"
proof -
  let ?fp = "Topology_Flatten sample_topology 0 ! 2"
  have "\<forall>ct \<in> snd ` set (ComponentMap (Spec greedy_profile)). ct_CPUs ct = []" by code_simp
  moreover have "process_class greedy_profile (fp_Component ?fp) = ClassBestEffort \<and>
    2 < length (Topology_Flatten sample_topology 0)" by code_simp
  ultimately show ?thesis
    using plan_best_effort_needs_victim_cpus [OF fair_order_id, of greedy_profile ?fp
        "Topology_Flatten sample_topology 0" sample_topology] by auto
qed

text \<open>
  The workload pool of a plan is the isolated pool minus the explicit exclusive CPU sets, and
  nothing else: the victim's default CPUs stay in it.
\<close>

theorem plan_workload_cpus:
  assumes "fair_order it" "BuildPlan it p topo flat = Returns pl"
  shows "set (pl_WorkloadCPUs pl) = set (pl_Isolated pl) -
    {c. \<exists>name cpus. ct_Class (tuning_of (ComponentMap (Spec p)) name) = ClassIsolatedExclusive \<and>
        ct_CPUs (tuning_of (ComponentMap (Spec p)) name) \<noteq> [] \<and>
        ParseCPUList (ct_CPUs (tuning_of (ComponentMap (Spec p)) name)) = Returns cpus \<and> c \<in> set cpus}"
proof (rule BuildPlan_Returns [OF assms])
  let ?cm = "ComponentMap (Spec p)"
  fix reserved isolated taken workload
  assume ok: "placing_ok ?cm reserved isolated workload taken"
    and all: "\<And>name. ct_Class (tuning_of ?cm name) = ClassIsolatedExclusive \<Longrightarrow>
      ct_CPUs (tuning_of ?cm name) \<noteq> [] \<Longrightarrow> name \<in> fst ` set taken"
    and pl: "pl_Isolated pl = isolated" "pl_WorkloadCPUs pl = workload"
  have inv: "taken_inv ?cm isolated (taken, workload)" using ok by (simp add: placing_ok_def)
  note entry = taken_inv_entry [OF inv]
  have "(\<exists>e \<in> set taken. c \<in> set (snd e)) \<longleftrightarrow>
      (\<exists>name cpus. ct_Class (tuning_of ?cm name) = ClassIsolatedExclusive \<and>
        ct_CPUs (tuning_of ?cm name) \<noteq> [] \<and>
        ParseCPUList (ct_CPUs (tuning_of ?cm name)) = Returns cpus \<and> c \<in> set cpus)" (is "?L \<longleftrightarrow> ?R") for c
  proof
    assume ?L
    then obtain name cpus where "(name, cpus) \<in> set taken" "c \<in> set cpus" by auto
    with entry show ?R by metis
  next
    assume ?R
    then obtain name cpus where n: "ct_Class (tuning_of ?cm name) = ClassIsolatedExclusive"
      "ct_CPUs (tuning_of ?cm name) \<noteq> []"
      "ParseCPUList (ct_CPUs (tuning_of ?cm name)) = Returns cpus" "c \<in> set cpus" by blast
    obtain l where l: "(name, l) \<in> set taken" using all [OF n(1,2)] by auto
    with entry(1) [OF l] n(3,4) show ?L by force
  qed
  moreover have "set workload = set isolated - {c. \<exists>e \<in> set taken. c \<in> set (snd e)}"
    using inv by (auto simp: taken_inv_def)
  ultimately show ?thesis by (simp add: pl)
qed

theorem plan_workload_cpus_witness:
  "\<exists>pl. sample_build = Returns pl \<and> set (pl_WorkloadCPUs pl) \<subseteq> set (pl_Isolated pl)"
proof -
  have "returns_with (\<lambda>pl. True) sample_build" by code_simp
  then obtain pl where pl: "sample_build = Returns pl" by (auto simp: returns_with_iff)
  then show ?thesis using plan_workload_cpus [OF fair_order_rev pl [unfolded sample_build_def]] by auto
qed

text \<open>
  Every process of a flattened topology is found again: looking up its component and replica
  identifier in the plan returns an assignment made for exactly that process.
\<close>

theorem plan_find_assignment:
  assumes "fair_order it" "BuildPlan it p topo (Topology_Flatten topo ov) = Returns pl"
    and "fp \<in> set (Topology_Flatten topo ov)"
  shows "\<exists>a. Plan_FindAssignment pl (fp_Component fp) (fp_ReplicaID fp) = Some a \<and>
    a \<in> set (pl_Assignments pl) \<and> worker_of p fp a"
  using assms by (rule plan_finds_worker)

theorem plan_find_assignment_witness:
  "\<exists>pl a. sample_build = Returns pl \<and> Plan_FindAssignment pl ''vector'' ''vector-1'' = Some a \<and>
    a \<in> set (pl_Assignments pl)"
proof -
  let ?fp = "Topology_Flatten sample_topology 0 ! 2"
  have "returns_with (\<lambda>pl. True) sample_build" by code_simp
  then obtain pl where pl: "sample_build = Returns pl" by (auto simp: returns_with_iff)
  have "fp_Component ?fp = ''vector'' \<and> fp_ReplicaID ?fp = ''vector-1'' \<and>
    2 < length (Topology_Flatten sample_topology 0)" by code_simp
  then show ?thesis
    using plan_find_assignment [OF fair_order_rev pl [unfolded sample_build_def], of ?fp] pl by auto
qed

text \<open>
  A plan can contain an empty CPU set: the CPU expression of a single comma is accepted by
  Validate and denotes no CPU, so the process is planned with an empty list and GOMAXPROCS 0.
\<close>

definition comma_profile :: PerformanceProfile where
  "comma_profile = open_profile\<lparr>Spec := (Spec open_profile)\<lparr>ComponentMap :=
     [(''vector'', sample_ct\<lparr>ct_Class := ''burstable'', ct_CPUs := '','', ct_RTPriority := 0\<rparr>)]\<rparr>\<rparr>"

theorem plan_accepts_empty_cpuset:
  "returns_with (\<lambda>pl. map a_CPUs (pl_Assignments pl) = [[2, 3], [], [], [0, 1], [6, 7, 9, 10]] \<and>
       map a_GOMAXPROCS (pl_Assignments pl) = [2, 0, 0, 2, 4])
     (BuildPlan (\<lambda>k ks. ks) comma_profile sample_topology (Topology_Flatten sample_topology 0))"
  by code_simp

end
