(* ===== verification/ApplierGuarantees.thy ===== *)
theory ApplierGuarantees
  imports ApplierContract
begin

text \<open>
  The properties of \<open>pkg/tuning/applier*.go\<close>: what a wrapped process runs and under which limits,
  for every back end; quoting, environment and unit names; the choice of a back end; and when two
  wrapped processes keep out of each other's cgroup.
\<close>

lemma Wrap_confines:
  assumes "Applier_Wrap b h ops cmd a = (Inr w, ops')" "launchable cmd"
  shows "\<exists>cf. run_of ops' w = Some cf \<and> enforces a cmd cf"
  using assms systemd.wrap_confines cgroup.wrap_confines taskset.wrap_confines by (cases b) auto

lemma Wrap_context:
  assumes "Applier_Wrap b h ops cmd a = (Inr w, ops')"
  shows "same_context a cmd w"
  using assms systemd.wrap_context cgroup.wrap_context taskset.wrap_context by (cases b) auto

lemma Wrap_kernel_cpus:
  assumes "Applier_Wrap b h ops cmd a = (Inr w, ops')" "launchable cmd"
    and "wf_cpus (a_CPUs a)" "max_int \<notin> set (a_CPUs a)" "a_CPUs a \<noteq> []"
  shows "\<exists>cf s. run_of ops' w = Some cf \<and> cf_argv cf = cmd_Path cmd # tl (cmd_Args cmd) \<and>
    cf_cpus cf = Some s \<and> ParseCPUList s = Returns (a_CPUs a)"
  using assms systemd.wrap_kernel_cpus cgroup.wrap_kernel_cpus taskset.wrap_kernel_cpus
  by (cases b) auto

text \<open>A unit name has no slash, so files of two units are different files.\<close>

lemma unit_no_slash: "CHR ''/'' \<notin> set (scopeUnitName a)"
  using scope_unit_chars [of "CHR ''/''" a] unit_char_ascii [of "CHR ''/''"] by auto

lemma unit_files_differ:
  assumes "scopeUnitName a \<noteq> scopeUnitName b" "CHR ''/'' \<notin> set f" "CHR ''/'' \<notin> set g"
  shows "path_join (unitDir a) f \<noteq> path_join (unitDir b) g"
proof
  assume "path_join (unitDir a) f = path_join (unitDir b) g"
  then have "unitDir a @ CHR ''/'' # f = unitDir b @ CHR ''/'' # g" by (simp add: path_join_def)
  then have "unitDir a = unitDir b" using append_last_sep_inj [OF _ assms(2,3)] by blast
  then show False using assms(1) by (simp add: unitDir_def path_join_def)
qed

text \<open>What a cgroup Wrap writes: three files of its own unit only.\<close>

definition own_op :: "Assignment \<Rightarrow> os_op \<Rightarrow> bool" where
  "own_op a op1 \<longleftrightarrow> (\<forall>f s. op1 = WriteFile f s \<longrightarrow>
     f \<in> path_join (unitDir a) ` {''cpuset.cpus'', ''cpuset.cpus.exclusive'', ''memory.max''})"

lemma own_op_simps [simp]:
  "own_op a (MkdirAll d)" "own_op a (WriteFile (path_join (unitDir a) ''cpuset.cpus'') s)"
  "own_op a (WriteFile (path_join (unitDir a) ''cpuset.cpus.exclusive'') s)"
  "own_op a (WriteFile (path_join (unitDir a) ''memory.max'') s)"
  by (auto simp: own_op_def)

lemma cgroup_Wrap_ops:
  assumes "cgroup_Wrap h ops cmd a = (Inr w, ops')"
  obtains new where "ops' = ops @ new" "list_all (own_op a) new"
  using assms by (auto simp: cgroup_Wrap_def Let_def must_Inr split: if_splits)

lemma last_write_None: "(\<And>s. WriteFile f s \<notin> set ops) \<Longrightarrow> last_write f ops = None"
  by (induction ops) (auto split: os_op.splits)

lemma run_of_cgroup:
  assumes "cgroup_Wrap h ops cmd a = (Inr w, ops1)" "launchable cmd"
  shows "run_of ops' w = run_script ops' (cgroup_script cmd a)"
  by (simp add: cgroup_Wrap_Inr(1) [OF assms(1)] run_of_def)

section \<open>Properties\<close>


definition sample_host :: host where
  "sample_host = \<lparr>look = (\<lambda>prog. Some (''/usr/bin/'' @ prog)), op_ok = (\<lambda>ops p. True),
     read_dir = (\<lambda>ops d. None)\<rparr>"

definition sample_cmd :: Cmd where
  "sample_cmd = \<lparr>cmd_Path = ''/opt/chaos-worker'', cmd_Args = [''chaos-worker'', ''--name=it'' @ [CHR 0x27] @ ''s''],
     cmd_Env = [''PATH=/bin'', ''GOMAXPROCS=64''], cmd_Dir = [], cmd_Stdin = None, cmd_Stdout = None,
     cmd_Stderr = None, cmd_SysProcAttr = None\<rparr>"

definition rt_assignment :: Assignment where
  "rt_assignment = \<lparr>a_Component = ''etcd'', a_ReplicaID = ''etcd-0'', a_Class = ''isolated-exclusive'',
     a_CPUs = [4, 5, 6, 9], a_Exclusive = True, a_GOMAXPROCS = 4, a_MemoryMax = 1024, a_RTPriority = 50,
     a_NUMANode = -1, a_Source = []\<rparr>"


text \<open>
  The wrapped process keeps the directory, streams and attributes of the original command and
  finds exactly one GOMAXPROCS entry in its environment, the planned one; all other entries are
  kept in order.
\<close>

theorem applier_environment:
  assumes "Applier_Wrap b h ops cmd a = (Inr w, ops')" "a_GOMAXPROCS a > 0"
  shows "cmd_Dir w = cmd_Dir cmd \<and> cmd_Stdout w = cmd_Stdout cmd \<and> cmd_Stderr w = cmd_Stderr cmd \<and>
    filter (\<lambda>e. HasPrefix e ''GOMAXPROCS='') (cmd_Env w) = [''GOMAXPROCS='' @ Itoa (a_GOMAXPROCS a)] \<and>
    filter (\<lambda>e. \<not> HasPrefix e ''GOMAXPROCS='') (cmd_Env w) =
      filter (\<lambda>e. \<not> HasPrefix e ''GOMAXPROCS='') (cmd_Env cmd)"
  using Wrap_context [OF assms(1)] assms(2)
    appendOrReplaceEnv_spec [of "''GOMAXPROCS''" "cmd_Env cmd" "Itoa (a_GOMAXPROCS a)"]
  by (simp add: same_context_def)

theorem applier_environment_witness:
  "\<exists>w ops'. Applier_Wrap Systemd sample_host [] sample_cmd rt_assignment = (Inr w, ops') \<and>
    filter (\<lambda>e. HasPrefix e ''GOMAXPROCS='') (cmd_Env w) = [''GOMAXPROCS='' @ Itoa 4]"
proof -
  have "(case Applier_Wrap Systemd sample_host [] sample_cmd rt_assignment of
      (r, ops') \<Rightarrow> (case r of Inl _ \<Rightarrow> False | Inr _ \<Rightarrow> True))" by code_simp
  then obtain w ops' where w: "Applier_Wrap Systemd sample_host [] sample_cmd rt_assignment = (Inr w, ops')"
    by (auto split: prod.splits sum.splits)
  then show ?thesis using applier_environment [OF w] by (simp add: rt_assignment_def)
qed

text \<open>
  C39. Quoting is exact: a command line of quoted valid UTF-8 arguments, spaces, quotes, newlines
  and all, is read back by the shell as exactly these arguments.
\<close>

theorem shell_quote_roundtrip:
  assumes "\<forall>a \<in> set args. valid_utf8 a"
  shows "sh_lex Gap (concat (map (\<lambda>arg. shellQuote arg @ '' '') args)) = Some (map Word args)"
  using assms by (rule lex_shellQuote_args)

theorem shell_quote_roundtrip_witness:
  "sh_lex Gap (concat (map (\<lambda>arg. shellQuote arg @ '' '') [[CHR 0x27, CHR ''$''], [], [CHR 0xC3, CHR 0xA9]])) =
    Some (map Word [[CHR 0x27, CHR ''$''], [], [CHR 0xC3, CHR 0xA9]])"
  by (rule shell_quote_roundtrip) code_simp

text \<open>
  Units are kept apart exactly by their names: wrapping another process afterwards leaves the
  confinement of the first one as planned when the unit names differ, and replaces its CPUs by
  those of the second when the names are equal, as they are for two replicas whose names differ
  only in characters that sanitiseUnit rewrites.
\<close>

theorem cgroup_units_apart:
  assumes "cgroup_Wrap h ops cmd a = (Inr w, ops1)" "launchable cmd"
    and "cgroup_Wrap h ops1 cmd' b = (Inr w', ops2)"
  shows "(scopeUnitName a \<noteq> scopeUnitName b \<longrightarrow>
      (\<exists>cf. run_of ops2 w = Some cf \<and> enforces a cmd cf)) \<and>
    (scopeUnitName a = scopeUnitName b \<longrightarrow> a_CPUs b \<noteq> [] \<longrightarrow>
      (\<exists>cf. run_of ops2 w = Some cf \<and> cf_cpus cf = Some (CPUList_String (a_CPUs b))))"
proof (intro conjI impI)
  obtain new where new: "ops2 = ops1 @ new" "list_all (own_op b) new"
    using cgroup_Wrap_ops [OF assms(3)] by blast
  assume apart: "scopeUnitName a \<noteq> scopeUnitName b"
  have "last_write (path_join (unitDir a) f) new = None" if "CHR ''/'' \<notin> set f" for f
  proof (rule last_write_None)
    fix s show "WriteFile (path_join (unitDir a) f) s \<notin> set new"
      using new(2) unit_files_differ [OF apart that] by (fastforce simp: list_all_iff own_op_def)
  qed
  then have "last_write (path_join (unitDir a) ''cpuset.cpus'') ops2 = last_write (path_join (unitDir a) ''cpuset.cpus'') ops1"
    "last_write (path_join (unitDir a) ''memory.max'') ops2 = last_write (path_join (unitDir a) ''memory.max'') ops1"
    by (simp_all add: new(1) last_write_append)
  then have "run_of ops2 w = run_of ops1 w"
    by (simp add: run_of_cgroup [OF assms(1,2)] run_script_cgroup [OF assms(2)])
  with cgroup.wrap_confines [OF assms(1,2)] show "\<exists>cf. run_of ops2 w = Some cf \<and> enforces a cmd cf" by simp
next
  assume "scopeUnitName a = scopeUnitName b" "a_CPUs b \<noteq> []"
  then have "last_write (path_join (unitDir a) ''cpuset.cpus'') ops2 = Some (CPUList_String (a_CPUs b))"
    using cgroup_Wrap_Inr(2) [OF assms(3)] by (simp add: unitDir_def)
  then show "\<exists>cf. run_of ops2 w = Some cf \<and> cf_cpus cf = Some (CPUList_String (a_CPUs b))"
    by (simp add: run_of_cgroup [OF assms(1,2)] run_script_cgroup [OF assms(2)])
qed

definition clash_assignment :: "string \<Rightarrow> cpulist \<Rightarrow> Assignment" where
  "clash_assignment name l = rt_assignment\<lparr>a_Component := name, a_ReplicaID := name @ ''-0'', a_CPUs := l\<rparr>"

theorem cgroup_units_apart_witness:
  "\<exists>w ops1 w' ops2 cf. cgroup_Wrap sample_host [] sample_cmd (clash_assignment ''a.b'' [4]) = (Inr w, ops1) \<and>
    cgroup_Wrap sample_host ops1 sample_cmd (clash_assignment ''a_b'' [5]) = (Inr w', ops2) \<and>
    run_of ops2 w = Some cf \<and> cf_cpus cf = Some (CPUList_String [5])"
proof -
  have ok: "\<exists>w ops'. cgroup_Wrap sample_host ops sample_cmd a = (Inr w, ops')" for ops a
    by (simp add: cgroup_Wrap_def must_def sample_host_def sample_cmd_def Let_def)
  obtain w ops1 where w: "cgroup_Wrap sample_host [] sample_cmd (clash_assignment ''a.b'' [4]) = (Inr w, ops1)"
    using ok by blast
  obtain w' ops2 where w': "cgroup_Wrap sample_host ops1 sample_cmd (clash_assignment ''a_b'' [5]) = (Inr w', ops2)"
    using ok by blast
  have l: "launchable sample_cmd" by code_simp
  have "scopeUnitName (clash_assignment ''a.b'' [4]) = scopeUnitName (clash_assignment ''a_b'' [5])"
    by code_simp
  moreover have "a_CPUs (clash_assignment ''a_b'' [5]) = [5]" by code_simp
  ultimately show ?thesis using cgroup_units_apart [OF w l w'] w w' by auto
qed

text \<open>
  AutoSelect returns a back end that reported itself available, the one asked for when one is
  named; unnamed, it prefers systemd-run whenever that program exists, and never fails on a host
  that has taskset.
\<close>

theorem autoselect_correct:
  "(\<forall>b ops'. AutoSelect h override ops = (Inr b, ops') \<longrightarrow>
      (\<exists>ops1. Applier_Available b h ops1 = (True, ops')) \<and>
      (override \<noteq> [] \<longrightarrow> Applier_Name b = override)) \<and>
   (look h ''systemd-run'' \<noteq> None \<longrightarrow> AutoSelect h [] ops = (Inr Systemd, ops)) \<and>
   (look h ''taskset'' \<noteq> None \<longrightarrow> (\<exists>b ops'. AutoSelect h [] ops = (Inr b, ops')))"
proof (intro conjI)
  have first: "select_first h cs ops = (Inr b, ops') \<Longrightarrow> \<exists>ops1. Applier_Available b h ops1 = (True, ops')"
    for cs b ops ops'
    by (induction cs arbitrary: ops) (auto split: prod.splits if_splits)
  have named: "select_named h name cs ops = (Inr b, ops') \<Longrightarrow>
      (\<exists>ops1. Applier_Available b h ops1 = (True, ops')) \<and> Applier_Name b = name" for name cs b ops ops'
    by (induction cs arbitrary: ops) (auto split: prod.splits if_splits)
  show "\<forall>b ops'. AutoSelect h override ops = (Inr b, ops') \<longrightarrow>
      (\<exists>ops1. Applier_Available b h ops1 = (True, ops')) \<and>
      (override \<noteq> [] \<longrightarrow> Applier_Name b = override)"
    using first named by (auto simp: AutoSelect_def)
qed (auto simp: AutoSelect_def candidates_def systemd_Available_def taskset_Available_def split: prod.splits)

theorem autoselect_correct_witness:
  "AutoSelect sample_host [] [] = (Inr Systemd, []) \<and>
   AutoSelect (sample_host\<lparr>look := [''taskset'' \<mapsto> ''/bin/taskset'']\<rparr>) [] [] \<noteq> (Inl NoneAvailable, [])"
proof -
  have "look sample_host ''systemd-run'' \<noteq> None"
    "look (sample_host\<lparr>look := [''taskset'' \<mapsto> ''/bin/taskset'']\<rparr>) ''taskset'' \<noteq> None"
    by (simp_all add: sample_host_def)
  with autoselect_correct [of sample_host "[]" "[]"]
    autoselect_correct [of "sample_host\<lparr>look := [''taskset'' \<mapsto> ''/bin/taskset'']\<rparr>" "[]" "[]"]
  show ?thesis by auto
qed

end
