(* ===== verification/LaunchGuarantees.thy ===== *)
theory LaunchGuarantees
  imports Launcher PlanGuarantees ApplierGuarantees
begin

text \<open>
  The properties of the launcher: what holds of a tuned run that begins, what each worker's command
  is, and what becomes of the environment.
\<close>

section \<open>A sample launch\<close>

definition sample_world :: world where
  "sample_world = \<lparr>w_host = sample_host, w_sysfs = strict_host, w_proc = sample_proc,
     w_status = (\<lambda>pid. Some (allowed_prefix @
       (if pid = 21 then '' 6-7'' else if pid = 22 then '' 0-1'' else if pid = 23 then '' 2''
        else if pid = 24 then '' 3'' else '' 0''))),
     w_start = (\<lambda>procs cmd. Some (if procs = [] then 7 else 20 + int (length procs))),
     w_environ = [''PATH=/bin''], w_iter = (\<lambda>k ks. rev ks), w_pids = (\<lambda>k ps. rev ps),
     w_stat = (\<lambda>p. True), w_listen = (\<lambda>p. True), w_tmp = ''/tmp''\<rparr>"

definition sample_run :: Config where
  "sample_run = (applyDefaults sample_config)\<lparr>rc_TuningBackend := ''cgroup-v2''\<rparr>"

definition is_running :: "launch_result \<Rightarrow> bool" where
  "is_running r = (case r of Running tn procs \<Rightarrow> True | Fatal e procs \<Rightarrow> False | Stuck \<Rightarrow> False)"

lemma is_running_iff: "is_running r \<longleftrightarrow> (\<exists>tn procs. r = Running tn procs)"
  by (cases r) (simp_all add: is_running_def)

lemma sample_launch:
  obtains tn procs where "launch sample_world sample_run (Some sample_profile) sample_topology ''/opt/bin'' ''/var/raw'' =
    Running tn procs"
proof -
  have "is_running (launch sample_world sample_run (Some sample_profile) sample_topology ''/opt/bin'' ''/var/raw'')"
    by code_simp
  then show thesis using that by (auto simp: is_running_iff)
qed

lemma sample_iter: "fair_order (w_iter sample_world)"
  by (simp add: sample_world_def fair_order_rev)

section \<open>Properties\<close>





text \<open>
  The victim of a tuned run is pinned where the plan isolates it and loses its environment: it
  is told the victim CPUs of the plan, not those of the run config, and when its assignment carries
  a thread count it sees no variable of the launcher's environment but that one.
\<close>

theorem launch_victim:
  assumes "launch w rc (Some p) topo binDir rawDir = Running (Some (pl, app)) procs"
    and "Plan_FindAssignment pl SpecialChaosVictim [] = Some a"
    and "valid_utf8 (path_join binDir ''chaos-victim'')" "\<forall>arg \<in> set (victim_args rawDir rc (Some pl)). valid_utf8 arg"
  shows "\<exists>ops cf. run_of ops (mp_cmd (procs ! 1)) = Some cf \<and>
    cf_argv cf = path_join binDir ''chaos-victim'' # victim_args rawDir rc (Some pl) \<and>
    (a_CPUs a \<noteq> [] \<longrightarrow> cf_cpus cf = Some (CPUList_String (a_CPUs a))) \<and>
    (pl_VictimCPUs pl \<noteq> [] \<longrightarrow>
      last (cf_argv cf) = ''--pinning-cpus='' @ CPUList_String (pl_VictimCPUs pl)) \<and>
    effective_env (w_environ w) (mp_cmd (procs ! 1)) =
      (if a_GOMAXPROCS a > 0 then [''GOMAXPROCS='' @ Itoa (a_GOMAXPROCS a)] else w_environ w)"
proof (rule launch_Running [OF assms(1)])
  let ?flat = "Topology_Flatten topo (rc_WorkerGOMAXPROCS rc)"
  let ?cmd = "victim_cmd (w_host w) binDir rawDir rc (Some pl)"
  fix pl' app'
  assume tn: "Some (pl, app) = Some (pl', app')"
    and procs: "list_all2 (spawned (w_host w) (Some (pl, app)))
       (spawn_items (w_host w) (w_environ w) binDir rawDir rc (sync_socket w rc) (Some pl') ?flat) procs"
  have "spawned (w_host w) (Some (pl, app)) (''victim'', SpecialChaosVictim, [], ?cmd) (procs ! 1)"
    using list_all2_nthD [OF procs, of 1] tn by (simp add: spawn_items_def)
  then obtain ops ops' where wrap: "Applier_Wrap app (w_host w) ops ?cmd a = (Inr (mp_cmd (procs ! 1)), ops')"
    using spawned_tuned assms(2) by blast
  have path: "cmd_Path ?cmd = path_join binDir ''chaos-victim''" "tl (cmd_Args ?cmd) = victim_args rawDir rc (Some pl)"
    "cmd_Env ?cmd = []" "cmd_Args ?cmd \<noteq> []"
    by (simp_all add: victim_cmd_def CommandContext_def path_join_def)
  then have "launchable ?cmd"
    using assms(3,4) by (simp add: launchable_def path_join_def)
  from Wrap_confines [OF wrap this] obtain cf where cf: "run_of ops' (mp_cmd (procs ! 1)) = Some cf" "enforces a ?cmd cf"
    by blast
  have "last (victim_args rawDir rc (Some pl)) = ''--pinning-cpus='' @ CPUList_String (pl_VictimCPUs pl)"
    if "pl_VictimCPUs pl \<noteq> []"
    using that by (simp add: victim_args_def Let_def)
  moreover have "victim_args rawDir rc (Some pl) \<noteq> []" by (simp add: victim_args_def Let_def)
  moreover have "cmd_Env (mp_cmd (procs ! 1)) = (if a_GOMAXPROCS a > 0 then [''GOMAXPROCS='' @ Itoa (a_GOMAXPROCS a)] else [])"
    using Wrap_context [OF wrap] path(3) by (simp add: same_context_def appendOrReplaceEnv_def)
  ultimately show ?thesis
    using cf path
    by (intro exI [of _ ops'] exI [of _ cf]) (auto simp: enforces_def effective_env_def)
qed

theorem launch_victim_witness:
  "\<exists>pl app procs. launch sample_world sample_run (Some sample_profile) sample_topology ''/opt/bin'' ''/var/raw'' =
      Running (Some (pl, app)) procs \<and>
    effective_env (w_environ sample_world) (mp_cmd (procs ! 1)) = [''GOMAXPROCS=2'']"
proof (rule sample_launch)
  fix tn procs
  assume run: "launch sample_world sample_run (Some sample_profile) sample_topology ''/opt/bin'' ''/var/raw'' = Running tn procs"
  obtain pl app where tn: "tn = Some (pl, app)"
    and plan: "BuildPlan (w_iter sample_world) sample_profile sample_topology
      (Topology_Flatten sample_topology (rc_WorkerGOMAXPROCS sample_run)) = Returns pl"
    by (rule launch_Running [OF run]) blast
  have "returns_with (\<lambda>pl. case Plan_FindAssignment pl SpecialChaosVictim [] of None \<Rightarrow> False | Some a \<Rightarrow> a_GOMAXPROCS a = 2)
      (BuildPlan (w_iter sample_world) sample_profile sample_topology
        (Topology_Flatten sample_topology (rc_WorkerGOMAXPROCS sample_run)))"
    and args: "returns_with (\<lambda>pl. \<forall>arg \<in> set (victim_args ''/var/raw'' sample_run (Some pl)). valid_utf8 arg)
      (BuildPlan (w_iter sample_world) sample_profile sample_topology
        (Topology_Flatten sample_topology (rc_WorkerGOMAXPROCS sample_run)))"
    and bin: "valid_utf8 (path_join ''/opt/bin'' ''chaos-victim'')" "''GOMAXPROCS='' @ Itoa 2 = ''GOMAXPROCS=2''"
    by code_simp+
  then obtain a where a: "Plan_FindAssignment pl SpecialChaosVictim [] = Some a" "a_GOMAXPROCS a = 2"
    by (auto simp: plan returns_with_def split: option.splits)
  have args': "\<forall>arg \<in> set (victim_args ''/var/raw'' sample_run (Some pl)). valid_utf8 arg"
    using args by (simp add: plan returns_with_def)
  have "effective_env (w_environ sample_world) (mp_cmd (procs ! 1)) =
      (if a_GOMAXPROCS a > 0 then [''GOMAXPROCS='' @ Itoa (a_GOMAXPROCS a)] else w_environ sample_world)"
    using launch_victim [OF run [unfolded tn] a(1) bin(1) args'] by blast
  with a(2) bin(2) run tn show ?thesis by simp
qed

end
