(* ===== verification/ObserverGuarantees.thy ===== *)
theory ObserverGuarantees
  imports Observer RuntimeInfo LaunchGuarantees
begin

text \<open>
  The properties of the observer: when its percentages are percentages, which processes it counts in
  a run of the launcher, and that its sums agree with what the workers report about themselves.
\<close>

section \<open>Word differences\<close>

text \<open>The clock ticks between two samples of the eight counters, each modulo \<open>2^64\<close>.\<close>

definition ticks_between :: "statSample \<Rightarrow> statSample \<Rightarrow> int" where
  "ticks_between s prev =
     uint (user_of s - user_of prev) + uint (nice_of s - nice_of prev) + uint (system_of s - system_of prev) +
     uint (idle_of s - idle_of prev) + uint (iowait_of s - iowait_of prev) + uint (irq_of s - irq_of prev) +
     uint (softirq_of s - softirq_of prev) + uint (steal_of s - steal_of prev)"

lemma uint_bounds: "0 \<le> uint (a :: 64 word)" "uint a < 18446744073709551616"
  using uint_lt2p [of a] by simp_all

lemma total_difference:
  assumes "ticks_between s prev < 2 ^ 64"
  shows "uint (total_of s - total_of prev) = ticks_between s prev"
proof -
  define u n y i w q f t where "u = user_of s - user_of prev" and "n = nice_of s - nice_of prev"
    and "y = system_of s - system_of prev" and "i = idle_of s - idle_of prev"
    and "w = iowait_of s - iowait_of prev" and "q = irq_of s - irq_of prev"
    and "f = softirq_of s - softirq_of prev" and "t = steal_of s - steal_of prev"
  note defs = this
  have "total_of s - total_of prev = u + n + y + i + w + q + f + t"
    by (simp add: total_of_def defs)
  moreover have small: "uint u + uint n + uint y + uint i + uint w + uint q + uint f + uint t < 2 ^ 64"
    using assms by (simp add: ticks_between_def defs)
  have "uint (u + n + y + i + w + q + f + t) =
      (uint u + uint n + uint y + uint i + uint w + uint q + uint f + uint t) mod 2 ^ 64"
    by (simp add: uint_word_ariths mod_add_left_eq mod_add_right_eq)
  moreover have "\<dots> = uint u + uint n + uint y + uint i + uint w + uint q + uint f + uint t"
    using small by (intro mod_pos_pos_trivial add_nonneg_nonneg uint_bounds(1))
  ultimately show ?thesis by (simp add: ticks_between_def defs)
qed

lemma user_nice_difference:
  assumes "ticks_between s prev \<le> 2 ^ 46"
  shows "uint (user_of s + nice_of s - (user_of prev + nice_of prev)) =
    uint (user_of s - user_of prev) + uint (nice_of s - nice_of prev)"
proof -
  define u n where "u = user_of s - user_of prev" and "n = nice_of s - nice_of prev"
  have eq: "user_of s + nice_of s - (user_of prev + nice_of prev) = u + n"
    by (simp add: u_def n_def)
  have "uint u + uint n \<le> ticks_between s prev"
    by (simp add: ticks_between_def u_def n_def)
  with assms have "uint u + uint n < 2 ^ 64" by simp
  then have "uint (u + n) = uint u + uint n" by (simp add: uint_plus_if_size word_size)
  then show ?thesis by (simp only: eq u_def n_def)
qed

section \<open>Percentages\<close>

lemma second_ns_pos: "0 < second_ns"
  by (simp add: second_ns_def)

lemma seconds_pos:
  assumes "float_rounding fl" "0 < d" shows "0 < seconds fl d"
proof -
  have low: "1 / 2 ^ 30 \<le> fl x" if "1 / 2 ^ 30 \<le> x" for x
    using float_rounding_mono [OF assms(1) that] float_rounding_dyadic [OF assms(1), of 1 30] by simp
  have "0 \<le> d div second_ns" "0 \<le> d mod second_ns"
    using assms(2) by (simp_all add: second_ns_def pos_imp_zdiv_nonneg_iff)
  then have nonneg: "0 \<le> fl (of_int (d div second_ns))" "0 \<le> fl (fl (of_int (d mod second_ns)) / of_int second_ns)"
    by (intro float_rounding_nonneg [OF assms(1)] divide_nonneg_nonneg of_int_nonneg; simp add: second_ns_def)+
  have "1 / 2 ^ 30 \<le> fl (of_int (d div second_ns)) + fl (fl (of_int (d mod second_ns)) / of_int second_ns)"
  proof (cases "1 \<le> d div second_ns")
    case True
    then have "fl 1 \<le> fl (of_int (d div second_ns))"
      by (intro float_rounding_mono [OF assms(1)]) simp
    then show ?thesis using nonneg(2) float_rounding_int [OF assms(1), of 1] by simp
  next
    case False
    then have m: "d mod second_ns = d" using assms(2) by (simp add: second_ns_def)
    have "fl 1 \<le> fl (of_int d)" using assms(2) by (intro float_rounding_mono [OF assms(1)]) simp
    then have "1 \<le> fl (of_int d)" using float_rounding_int [OF assms(1), of 1] by simp
    then have "1 / 2 ^ 30 \<le> fl (of_int d) / of_int second_ns"
      by (simp add: second_ns_def field_simps)
    then show ?thesis using low nonneg(1) m by fastforce
  qed
  from low [OF this] have "1 / 2 ^ 30 \<le> seconds fl d"
    using assms(2) by (simp only: seconds_def go_div_nonneg go_mod_nonneg second_ns_pos less_imp_le)
  then show ?thesis by (rule less_le_trans [rotated]) simp
qed

lemma pct_range:
  assumes "float_rounding fl" "uint (now - prevV) \<le> T" "0 < T" "T \<le> 2 ^ 46"
  shows "0 \<le> pct fl (of_int T) now prevV" "pct fl (of_int T) now prevV \<le> 100"
proof -
  define x where "x = uint (now - prevV)"
  have x: "0 \<le> x" "x \<le> T" using assms(2) uint_bounds(1) by (simp_all add: x_def)
  have "fl (of_int x) = of_int x" "fl (of_int (100 * x)) = of_int (100 * x)"
    using x assms(3,4) by (intro float_rounding_int [OF assms(1)]; simp)+
  then have p: "pct fl (of_int T) now prevV = fl (of_int (100 * x) / of_int T)"
    by (simp only: pct_def x_def [symmetric]) simp
  have "0 \<le> of_int (100 * x) / (of_int T :: rat)"
    using x assms(3) by (intro divide_nonneg_nonneg) simp_all
  then show "0 \<le> pct fl (of_int T) now prevV"
    unfolding p by (rule float_rounding_nonneg [OF assms(1)])
  have "of_int (100 * x) \<le> (of_int (100 * T) :: rat)" using x by (simp only: of_int_le_iff)
  then have "of_int (100 * x) / of_int T \<le> (100 :: rat)"
    using assms(3) by (simp add: divide_le_eq)
  from float_rounding_mono [OF assms(1) this] have "pct fl (of_int T) now prevV \<le> fl 100"
    by (simp only: p)
  also have "fl 100 = 100" using float_rounding_int [OF assms(1), of 100] by simp
  finally show "pct fl (of_int T) now prevV \<le> 100" .
qed

lemma pct_back:
  assumes "float_rounding fl" "2 ^ 53 \<le> uint (now - prevV)" "0 < T" "T \<le> 2 ^ 46"
  shows "128 \<le> pct fl (of_int T) now prevV"
proof -
  let ?x = "uint (now - prevV)" and ?b = "2 ^ 53 :: rat"
  have b: "fl ?b = ?b" using float_rounding_int [OF assms(1), of "2 ^ 53"] by simp
  have "?b \<le> of_int ?x" using assms(2) by (metis of_int_le_iff of_int_numeral of_int_power)
  then have "?b \<le> fl (of_int ?x)" using float_rounding_mono [OF assms(1)] b by metis
  then have "?b \<le> 100 * fl (of_int ?x)" by simp
  then have "?b \<le> fl (100 * fl (of_int ?x))" using float_rounding_mono [OF assms(1)] b by metis
  moreover have "(of_int T :: rat) \<le> of_int (2 ^ 46)" using assms(4) by (simp only: of_int_le_iff)
  ultimately have "128 \<le> fl (100 * fl (of_int ?x)) / of_int T"
    using assms(3) by (simp add: le_divide_eq)
  from float_rounding_mono [OF assms(1) this] have "fl 128 \<le> pct fl (of_int T) now prevV"
    by (simp only: pct_def)
  moreover have "fl 128 = 128" using float_rounding_int [OF assms(1), of 128] by simp
  ultimately show ?thesis by simp
qed

text \<open>The delta when both samples are there, in order, and some ticks passed.\<close>

lemma delta_of_eq:
  assumes "float_rounding fl" "ts_of s = Some now" "ts_of prev = Some before" "before < now"
    and "0 < uint (total_of s - total_of prev)" "uint (total_of s - total_of prev) \<le> 2 ^ 46"
  defines "T \<equiv> of_int (uint (total_of s - total_of prev))"
  shows "delta_of fl s prev =
    \<lparr>d_ctxt = ctxt_rate fl (seconds fl (now - before)) s prev,
     d_user = pct fl T (user_of s + nice_of s) (user_of prev + nice_of prev),
     d_system = pct fl T (system_of s) (system_of prev), d_idle = pct fl T (idle_of s) (idle_of prev),
     d_iowait = pct fl T (iowait_of s) (iowait_of prev), d_irq = pct fl T (irq_of s) (irq_of prev),
     d_softirq = pct fl T (softirq_of s) (softirq_of prev), d_steal = pct fl T (steal_of s) (steal_of prev)\<rparr>"
proof -
  have "fl T = T" unfolding T_def
    by (rule float_rounding_int [OF assms(1)]) (use assms(5,6) in simp)
  moreover have "0 < T" by (simp only: T_def of_int_0_less_iff assms(5))
  moreover have "0 < seconds fl (now - before)" using assms by (intro seconds_pos) simp_all
  ultimately show ?thesis
    unfolding delta_of_def assms(2,3) option.case prod.case Let_def T_def [symmetric]
    by (simp add: zero_delta_def)
qed

section \<open>The search for workers\<close>

lemma scan_workers_Cons: "set (scan_workers fs flt es) \<subseteq> set (scan_workers fs flt (e # es))"
proof -
  obtain name isDir pid err where "e = (name, isDir)" "Atoi name = (pid, err)" by (cases e) fastforce
  then show ?thesis by (auto split: option.splits)
qed

lemma scan_workers_found:
  assumes "(name, True) \<in> set es" "Atoi name = (pid, None)"
    and "proc_file fs (''/proc/'' @ name @ ''/cmdline'') = Some cmdline" "Contains cmdline flt"
  shows "pid \<in> set (scan_workers fs flt es)"
  using assms(1)
proof (induction es)
  case (Cons e es)
  show ?case
  proof (cases "e = (name, True)")
    case True
    then show ?thesis using assms(2-4) by simp
  next
    case False
    then have "pid \<in> set (scan_workers fs flt es)" using Cons by simp
    then show ?thesis using scan_workers_Cons by (rule subsetD [rotated])
  qed
qed simp

text \<open>The command line of a running process: its arguments, each ended by a zero byte.\<close>

definition cmdline_of :: "string list \<Rightarrow> string" where
  "cmdline_of argv = concat (map (\<lambda>a. a @ [CHR 0x00]) argv)"

lemma cmdline_contains: "a \<in> set argv \<Longrightarrow> Contains a flt \<Longrightarrow> Contains (cmdline_of argv) flt"
proof -
  assume "a \<in> set argv" "Contains a flt"
  obtain xs ys where "argv = xs @ a # ys" using \<open>a \<in> set argv\<close> by (meson split_list)
  moreover obtain x y where "a = x @ flt @ y" using \<open>Contains a flt\<close> by (auto simp: Contains_split)
  ultimately have "cmdline_of argv = (cmdline_of xs @ x) @ flt @ (y @ [CHR 0x00] @ cmdline_of ys)"
    by (simp add: cmdline_of_def)
  then show ?thesis by (simp only: Contains_mid)
qed

text \<open>A process id with the given arguments among the entries of \<open>/proc\<close>.\<close>

definition runs_as :: "proc_fs \<Rightarrow> int \<Rightarrow> string list \<Rightarrow> bool" where
  "runs_as fs pid argv \<longleftrightarrow>
     0 \<le> pid \<and> pid \<le> max_int \<and> (\<exists>es. dir_entries fs = Some es \<and> (Itoa pid, True) \<in> set es) \<and>
     proc_file fs (''/proc/'' @ Itoa pid @ ''/cmdline'') = Some (cmdline_of argv)"

lemma runs_as_found:
  assumes "runs_as fs pid argv" "a \<in> set argv" "Contains a flt"
  shows "pid \<in> set (findWorkerPIDs fs flt)"
proof -
  obtain es where es: "dir_entries fs = Some es" "(Itoa pid, True) \<in> set es"
    using assms(1) by (auto simp: runs_as_def)
  have "Atoi (Itoa pid) = (pid, None)"
    using assms(1) by (intro Atoi_Itoa) (simp_all add: runs_as_def min_int_def)
  from scan_workers_found [OF es(2) this] show ?thesis
    using assms cmdline_contains es(1) by (simp add: findWorkerPIDs_def runs_as_def)
qed

section \<open>Sums\<close>

text \<open>At most one line of each of the two labels, and its number parses.\<close>

definition labelled :: "string \<Rightarrow> string \<Rightarrow> string list" where
  "labelled label s = filter (\<lambda>l. HasPrefix l label) (scan_lines s)"

definition readable_status :: "string \<Rightarrow> bool" where
  "readable_status s \<longleftrightarrow>
     length (labelled ''Threads:'' s) \<le> 1 \<and>
     (\<forall>l \<in> set (labelled ''Threads:'' s). length (Fields l) = 2 \<and> snd (Atoi (Fields l ! 1)) = None) \<and>
     length (labelled ''VmRSS:'' s) \<le> 1 \<and>
     (\<forall>l \<in> set (labelled ''VmRSS:'' s). length (Fields l) \<ge> 2 \<and> snd (ParseInt (Fields l ! 1)) = None)"

lemma threads_in_none: "filter (\<lambda>l. HasPrefix l ''Threads:'') ls = [] \<Longrightarrow> threads_in ls = 0"
  by (induction ls) (auto split: if_splits)

lemma rss_in_none: "filter (\<lambda>l. HasPrefix l ''VmRSS:'') ls = [] \<Longrightarrow> rss_in ls = 0"
  by (induction ls) (auto split: if_splits)

lemma labels_differ: "\<not> (HasPrefix l ''Threads:'' \<and> HasPrefix l ''VmRSS:'')"
  by (auto simp: HasPrefix_iff)

lemma status_sums_eq:
  assumes "length (filter (\<lambda>l. HasPrefix l ''Threads:'') ls) \<le> 1"
    and "\<forall>l \<in> set ls. HasPrefix l ''Threads:'' \<longrightarrow> length (Fields l) = 2 \<and> snd (Atoi (Fields l ! 1)) = None"
    and "length (filter (\<lambda>l. HasPrefix l ''VmRSS:'') ls) \<le> 1"
    and "\<forall>l \<in> set ls. HasPrefix l ''VmRSS:'' \<longrightarrow> length (Fields l) \<ge> 2 \<and> snd (ParseInt (Fields l ! 1)) = None"
  shows "status_sums ls (wrap64 t) (wrap64 r) = (wrap64 (t + threads_in ls), wrap64 (r + rss_in ls))"
  using assms
proof (induction ls arbitrary: t r)
  case (Cons l ls)
  consider "HasPrefix l ''Threads:''" "\<not> HasPrefix l ''VmRSS:''" | "HasPrefix l ''VmRSS:''" "\<not> HasPrefix l ''Threads:''"
    | "\<not> HasPrefix l ''Threads:''" "\<not> HasPrefix l ''VmRSS:''"
    using labels_differ by blast
  then show ?case
  proof cases
    case 1
    obtain n where n: "Atoi (Fields l ! 1) = (n, None)" "length (Fields l) = 2"
      using 1 Cons.prems(2) by (cases "Atoi (Fields l ! 1)") auto
    have "threads_in ls = 0" using 1 Cons.prems(1) by (intro threads_in_none) simp
    then show ?thesis using 1 n Cons.IH [of "t + n" r] Cons.prems by (simp add: Let_def)
  next
    case 2
    obtain n where n: "ParseInt (Fields l ! 1) = (n, None)" "length (Fields l) \<ge> 2"
      using 2 Cons.prems(4) by (cases "ParseInt (Fields l ! 1)") auto
    have "rss_in ls = 0" using 2 Cons.prems(3) by (intro rss_in_none) simp
    then show ?thesis using 2 n Cons.IH [of t "r + n * 1024"] Cons.prems by (simp add: Let_def)
  next
    case 3
    then show ?thesis using Cons by (simp add: Let_def)
  qed
qed simp

lemma sum_pids_eq:
  assumes "\<forall>p \<in> set pids. own p ''/proc/self/status'' = file (''/proc/'' @ Itoa p @ ''/status'') \<and>
    (\<forall>s. file (''/proc/'' @ Itoa p @ ''/status'') = Some s \<longrightarrow> readable_status s)"
  shows "sum_pids file pids (wrap64 t) (wrap64 r) =
    (wrap64 (t + (\<Sum>p\<leftarrow>pids. ReadThreads (own p))), wrap64 (r + (\<Sum>p\<leftarrow>pids. ReadRSSBytes (own p))))"
  using assms
proof (induction pids arbitrary: t r)
  case (Cons p pids)
  show ?case
  proof (cases "file (''/proc/'' @ Itoa p @ ''/status'')")
    case None
    with Cons show ?thesis by (simp add: ReadThreads_def ReadRSSBytes_def)
  next
    case (Some s)
    with Cons.prems have "status_sums (scan_lines s) (wrap64 t) (wrap64 r) =
        (wrap64 (t + threads_in (scan_lines s)), wrap64 (r + rss_in (scan_lines s)))"
      by (intro status_sums_eq) (auto simp: readable_status_def labelled_def)
    with Some Cons show ?thesis by (simp add: ReadThreads_def ReadRSSBytes_def add.assoc)
  qed
qed simp

section \<open>The file\<close>

text \<open>A run that ends well has written the header and then rows of as many columns, at most one per tick.\<close>

lemma sample_row_columns [simp]: "length (sample_row g flt t d) = length csv_header"
  by (simp add: sample_row_def Let_def csv_header_def split: prod.split)

lemma observer_loop_columns: "row \<in> set (observer_loop g flt prev es) \<Longrightarrow> length row = length csv_header"
  by (induction g flt prev es rule: observer_loop.induct) (auto split: prod.splits if_splits)

lemma observer_loop_rows: "length (observer_loop g flt prev es) \<le> length es"
proof (induction es arbitrary: prev)
  case (Cons e es)
  then show ?case by (cases e) (auto simp: le_SucI split: prod.splits)
qed simp

lemma observer_main_runs:
  assumes "parse_flags (observer_table parse_duration) args observer_defaults = Parsed f"
    and "check_observer_flags f = None" "\<not> of_showVersion f" "0 < of_sampleInterval f"
    and "mkdir_all (of_outputDir f)" "create (observer_csv f)"
  shows "observer_main g parse_duration mkdir_all create args content now es =
    (0, Some (csv_header # observer_loop g (of_workerPIDFilter f) (fst (readStat content now)) es))"
  using assms by (simp add: observer_main_def observer_run_def with_ticker_def)

lemma observer_main_file:
  assumes "observer_main g parse_duration mkdir_all create args content now es = (code, Some rows)"
  shows "\<exists>samples. rows = csv_header # samples \<and> length samples \<le> length es \<and>
    (\<forall>row \<in> set samples. length row = length csv_header) \<and> code \<in> {0, 2} \<and> (code = 2 \<longrightarrow> samples = [])"
  using assms observer_loop_columns observer_loop_rows
  by (fastforce simp: observer_main_def observer_run_def with_ticker_def
      split: parsed.splits option.splits if_splits start.splits)

section \<open>Properties\<close>

text \<open>
  C23. The percentages of a sample are percentages: when the counters of the two samples differ by
  between 1 and \<open>2^46\<close> ticks in total, each of the seven columns lies between 0 and 100 whatever
  the rounding of floats, and apart from that rounding they add up to exactly 100.
\<close>

theorem observer_percentages:
  assumes "float_rounding fl" "ts_of s = Some now" "ts_of prev = Some before" "before < now"
    and "0 < ticks_between s prev" "ticks_between s prev \<le> 2 ^ 46"
    and "d = delta_of fl s prev" "e = delta_of (\<lambda>x. x) s prev"
  shows "(\<forall>x \<in> {d_user d, d_system d, d_idle d, d_iowait d, d_irq d, d_softirq d, d_steal d}. 0 \<le> x \<and> x \<le> 100) \<and>
    d_user e + d_system e + d_idle e + d_iowait e + d_irq e + d_softirq e + d_steal e = 100"
proof
  let ?T = "ticks_between s prev"
  have T: "uint (total_of s - total_of prev) = ?T" using assms(6) by (intro total_difference) simp
  have un: "uint (user_of s + nice_of s - (user_of prev + nice_of prev)) =
      uint (user_of s - user_of prev) + uint (nice_of s - nice_of prev)"
    using assms(6) by (rule user_nice_difference)
  have bounded: "uint (user_of s + nice_of s - (user_of prev + nice_of prev)) \<le> ?T"
      "uint (system_of s - system_of prev) \<le> ?T" "uint (idle_of s - idle_of prev) \<le> ?T"
      "uint (iowait_of s - iowait_of prev) \<le> ?T" "uint (irq_of s - irq_of prev) \<le> ?T"
      "uint (softirq_of s - softirq_of prev) \<le> ?T" "uint (steal_of s - steal_of prev) \<le> ?T"
    unfolding un ticks_between_def by simp_all
  note eq = delta_of_eq [OF _ assms(2-4), unfolded T, OF _ assms(5,6)]
  show "\<forall>x \<in> {d_user d, d_system d, d_idle d, d_iowait d, d_irq d, d_softirq d, d_steal d}. 0 \<le> x \<and> x \<le> 100"
    unfolding assms(7) eq [OF assms(1)]
    using pct_range [OF assms(1) _ assms(5,6)] bounded by simp
  have "d_user e + d_system e + d_idle e + d_iowait e + d_irq e + d_softirq e + d_steal e =
      100 * of_int ?T / of_int ?T"
    unfolding assms(8) eq [OF float_rounding_id]
    by (simp add: pct_def un ticks_between_def add_divide_distrib [symmetric] distrib_left del: of_int_uint)
  then show "d_user e + d_system e + d_idle e + d_iowait e + d_irq e + d_softirq e + d_steal e = 100"
    using assms(5) by simp
qed

definition before_sample :: statSample where
  "before_sample = zero_sample\<lparr>ts_of := Some 1000000000, user_of := 400, idle_of := 1000, iowait_of := 70\<rparr>"

definition after_sample :: statSample where
  "after_sample = before_sample\<lparr>ts_of := Some 2000000000, user_of := 425, nice_of := 5, idle_of := 1070\<rparr>"

theorem observer_percentages_witness:
  "d_user (delta_of (\<lambda>x. x) after_sample before_sample) = 30 \<and>
   d_user (delta_of (\<lambda>x. x) after_sample before_sample) \<le> 100"
proof
  show "d_user (delta_of (\<lambda>x. x) after_sample before_sample) = 30" by code_simp
  have "ts_of after_sample = Some 2000000000" "ts_of before_sample = Some 1000000000"
    "0 < ticks_between after_sample before_sample" "ticks_between after_sample before_sample \<le> 2 ^ 46"
    by code_simp+
  from observer_percentages [OF float_rounding_id this(1,2) _ this(3,4) refl refl]
  show "d_user (delta_of (\<lambda>x. x) after_sample before_sample) \<le> 100" by simp
qed

text \<open>
  A counter that goes backwards is reported as more than all of the time: when the iowait
  counter, which the kernel does not keep monotone, loses some ticks while the total still grows,
  the unsigned difference wraps around and the iowait column exceeds 100 for every such sample.
\<close>

theorem observer_iowait_wraps:
  assumes "float_rounding fl" "ts_of s = Some now" "ts_of prev = Some before" "before < now"
    and "uint (iowait_of s) < uint (iowait_of prev)" "uint (iowait_of prev) \<le> uint (iowait_of s) + 2 ^ 46"
    and "0 < uint (total_of s - total_of prev)" "uint (total_of s - total_of prev) \<le> 2 ^ 46"
  shows "128 \<le> d_iowait (delta_of fl s prev)"
proof -
  have "uint (iowait_of s - iowait_of prev) = uint (iowait_of s) - uint (iowait_of prev) + 2 ^ 64"
    using assms(5) by (simp add: uint_sub_if_size word_size)
  then have "2 ^ 53 \<le> uint (iowait_of s - iowait_of prev)" using assms(6) by simp
  from pct_back [OF assms(1) this assms(7,8)] show ?thesis
    by (simp only: delta_of_eq [OF assms(1-4,7,8)] delta.simps)
qed

theorem observer_iowait_wraps_witness:
  "\<exists>s. iowait_of s = 69 \<and> 128 \<le> d_iowait (delta_of (\<lambda>x. x) s before_sample)"
proof -
  let ?s = "after_sample\<lparr>iowait_of := 69\<rparr>"
  have "ts_of ?s = Some 2000000000" "ts_of before_sample = Some 1000000000"
    "uint (iowait_of ?s) < uint (iowait_of before_sample)"
    "uint (iowait_of before_sample) \<le> uint (iowait_of ?s) + 2 ^ 46"
    "0 < uint (total_of ?s - total_of before_sample)" "uint (total_of ?s - total_of before_sample) \<le> 2 ^ 46"
    by code_simp+
  from observer_iowait_wraps [OF float_rounding_id this(1,2) _ this(3-6)]
  show ?thesis by (intro exI [of _ ?s]) simp
qed

text \<open>
  The observer counts itself as a worker: the filter the launcher passes it is part of its own
  command line, so its process id is always found, and with the default filter, or any part of it,
  every worker the launcher starts is found too. The worker count of a run is at least one too high.
\<close>

theorem observer_counts_itself:
  assumes "runs_as fs self (cmd_Args (observer_cmd h binDir rawDir rc))"
    and "Contains ''chaos-worker'' (oc_WorkerPIDFilter (rc_Observer rc))"
    and "\<forall>k < length flat. runs_as fs (pids ! k) (cmd_Args (worker_cmd h environ binDir rawDir rc (flat ! k) sock))"
    and "length pids = length flat" "distinct (self # pids)"
  shows "set (self # pids) \<subseteq> set (findWorkerPIDs fs (oc_WorkerPIDFilter (rc_Observer rc))) \<and>
    length flat + 1 \<le> length (findWorkerPIDs fs (oc_WorkerPIDFilter (rc_Observer rc)))"
proof
  let ?found = "findWorkerPIDs fs (oc_WorkerPIDFilter (rc_Observer rc))"
  have self: "self \<in> set ?found"
    by (rule runs_as_found [OF assms(1), of "''--worker-pid-filter='' @ oc_WorkerPIDFilter (rc_Observer rc)"])
      (auto simp: observer_cmd_def CommandContext_def Contains_split intro: exI [of _ "''--worker-pid-filter=''"])
  obtain x y where xy: "''chaos-worker'' = x @ oc_WorkerPIDFilter (rc_Observer rc) @ y"
    using assms(2) unfolding Contains_split by blast
  have "Contains (path_join binDir ''chaos-worker'') (oc_WorkerPIDFilter (rc_Observer rc))"
    unfolding path_join_def xy Contains_split
    by (intro exI [of _ "binDir @ ''/'' @ x"] exI [of _ y]) simp
  then have "pids ! k \<in> set ?found" if "k < length pids" for k
    using assms(3,4) that
    by (intro runs_as_found [of fs _ "cmd_Args (worker_cmd h environ binDir rawDir rc (flat ! k) sock)" "path_join binDir ''chaos-worker''"])
      (simp_all add: worker_cmd_def CommandContext_def)
  then show found: "set (self # pids) \<subseteq> set ?found" using self by (auto simp: in_set_conv_nth)
  have "length flat + 1 = card (set (self # pids))" using assms(4,5) by (simp add: distinct_card)
  also have "\<dots> \<le> card (set ?found)" using found by (intro card_mono) simp_all
  also have "\<dots> \<le> length ?found" by (rule card_length)
  finally show "length flat + 1 \<le> length ?found" .
qed

definition sample_ps :: proc_fs where
  "sample_ps = \<lparr>dir_entries = Some [(''7'', True), (''21'', True), (''self'', True)],
     proc_file = (\<lambda>path.
       if path = ''/proc/7/cmdline''
       then Some (cmdline_of (cmd_Args (observer_cmd sample_host ''/opt/bin'' ''/var/raw'' sample_run)))
       else if path = ''/proc/21/cmdline''
       then Some (cmdline_of (cmd_Args (worker_cmd sample_host [] ''/opt/bin'' ''/var/raw'' sample_run
         (hd (Topology_Flatten sample_topology 0)) [])))
       else None)\<rparr>"

theorem observer_counts_itself_witness:
  "oc_WorkerPIDFilter (rc_Observer sample_run) = ''chaos-worker'' \<and>
   2 \<le> length (findWorkerPIDs sample_ps (oc_WorkerPIDFilter (rc_Observer sample_run)))"
proof
  show flt: "oc_WorkerPIDFilter (rc_Observer sample_run) = ''chaos-worker''" by code_simp
  have "Itoa 7 = ''7''" "Itoa 21 = ''21''" by code_simp+
  then have "runs_as sample_ps 7 (cmd_Args (observer_cmd sample_host ''/opt/bin'' ''/var/raw'' sample_run))"
    "\<forall>k < length [hd (Topology_Flatten sample_topology 0)]. runs_as sample_ps ([21] ! k)
      (cmd_Args (worker_cmd sample_host [] ''/opt/bin'' ''/var/raw'' sample_run ([hd (Topology_Flatten sample_topology 0)] ! k) []))"
    by (simp_all add: runs_as_def sample_ps_def max_int_def)
  moreover have "Contains ''chaos-worker'' (oc_WorkerPIDFilter (rc_Observer sample_run))" by code_simp
  ultimately show "2 \<le> length (findWorkerPIDs sample_ps (oc_WorkerPIDFilter (rc_Observer sample_run)))"
    using observer_counts_itself [of sample_ps 7 sample_host "''/opt/bin''" "''/var/raw''" sample_run
      "[hd (Topology_Flatten sample_topology 0)]" "[21]" "[]" "[]"] by simp
qed

text \<open>
  C25. The observer's totals are the workers' own: when every status file has at most one readable
  line for threads and one for resident memory, the two sums it writes are the sums, as 64-bit
  integers, of the numbers each process reports about itself.
\<close>

theorem observer_matches_workers:
  assumes "\<forall>p \<in> set pids. own p ''/proc/self/status'' = file (''/proc/'' @ Itoa p @ ''/status'') \<and>
    (\<forall>s. file (''/proc/'' @ Itoa p @ ''/status'') = Some s \<longrightarrow> readable_status s)"
  shows "sumThreadsAndRSS file pids =
    (wrap64 (\<Sum>p\<leftarrow>pids. ReadThreads (own p)), wrap64 (\<Sum>p\<leftarrow>pids. ReadRSSBytes (own p)))"
  using sum_pids_eq [where pids = pids and own = own and t = 0 and r = 0] assms by (simp add: sumThreadsAndRSS_def)

definition worker_status_text :: string where
  "worker_status_text = ''Name:'' @ CHR 0x09 # ''chaos-worker'' @ [CHR 0x0A] @ ''VmRSS:'' @ CHR 0x09 # ''    2048 kB'' @
     [CHR 0x0A] @ ''Threads:'' @ CHR 0x09 # ''9'' @ [CHR 0x0A]"

theorem observer_matches_workers_witness:
  "sumThreadsAndRSS (\<lambda>path. Some worker_status_text) [21, 22] = (18, 4194304)"
proof -
  have "readable_status worker_status_text" by code_simp
  then have "sumThreadsAndRSS (\<lambda>path. Some worker_status_text) [21, 22] =
      (wrap64 (\<Sum>p\<leftarrow>[21 :: int, 22]. ReadThreads (\<lambda>path. Some worker_status_text)),
       wrap64 (\<Sum>p\<leftarrow>[21 :: int, 22]. ReadRSSBytes (\<lambda>path. Some worker_status_text)))"
    by (intro observer_matches_workers) simp
  moreover have "ReadThreads (\<lambda>path. Some worker_status_text) = 9" "ReadRSSBytes (\<lambda>path. Some worker_status_text) = 2097152"
    by code_simp+
  ultimately show ?thesis by (simp add: wrap64_def)
qed

end
