(* ===== verification/Children.thy ===== *)
theory Children
  imports Victim Worker ObserverGuarantees
begin

text \<open>
  The launcher and the programs it starts: the command lines that \<open>cmd/chaos-launcher\<close> builds, read
  by the flag parsers of \<open>cmd/chaos-worker\<close>, \<open>cmd/chaos-victim\<close> and \<open>cmd/chaos-observer\<close>.
\<close>

section \<open>What the children read\<close>

text \<open>The flags each child ends up with. The durations' text must parse to the duration.\<close>

definition worker_reads :: "string \<Rightarrow> Config \<Rightarrow> FlatProcess \<Rightarrow> string \<Rightarrow> worker_flags" where
  "worker_reads rawDir rc fp sock =
     \<lparr>wk_profile = fp_Profile fp, wk_runID = rc_RunID rc, wk_outputDir = rawDir, wk_mode = rc_Mode rc,
      wk_syncSocket = sock, wk_duration = rc_Duration rc, wk_replicaID = fp_ReplicaID fp,
      wk_component = fp_Component fp, wk_showVersion = False\<rparr>"

lemma worker_args_read:
  assumes "parse_duration (Duration_String (rc_Duration rc)) = Some (rc_Duration rc)"
  shows "parse_flags (worker_table parse_duration) (worker_args rawDir rc fp sock) worker_defaults =
    Parsed (worker_reads rawDir rc fp sock)"
proof -
  define tab where "tab = worker_table parse_duration"
  have look: "map_of tab ''profile'' = Some (StringVar wk_profile_update)"
    "map_of tab ''run-id'' = Some (StringVar wk_runID_update)"
    "map_of tab ''output-dir'' = Some (StringVar wk_outputDir_update)"
    "map_of tab ''mode'' = Some (StringVar wk_mode_update)"
    "map_of tab ''replica-id'' = Some (StringVar wk_replicaID_update)"
    "map_of tab ''component'' = Some (StringVar wk_component_update)"
    "map_of tab ''sync-socket'' = Some (StringVar wk_syncSocket_update)"
    and dur: "map_of tab ''duration'' = Some (IntVar parse_duration wk_duration_update)"
    by (simp_all add: tab_def worker_table_def)
  have plain: "plain_name ''profile''" "plain_name ''run-id''" "plain_name ''output-dir''" "plain_name ''mode''"
    "plain_name ''replica-id''" "plain_name ''component''" "plain_name ''sync-socket''" "plain_name ''duration''"
    by (simp_all add: plain_name_def)
  note steps = parse_flags_string [OF look(1) plain(1), simplified append_Cons append_Nil] parse_flags_string [OF look(2) plain(2), simplified append_Cons append_Nil]
    parse_flags_string [OF look(3) plain(3), simplified append_Cons append_Nil] parse_flags_string [OF look(4) plain(4), simplified append_Cons append_Nil]
    parse_flags_string [OF look(5) plain(5), simplified append_Cons append_Nil] parse_flags_string [OF look(6) plain(6), simplified append_Cons append_Nil]
    parse_flags_string [OF look(7) plain(7), simplified append_Cons append_Nil] parse_flags_int [OF dur plain(8) assms, simplified append_Cons append_Nil]
  have "parse_flags tab (worker_args rawDir rc fp sock) worker_defaults = Parsed (worker_reads rawDir rc fp sock)"
    by (simp add: worker_args_def steps worker_defaults_def worker_reads_def del: parse_flags.simps(2))
  then show ?thesis by (simp only: tab_def)
qed

definition victim_reads :: "string \<Rightarrow> Config \<Rightarrow> string \<Rightarrow> victim_flags" where
  "victim_reads rawDir rc pinning =
     victim_defaults\<lparr>vf_mode := vc_Mode (rc_Victim rc), vf_pinningCPUs := pinning, vf_outputDir := rawDir,
       vf_runID := rc_RunID rc, vf_duration := rc_Duration rc\<rparr>"

lemma victim_args_read:
  assumes "parse_duration (Duration_String (rc_Duration rc)) = Some (rc_Duration rc)"
  shows "parse_flags (victim_table parse_duration parse_int) (victim_args rawDir rc (Some pl)) victim_defaults =
    Parsed (victim_reads rawDir rc (CPUList_String (pl_VictimCPUs pl)))"
proof -
  define tab where "tab = victim_table parse_duration parse_int"
  have look: "map_of tab ''mode'' = Some (StringVar vf_mode_update)"
    "map_of tab ''run-id'' = Some (StringVar vf_runID_update)"
    "map_of tab ''output-dir'' = Some (StringVar vf_outputDir_update)"
    "map_of tab ''pinning-cpus'' = Some (StringVar vf_pinningCPUs_update)"
    and dur: "map_of tab ''duration'' = Some (IntVar parse_duration vf_duration_update)"
    by (simp_all add: tab_def victim_table_def)
  have plain: "plain_name ''mode''" "plain_name ''run-id''" "plain_name ''output-dir''" "plain_name ''pinning-cpus''"
    "plain_name ''duration''"
    by (simp_all add: plain_name_def)
  note steps = parse_flags_string [OF look(1) plain(1), simplified append_Cons append_Nil]
    parse_flags_string [OF look(2) plain(2), simplified append_Cons append_Nil]
    parse_flags_string [OF look(3) plain(3), simplified append_Cons append_Nil]
    parse_flags_string [OF look(4) plain(4), simplified append_Cons append_Nil]
    parse_flags_int [OF dur plain(5) assms, simplified append_Cons append_Nil]
  have "parse_flags tab (victim_args rawDir rc (Some pl)) victim_defaults =
      Parsed (victim_reads rawDir rc (CPUList_String (pl_VictimCPUs pl)))"
    by (simp add: victim_args_def Let_def steps victim_defaults_def victim_reads_def del: parse_flags.simps(2))
  then show ?thesis by (simp only: tab_def)
qed

definition observer_reads :: "string \<Rightarrow> Config \<Rightarrow> observer_flags" where
  "observer_reads rawDir rc =
     \<lparr>of_outputDir = rawDir, of_runID = rc_RunID rc, of_duration = rc_Duration rc,
      of_sampleInterval = oc_SampleInterval (rc_Observer rc),
      of_workerPIDFilter = oc_WorkerPIDFilter (rc_Observer rc), of_showVersion = False\<rparr>"

lemma observer_args_read:
  assumes "parse_duration (Duration_String (rc_Duration rc)) = Some (rc_Duration rc)"
    and "parse_duration (Duration_String (oc_SampleInterval (rc_Observer rc))) = Some (oc_SampleInterval (rc_Observer rc))"
  shows "parse_flags (observer_table parse_duration) (tl (cmd_Args (observer_cmd h binDir rawDir rc))) observer_defaults =
    Parsed (observer_reads rawDir rc)"
proof -
  define tab where "tab = observer_table parse_duration"
  have look: "map_of tab ''output-dir'' = Some (StringVar of_outputDir_update)"
    "map_of tab ''run-id'' = Some (StringVar of_runID_update)"
    "map_of tab ''worker-pid-filter'' = Some (StringVar of_workerPIDFilter_update)"
    and dur: "map_of tab ''duration'' = Some (IntVar parse_duration of_duration_update)"
    "map_of tab ''sample-interval'' = Some (IntVar parse_duration of_sampleInterval_update)"
    by (simp_all add: tab_def observer_table_def)
  have plain: "plain_name ''output-dir''" "plain_name ''run-id''" "plain_name ''worker-pid-filter''"
    "plain_name ''duration''" "plain_name ''sample-interval''"
    by (simp_all add: plain_name_def)
  note steps = parse_flags_string [OF look(1) plain(1), simplified append_Cons append_Nil]
    parse_flags_string [OF look(2) plain(2), simplified append_Cons append_Nil]
    parse_flags_string [OF look(3) plain(3), simplified append_Cons append_Nil]
    parse_flags_int [OF dur(1) plain(4) assms(1), simplified append_Cons append_Nil]
    parse_flags_int [OF dur(2) plain(5) assms(2), simplified append_Cons append_Nil]
  have "parse_flags tab (tl (cmd_Args (observer_cmd h binDir rawDir rc))) observer_defaults =
      Parsed (observer_reads rawDir rc)"
    by (simp add: observer_cmd_def steps observer_defaults_def observer_reads_def del: parse_flags.simps(2))
  then show ?thesis by (simp only: tab_def)
qed

section \<open>Profiles of a launched topology\<close>

lemma launch_profiles: "launch w rc prof topo binDir rawDir = Running tn procs \<Longrightarrow> validateProfiles profile_Names topo = Returns ()"
  by (auto simp: launch_def Let_def split: outcome.splits)

lemma launched_profile:
  assumes "launch w rc prof topo binDir rawDir = Running tn procs" "fp \<in> set (Topology_Flatten topo g)"
  shows "fp_Profile fp \<in> set profile_Names"
proof -
  obtain c p where "c \<in> set (Components topo)" "p \<in> set (c_Processes c)" "fp_Profile fp = ps_Profile p"
    using Flatten_out [of topo g] assms(2) by (auto simp: entry_of_def)
  then show ?thesis
    using launch_profiles [OF assms(1)] by (simp add: validateProfiles_def check_profiles_def outcome_simps)
qed

lemma registered_names: "list_all (\<lambda>n. n \<noteq> [] \<and> (case profile_Get n of Inr p \<Rightarrow> pf_Name p = n | Inl e \<Rightarrow> False)) profile_Names"
  by code_simp

lemma registered: "n \<in> set profile_Names \<Longrightarrow> n \<noteq> [] \<and> (\<exists>p. profile_Get n = Inr p \<and> pf_Name p = n)"
  using registered_names by (cases "profile_Get n") (auto simp: list_all_iff)

section \<open>Properties\<close>

text \<open>
  C5. Every child the launcher starts accepts its command line: with a loaded run config, each
  worker of a run that began parses its arguments, passes its checks and finds the profile its
  process names, and the observer, where it may create its directory and its file, writes the header,
  samples until its time is over and exits with 0.
\<close>

theorem children_start:
  assumes "launch w rc prof topo binDir rawDir = Running tn procs" "runnable rc" "rawDir \<noteq> []"
    and "parse_duration (Duration_String (rc_Duration rc)) = Some (rc_Duration rc)"
    and "parse_duration (Duration_String (oc_SampleInterval (rc_Observer rc))) = Some (oc_SampleInterval (rc_Observer rc))"
    and "fp \<in> set (Topology_Flatten topo (rc_WorkerGOMAXPROCS rc))"
    and "mkdir_all rawDir" "create (path_join rawDir ''observer.csv'')"
  shows "(\<exists>f p. parse_flags (worker_table parse_duration) (worker_args rawDir rc fp (sync_socket w rc)) worker_defaults = Parsed f \<and>
      worker_begins f = Goes_on p \<and> pf_Name p = fp_Profile fp \<and> wk_replicaID f = fp_ReplicaID fp \<and>
      wk_duration f = rc_Duration rc) \<and>
    (\<exists>samples. observer_main g parse_duration mkdir_all create (tl (cmd_Args (observer_cmd (w_host w) binDir rawDir rc)))
        content now es = (0, Some (csv_header # samples)))"
proof
  let ?f = "worker_reads rawDir rc fp (sync_socket w rc)"
  obtain p where p: "profile_Get (fp_Profile fp) = Inr p" "pf_Name p = fp_Profile fp" "fp_Profile fp \<noteq> []"
    using registered [OF launched_profile [OF assms(1,6)]] by blast
  have "check_worker_flags ?f = None"
    using assms(2,3) p(3)
    by (auto simp: check_worker_flags_def worker_reads_def runnable_def sync_socket_def path_join_def)
  then have "worker_begins ?f = Goes_on p" using p(1) by (simp add: worker_begins_def worker_reads_def)
  with p(2) show "\<exists>f p. parse_flags (worker_table parse_duration) (worker_args rawDir rc fp (sync_socket w rc)) worker_defaults = Parsed f \<and>
      worker_begins f = Goes_on p \<and> pf_Name p = fp_Profile fp \<and> wk_replicaID f = fp_ReplicaID fp \<and>
      wk_duration f = rc_Duration rc"
    by (intro exI [of _ ?f] exI [of _ p] conjI worker_args_read [where parse_duration = parse_duration, OF assms(4)]) (simp_all add: worker_reads_def)
  let ?o = "observer_reads rawDir rc"
  have "check_observer_flags ?o = None" "\<not> of_showVersion ?o" "0 < of_sampleInterval ?o" "mkdir_all (of_outputDir ?o)"
    "create (observer_csv ?o)"
    using assms(2,3,7,8) by (simp_all add: check_observer_flags_def observer_reads_def runnable_def observer_csv_def)
  from observer_main_runs [where mkdir_all = mkdir_all and create = create, OF observer_args_read [where parse_duration = parse_duration, OF assms(4,5)] this]
  show "\<exists>samples. observer_main g parse_duration mkdir_all create (tl (cmd_Args (observer_cmd (w_host w) binDir rawDir rc)))
        content now es = (0, Some (csv_header # samples))"
    by blast
qed

definition sample_durations :: "string \<Rightarrow> int option" where
  "sample_durations s =
     (if s = ''10m0s'' then Some (600 * second) else if s = ''1s'' then Some second else None)"

lemma sample_run_facts:
  "runnable sample_run" "sample_durations (Duration_String (rc_Duration sample_run)) = Some (rc_Duration sample_run)"
  "sample_durations (Duration_String (oc_SampleInterval (rc_Observer sample_run))) =
     Some (oc_SampleInterval (rc_Observer sample_run))"
  by code_simp+

theorem children_start_witness:
  "\<exists>f p. parse_flags (worker_table sample_durations)
      (worker_args ''/var/raw'' sample_run (hd (Topology_Flatten sample_topology 2)) (sync_socket sample_world sample_run))
      worker_defaults = Parsed f \<and>
    worker_begins f = Goes_on p \<and> pf_Name p = ''etcd-like''"
proof (rule sample_launch)
  fix tn procs
  assume run: "launch sample_world sample_run (Some sample_profile) sample_topology ''/opt/bin'' ''/var/raw'' = Running tn procs"
  let ?fp = "hd (Topology_Flatten sample_topology (rc_WorkerGOMAXPROCS sample_run))"
  have fp: "?fp \<in> set (Topology_Flatten sample_topology (rc_WorkerGOMAXPROCS sample_run))"
    "rc_WorkerGOMAXPROCS sample_run = 2" "fp_Profile (hd (Topology_Flatten sample_topology 2)) = ''etcd-like''"
    by code_simp+
  have "''/var/raw'' \<noteq> []" by simp
  note started = conjunct1 [OF children_start [where parse_duration = sample_durations
      and mkdir_all = "\<lambda>d. True" and create = "\<lambda>f. True",
      OF run sample_run_facts(1) this sample_run_facts(2,3) fp(1) TrueI TrueI]]
  show ?thesis using started unfolding fp(2,3) by blast
qed

text \<open>
  C4. The victim pins itself to exactly the CPUs the plan isolates for it: in a tuned run that
  began, the argument the launcher renders is parsed by the victim's own parser to the victim CPUs
  of the plan, in order, and these are what it asks the kernel for.
\<close>

theorem victim_pins_planned_cpus:
  assumes "fair_order (w_iter w)" "launch w rc (Some p) topo binDir rawDir = Running (Some (pl, app)) procs"
    and "runnable rc" "rawDir \<noteq> []" "max_int \<notin> set (pl_VictimCPUs pl)"
    and "parse_duration (Duration_String (rc_Duration rc)) = Some (rc_Duration rc)"
  shows "\<exists>f. parse_flags (victim_table parse_duration parse_int) (victim_args rawDir rc (Some pl)) victim_defaults = Parsed f \<and>
    check_victim_flags f = None \<and> vf_pinningCPUs f \<noteq> [] \<and>
    pinSelf set_affinity (vf_pinningCPUs f) =
      (case set_affinity (pl_VictimCPUs pl) of None \<Rightarrow> Returns () | Some e \<Rightarrow> Fails (Inr e))"
proof (rule launch_Running [OF assms(2)])
  let ?f = "victim_reads rawDir rc (CPUList_String (pl_VictimCPUs pl))"
  fix pl' app'
  assume "Some (pl, app) = Some (pl', app')"
    and "BuildPlan (w_iter w) p topo (Topology_Flatten topo (rc_WorkerGOMAXPROCS rc)) = Returns pl'"
  then have wf: "wf_cpus (pl_VictimCPUs pl)" "pl_VictimCPUs pl \<noteq> []"
    using plan_victim_wf [OF assms(1)] by blast+
  have "check_victim_flags ?f = None"
    using assms(3,4) by (auto simp: check_victim_flags_def victim_reads_def victim_defaults_def runnable_def)
  moreover have "pinSelf set_affinity (vf_pinningCPUs ?f) =
      (case set_affinity (pl_VictimCPUs pl) of None \<Rightarrow> Returns () | Some e \<Rightarrow> Fails (Inr e))"
    by (simp add: victim_reads_def pinSelf_def parseCPUSet_String [OF wf(1) assms(5)])
  moreover have "vf_pinningCPUs ?f \<noteq> []" using wf(2) by (simp add: victim_reads_def)
  ultimately show ?thesis
    by (intro exI [of _ ?f] conjI victim_args_read [where parse_duration = parse_duration, OF assms(6)])
qed

theorem victim_pins_planned_cpus_witness:
  "\<exists>pl app procs f. launch sample_world sample_run (Some sample_profile) sample_topology ''/opt/bin'' ''/var/raw'' =
      Running (Some (pl, app)) procs \<and>
    parse_flags (victim_table sample_durations (\<lambda>s. None)) (victim_args ''/var/raw'' sample_run (Some pl)) victim_defaults = Parsed f \<and>
    pinSelf (\<lambda>cpus. if cpus = [6, 7] then None else Some ()) (vf_pinningCPUs f) = Returns ()"
proof (rule sample_launch)
  fix tn procs
  assume run: "launch sample_world sample_run (Some sample_profile) sample_topology ''/opt/bin'' ''/var/raw'' = Running tn procs"
  obtain pl app where tn: "tn = Some (pl, app)"
    and plan: "BuildPlan (w_iter sample_world) sample_profile sample_topology
      (Topology_Flatten sample_topology (rc_WorkerGOMAXPROCS sample_run)) = Returns pl"
    by (rule launch_Running [OF run]) blast
  have "returns_with (\<lambda>pl. pl_VictimCPUs pl = [6, 7])
      (BuildPlan (w_iter sample_world) sample_profile sample_topology
        (Topology_Flatten sample_topology (rc_WorkerGOMAXPROCS sample_run)))"
    by code_simp
  then have cpus: "pl_VictimCPUs pl = [6, 7]" by (simp add: plan returns_with_def)
  then have "max_int \<notin> set (pl_VictimCPUs pl)" by (simp add: max_int_def)
  from victim_pins_planned_cpus [where parse_duration = sample_durations and parse_int = "\<lambda>s. None"
      and set_affinity = "\<lambda>cpus. if cpus = [6, 7] then None else Some ()",
      OF sample_iter run [unfolded tn] sample_run_facts(1) _ this sample_run_facts(2)]
  show ?thesis using run cpus unfolding tn by auto
qed

end
