(* ===== verification/Generators.thy ===== *)
theory Generators
  imports Workload "HOL-Library.Word"
begin

text \<open>
  The goroutines of \<open>pkg/workload\<close> that \<open>RunSyscall\<close> and \<open>RunLock\<close> start, once their pacing is
  known: a client of the loopback load with the server's goroutine for its connection, the writer of
  the fsync load, and the goroutines that share the mutex of the lock load. Ticks come at any time;
  a socket takes and delivers bytes in pieces of any size, up to its capacity.
\<close>

section \<open>The loopback load\<close>

text \<open>
  The client's \<open>Write\<close> has \<open>rest\<close> to go, \<open>ReadFull\<close> has got so much; the server's reads and
  writes alike. Both sides have one buffer of the payload's size.
\<close>

datatype client_pc = Cl_select | Cl_writing string | Cl_reading string | Cl_gone

datatype server_pc = Sv_reading string | Sv_writing string | Sv_gone

record echo =
  ec_buf :: string
  ec_client :: client_pc
  ec_server :: server_pc
  ec_up :: string
  ec_down :: string
  ec_cancelled :: bool
  ec_rounds :: nat

definition start_echo :: "string \<Rightarrow> echo" where
  "start_echo payload = \<lparr>ec_buf = payload, ec_client = Cl_select, ec_server = Sv_reading [], ec_up = [],
     ec_down = [], ec_cancelled = False, ec_rounds = 0\<rparr>"

text \<open>
  \<open>window\<close> is what a socket holds. \<open>faulty\<close>: a read or a write may fail on its own; it always may
  when the other side has closed the connection. A goroutine that returns closes its side.
\<close>

inductive echo_step :: "nat \<Rightarrow> bool \<Rightarrow> echo \<Rightarrow> echo \<Rightarrow> bool" for window faulty where
  cancel: "echo_step window faulty s (s\<lparr>ec_cancelled := True\<rparr>)"
| cl_done: "ec_client s = Cl_select \<Longrightarrow> ec_cancelled s \<Longrightarrow> echo_step window faulty s (s\<lparr>ec_client := Cl_gone\<rparr>)"
| cl_tick: "ec_client s = Cl_select \<Longrightarrow> echo_step window faulty s (s\<lparr>ec_client := Cl_writing (ec_buf s)\<rparr>)"
| cl_write: "ec_client s = Cl_writing rest \<Longrightarrow> 0 < k \<Longrightarrow> k \<le> length rest \<Longrightarrow> length (ec_up s) + k \<le> window \<Longrightarrow>
    echo_step window faulty s (s\<lparr>ec_up := ec_up s @ take k rest, ec_client := Cl_writing (drop k rest)\<rparr>)"
| cl_written: "ec_client s = Cl_writing [] \<Longrightarrow> echo_step window faulty s (s\<lparr>ec_client := Cl_reading []\<rparr>)"
| cl_read: "ec_client s = Cl_reading got \<Longrightarrow> 0 < k \<Longrightarrow> k \<le> length (ec_down s) \<Longrightarrow>
    length got + k \<le> length (ec_buf s) \<Longrightarrow>
    echo_step window faulty s (s\<lparr>ec_down := drop k (ec_down s), ec_client := Cl_reading (got @ take k (ec_down s))\<rparr>)"
| cl_full: "ec_client s = Cl_reading got \<Longrightarrow> length got = length (ec_buf s) \<Longrightarrow>
    echo_step window faulty s (s\<lparr>ec_buf := got, ec_client := Cl_select, ec_rounds := Suc (ec_rounds s)\<rparr>)"
| cl_fails: "ec_client s \<noteq> Cl_select \<Longrightarrow> faulty \<or> ec_server s = Sv_gone \<Longrightarrow>
    echo_step window faulty s (s\<lparr>ec_client := Cl_gone\<rparr>)"
| sv_read: "ec_server s = Sv_reading got \<Longrightarrow> 0 < k \<Longrightarrow> k \<le> length (ec_up s) \<Longrightarrow>
    length got + k \<le> length (ec_buf s) \<Longrightarrow>
    echo_step window faulty s (s\<lparr>ec_up := drop k (ec_up s), ec_server := Sv_reading (got @ take k (ec_up s))\<rparr>)"
| sv_full: "ec_server s = Sv_reading got \<Longrightarrow> length got = length (ec_buf s) \<Longrightarrow>
    echo_step window faulty s (s\<lparr>ec_server := Sv_writing got\<rparr>)"
| sv_write: "ec_server s = Sv_writing rest \<Longrightarrow> 0 < k \<Longrightarrow> k \<le> length rest \<Longrightarrow> length (ec_down s) + k \<le> window \<Longrightarrow>
    echo_step window faulty s (s\<lparr>ec_down := ec_down s @ take k rest, ec_server := Sv_writing (drop k rest)\<rparr>)"
| sv_written: "ec_server s = Sv_writing [] \<Longrightarrow> echo_step window faulty s (s\<lparr>ec_server := Sv_reading []\<rparr>)"
| sv_fails: "ec_server s \<noteq> Sv_gone \<Longrightarrow> faulty \<or> ec_client s = Cl_gone \<Longrightarrow>
    echo_step window faulty s (s\<lparr>ec_server := Sv_gone\<rparr>)"

inductive_cases echo_stepE: "echo_step window faulty s s'"

abbreviation echo_steps :: "nat \<Rightarrow> bool \<Rightarrow> echo \<Rightarrow> echo \<Rightarrow> bool" where
  "echo_steps window faulty \<equiv> (echo_step window faulty)\<^sup>*\<^sup>*"

text \<open>Both buffers are \<open>make([]byte, cfg.PayloadBytes)\<close> after the default.\<close>

definition echo_payload :: "SyscallConfig \<Rightarrow> string" where
  "echo_payload cfg = replicate (nat (payload_of cfg)) (CHR 0x00)"

text \<open>What the client has still to send and has got of the answer.\<close>

fun to_send :: "client_pc \<Rightarrow> string" where
  "to_send (Cl_writing rest) = rest"
| "to_send pc = []"

fun answered :: "client_pc \<Rightarrow> string" where
  "answered (Cl_reading got) = got"
| "answered pc = []"

text \<open>
  A round is a request, all of it on its way to the server or held by one side, then a reply. The
  round begins with \<open>cl_tick\<close> and ends with \<open>cl_full\<close>, when the server may still have to return
  from its \<open>Write\<close>.
\<close>

definition sv_idle :: "server_pc \<Rightarrow> bool" where
  "sv_idle pc \<longleftrightarrow> pc = Sv_reading [] \<or> pc = Sv_writing []"

definition requesting :: "echo \<Rightarrow> bool" where
  "requesting s \<longleftrightarrow>
     (\<exists>got. (ec_server s = Sv_reading got \<or> ec_server s = Sv_writing [] \<and> got = []) \<and>
        got @ ec_up s @ to_send (ec_client s) = ec_buf s) \<and>
     ec_down s = [] \<and> answered (ec_client s) = []"

definition replying :: "echo \<Rightarrow> bool" where
  "replying s \<longleftrightarrow>
     ec_up s = [] \<and> to_send (ec_client s) = [] \<and>
     (ec_server s = Sv_reading [] \<and> answered (ec_client s) @ ec_down s = ec_buf s \<or>
      (\<exists>rest. ec_server s = Sv_writing rest \<and> answered (ec_client s) @ ec_down s @ rest = ec_buf s))"

definition resting :: "echo \<Rightarrow> bool" where
  "resting s \<longleftrightarrow> sv_idle (ec_server s) \<and> ec_up s = [] \<and> ec_down s = []"

definition echo_inv :: "string \<Rightarrow> bool \<Rightarrow> echo \<Rightarrow> bool" where
  "echo_inv payload faulty s \<longleftrightarrow>
     ec_buf s = payload \<and> payload \<noteq> [] \<and>
     (ec_server s = Sv_gone \<longrightarrow> faulty \<or> ec_client s = Cl_gone) \<and>
     (ec_client s \<noteq> Cl_gone \<longrightarrow> (\<exists>lost. answered (ec_client s) @ ec_down s @ lost = payload)) \<and>
     (ec_server s \<noteq> Sv_gone \<longrightarrow> ec_client s \<noteq> Cl_gone \<longrightarrow>
       (if ec_client s = Cl_select then resting s else requesting s \<or> replying s))"

lemma take_drop_append [simp]: "take k xs @ drop k xs @ ys = xs @ ys"
  by (metis append.assoc append_take_drop_id)

lemma whole_prefix: "xs @ ys = zs \<Longrightarrow> length xs = length zs \<Longrightarrow> xs = zs \<and> ys = []"
  by auto

lemma echo_inv_start: "payload \<noteq> [] \<Longrightarrow> echo_inv payload faulty (start_echo payload)"
  by (simp add: echo_inv_def start_echo_def resting_def sv_idle_def)

lemma echo_inv_step:
  "echo_step window faulty s s' \<Longrightarrow> echo_inv payload faulty s \<Longrightarrow> echo_inv payload faulty s'"
proof (induction rule: echo_step.induct)
  case (cl_write s rest k)
  then show ?case by (auto simp: echo_inv_def requesting_def replying_def)
next
  case (cl_read s got k)
  then have "ec_server s \<noteq> Sv_gone \<Longrightarrow> replying s" by (auto simp: echo_inv_def requesting_def)
  with cl_read show ?case by (auto simp: echo_inv_def replying_def)
next
  case (cl_full s got)
  then obtain lost where "got @ ec_down s @ lost = ec_buf s" by (auto simp: echo_inv_def)
  from whole_prefix [OF this] cl_full.hyps(2) have "got = ec_buf s" "ec_down s = []" by auto
  with cl_full show ?case
    by (auto simp: echo_inv_def requesting_def replying_def resting_def sv_idle_def)
next
  case (sv_read s got k)
  then have "ec_client s \<noteq> Cl_gone \<Longrightarrow> requesting s"
    by (auto simp: echo_inv_def requesting_def replying_def resting_def split: if_splits)
  with sv_read show ?case
    by (auto simp: echo_inv_def requesting_def resting_def)
next
  case (sv_full s got)
  have "got = ec_buf s \<and> ec_up s @ to_send (ec_client s) = []"
    if "got @ ec_up s @ to_send (ec_client s) = ec_buf s" using whole_prefix [OF that] sv_full.hyps(2) by simp
  with sv_full show ?case
    by (auto simp: echo_inv_def requesting_def replying_def resting_def sv_idle_def)
next
  case (sv_write s rest k)
  then show ?case
    by (auto simp: echo_inv_def requesting_def replying_def resting_def sv_idle_def) (metis append_take_drop_id)
qed (auto simp: echo_inv_def requesting_def replying_def resting_def sv_idle_def)

lemma echo_inv_steps:
  "echo_steps window faulty s s' \<Longrightarrow> echo_inv payload faulty s \<Longrightarrow> echo_inv payload faulty s'"
  by (induction rule: rtranclp_induct) (auto intro: echo_inv_step)

text \<open>
  How far a round is from its end: every byte weighs the more the less of its way it has gone.
\<close>

fun sv_weight :: "server_pc \<Rightarrow> nat" where
  "sv_weight (Sv_reading got) = 5 * length got"
| "sv_weight (Sv_writing rest) = 3 * length rest + 1"
| "sv_weight Sv_gone = 0"

fun cl_weight :: "client_pc \<Rightarrow> nat" where
  "cl_weight (Cl_writing rest) = 7 * length rest + 2"
| "cl_weight (Cl_reading got) = 1"
| "cl_weight pc = 0"

definition distance :: "echo \<Rightarrow> nat" where
  "distance s = cl_weight (ec_client s) + 6 * length (ec_up s) + sv_weight (ec_server s) + length (ec_down s)"

definition nearer :: "nat \<Rightarrow> echo \<Rightarrow> echo \<Rightarrow> bool" where
  "nearer window s s' \<longleftrightarrow> echo_step window False s s' \<and> distance s' < distance s \<and>
     ec_cancelled s' = ec_cancelled s \<and> ec_client s' \<noteq> Cl_gone"

lemma nearerI:
  "echo_step window False s t \<Longrightarrow> distance t < distance s \<Longrightarrow> ec_cancelled t = ec_cancelled s \<Longrightarrow>
   ec_client t \<noteq> Cl_gone \<Longrightarrow> \<exists>s'. nearer window s s'"
  unfolding nearer_def by blast

lemma nearer_sv_written:
  "ec_server s = Sv_writing [] \<Longrightarrow> ec_client s \<noteq> Cl_gone \<Longrightarrow>
   nearer window s (s\<lparr>ec_server := Sv_reading []\<rparr>)"
  by (simp add: nearer_def echo_step.sv_written distance_def)

lemma nearer_sv_read:
  assumes "ec_server s = Sv_reading got" "ec_up s = c # up" "length got < length (ec_buf s)" "ec_client s \<noteq> Cl_gone"
  shows "\<exists>s'. nearer window s s'"
proof -
  have "echo_step window False s (s\<lparr>ec_up := drop 1 (ec_up s), ec_server := Sv_reading (got @ take 1 (ec_up s))\<rparr>)"
    using assms by (intro echo_step.sv_read) simp_all
  from nearerI [OF this] assms show ?thesis by (simp add: distance_def)
qed

lemma nearer_cl_write:
  assumes "ec_client s = Cl_writing (c # rest)" "ec_up s = []" "0 < window"
  shows "\<exists>s'. nearer window s s'"
proof -
  have "echo_step window False s
      (s\<lparr>ec_up := ec_up s @ take 1 (c # rest), ec_client := Cl_writing (drop 1 (c # rest))\<rparr>)"
    using assms by (intro echo_step.cl_write) simp_all
  from nearerI [OF this] assms show ?thesis by (simp add: distance_def)
qed

lemma nearer_sv_write:
  assumes "ec_server s = Sv_writing (c # rest)" "length (ec_down s) < window" "ec_client s \<noteq> Cl_gone"
  shows "\<exists>s'. nearer window s s'"
proof -
  have "echo_step window False s
      (s\<lparr>ec_down := ec_down s @ take 1 (c # rest), ec_server := Sv_writing (drop 1 (c # rest))\<rparr>)"
    using assms by (intro echo_step.sv_write) simp_all
  from nearerI [OF this] assms show ?thesis by (simp add: distance_def)
qed

lemma nearer_cl_read:
  assumes "ec_client s = Cl_reading got" "ec_down s = c # down" "length got < length (ec_buf s)"
  shows "\<exists>s'. nearer window s s'"
proof -
  have "echo_step window False s (s\<lparr>ec_down := drop 1 (ec_down s), ec_client := Cl_reading (got @ take 1 (ec_down s))\<rparr>)"
    using assms by (intro echo_step.cl_read) simp_all
  from nearerI [OF this] assms show ?thesis by (simp add: distance_def)
qed

lemma nearer_cl_written: "ec_client s = Cl_writing [] \<Longrightarrow> \<exists>s'. nearer window s s'"
  unfolding nearer_def
  by (intro exI [of _ "s\<lparr>ec_client := Cl_reading []\<rparr>"]) (simp add: echo_step.cl_written distance_def)

lemma request_progress:
  assumes "requesting s" "ec_buf s \<noteq> []" "0 < window" "ec_client s \<noteq> Cl_gone"
  shows "\<exists>s'. nearer window s s'"
proof (cases "ec_server s")
  case (Sv_reading got)
  with assms(1) have all: "got @ ec_up s @ to_send (ec_client s) = ec_buf s" by (auto simp: requesting_def)
  consider (up) c up where "ec_up s = c # up" | (rest) c rest where "ec_up s = []" "ec_client s = Cl_writing (c # rest)"
    | (whole) "ec_up s = []" "to_send (ec_client s) = []"
    by (cases "ec_up s"; cases "ec_client s"; cases "to_send (ec_client s)") auto
  then show ?thesis
  proof cases
    case up
    have "length got < length (ec_buf s)" unfolding all [symmetric] up by simp
    from nearer_sv_read [OF Sv_reading up this assms(4)] show ?thesis .
  next
    case rest
    from nearer_cl_write [OF rest(2,1) assms(3)] show ?thesis .
  next
    case whole
    then have "echo_step window False s (s\<lparr>ec_server := Sv_writing got\<rparr>)"
      using all Sv_reading by (intro echo_step.sv_full) simp_all
    moreover have "got \<noteq> []" using whole all assms(2) by auto
    ultimately show ?thesis using nearerI [of window s] Sv_reading assms(4)
      by (fastforce simp: distance_def neq_Nil_conv)
  qed
next
  case (Sv_writing rest)
  with assms have "rest = []" by (auto simp: requesting_def)
  with nearer_sv_written [of s window] Sv_writing assms(4) show ?thesis by blast
next
  case Sv_gone
  with assms(1) show ?thesis by (simp add: requesting_def)
qed

lemma client_takes:
  assumes "ec_down s \<noteq> []" "length (answered (ec_client s)) < length (ec_buf s)" "to_send (ec_client s) = []"
    "ec_client s \<noteq> Cl_select" "ec_client s \<noteq> Cl_gone"
  shows "\<exists>s'. nearer window s s'"
proof (cases "ec_client s")
  case (Cl_writing rest)
  with assms(3) show ?thesis by (intro nearer_cl_written) simp
next
  case (Cl_reading got)
  obtain c down where "ec_down s = c # down" using assms(1) by (cases "ec_down s") simp_all
  with nearer_cl_read [OF Cl_reading] assms(2) Cl_reading show ?thesis by simp
qed (use assms in simp_all)

lemma reply_progress:
  assumes "replying s" "ec_buf s \<noteq> []" "0 < window" "ec_client s \<noteq> Cl_select" "ec_client s \<noteq> Cl_gone"
  shows "\<exists>s'. nearer window s s'"
proof -
  obtain rest where all: "answered (ec_client s) @ ec_down s @ rest = ec_buf s" "to_send (ec_client s) = []"
    and server: "ec_server s = Sv_reading [] \<and> rest = [] \<or> ec_server s = Sv_writing rest"
    using assms(1) by (auto simp: replying_def)
  consider (down) "ec_down s \<noteq> []" | (more) c rest' where "ec_down s = []" "rest = c # rest'"
    | (whole) "ec_down s = []" "rest = []" by (cases rest) auto
  then show ?thesis
  proof cases
    case down
    have "length (answered (ec_client s)) < length (ec_buf s)" unfolding all(1) [symmetric] using down by simp
    with client_takes [OF down] all(2) assms(4,5) show ?thesis by blast
  next
    case more
    with server nearer_sv_write [of s c rest' window] assms(3,5) show ?thesis by simp
  next
    case whole
    then have got: "ec_client s = Cl_reading (ec_buf s)"
      using all assms(2,4,5) by (cases "ec_client s") auto
    then have "echo_step window False s
        (s\<lparr>ec_buf := ec_buf s, ec_client := Cl_select, ec_rounds := Suc (ec_rounds s)\<rparr>)"
      by (intro echo_step.cl_full) simp_all
    from nearerI [OF this] got show ?thesis by (simp add: distance_def)
  qed
qed

text \<open>Without faults a round under way can be completed, and a cancelled client ends.\<close>

lemma round_ends:
  assumes "echo_inv payload False s" "0 < window" "ec_client s \<noteq> Cl_gone"
  shows "\<exists>s'. echo_steps window False s s' \<and> ec_client s' = Cl_select \<and> ec_cancelled s' = ec_cancelled s"
  using assms(1,3)
proof (induction "distance s" arbitrary: s rule: less_induct)
  case less
  show ?case
  proof (cases "ec_client s = Cl_select")
    case False
    with less.prems have "requesting s \<or> replying s" "ec_buf s \<noteq> []" by (auto simp: echo_inv_def)
    then obtain t where t: "nearer window s t"
      using request_progress reply_progress assms(2) less.prems(2) False by blast
    then have "echo_inv payload False t" using echo_inv_step less.prems(1) by (auto simp: nearer_def)
    with less.hyps [of t] t obtain s' where "echo_steps window False t s'" "ec_client s' = Cl_select"
      "ec_cancelled s' = ec_cancelled s" by (auto simp: nearer_def)
    with t show ?thesis by (meson nearer_def converse_rtranclp_into_rtranclp)
  qed blast
qed

lemma echo_shuts_down:
  assumes "echo_inv payload False s" "0 < window" "ec_cancelled s"
  shows "\<exists>s'. echo_steps window False s s' \<and> ec_client s' = Cl_gone \<and> ec_server s' = Sv_gone"
proof -
  obtain t where t: "echo_steps window False s t" "ec_client t = Cl_gone"
  proof (cases "ec_client s = Cl_gone")
    case False
    from round_ends [OF assms(1,2) this] assms(3) obtain s' where
      s': "echo_steps window False s s'" "ec_client s' = Cl_select" "ec_cancelled s'" by blast
    then have "echo_step window False s' (s'\<lparr>ec_client := Cl_gone\<rparr>)" by (intro echo_step.cl_done)
    with s'(1) show thesis by (intro that [of "s'\<lparr>ec_client := Cl_gone\<rparr>"]) simp_all
  qed (use that in blast)
  show ?thesis
  proof (cases "ec_server t = Sv_gone")
    case False
    with t(2) have "echo_step window False t (t\<lparr>ec_server := Sv_gone\<rparr>)" by (intro echo_step.sv_fails) simp_all
    with t show ?thesis by (intro exI [of _ "t\<lparr>ec_server := Sv_gone\<rparr>"]) (simp add: rtranclp.rtrancl_into_rtrancl)
  qed (use t in blast)
qed

section \<open>The fsync load\<close>

text \<open>
  One goroutine: its file is opened, and at each tick written at offset 0 and synced, until the
  context is done or an operation fails; the deferred calls close and remove it. The result is what
  it did to the file system so far and whether it has returned.
\<close>

datatype fs_op = Fs_open string | Fs_write_at nat | Fs_sync | Fs_close | Fs_remove string

datatype fsync_event = Fs_done | Fs_tick bool bool

fun fsync_loop :: "nat \<Rightarrow> fsync_event list \<Rightarrow> fs_op list \<times> bool" where
  "fsync_loop n [] = ([], False)"
| "fsync_loop n (Fs_done # es) = ([], True)"
| "fsync_loop n (Fs_tick wrote synced # es) =
     (if \<not> wrote then ([Fs_write_at n], True)
      else if \<not> synced then ([Fs_write_at n, Fs_sync], True)
      else (case fsync_loop n es of (ops, returned) \<Rightarrow> (Fs_write_at n # Fs_sync # ops, returned)))"

definition fsync_goroutine :: "string \<Rightarrow> nat \<Rightarrow> bool \<Rightarrow> fsync_event list \<Rightarrow> fs_op list \<times> bool" where
  "fsync_goroutine path n opened es =
     (if \<not> opened then ([Fs_open path], True)
      else case fsync_loop n es of
        (ops, returned) \<Rightarrow> (Fs_open path # ops @ (if returned then [Fs_close, Fs_remove path] else []), returned))"

lemma fsync_loop_ops:
  "fsync_loop n es = (ops, returned) \<Longrightarrow>
   set ops \<subseteq> {Fs_write_at n, Fs_sync} \<and> count_list ops Fs_sync \<le> count_list ops (Fs_write_at n) \<and>
   count_list ops (Fs_write_at n) \<le> count_list ops Fs_sync + 1"
  by (induction n es arbitrary: ops rule: fsync_loop.induct) (auto split: if_splits prod.splits)

section \<open>The lock load\<close>

text \<open>
  \<open>counter++\<close> is a load and a store; the bounded computation before the unlock changes nothing
  shared. \<open>mx_ops\<close> is history: the increments made so far.
\<close>

datatype lock_pc = L_select | L_wants | L_locked | L_loaded "64 word" | L_stored | L_gone

record mutex =
  mx_holder :: "nat option"
  mx_counter :: "64 word"
  mx_pcs :: "nat \<Rightarrow> lock_pc"
  mx_cancelled :: bool
  mx_ops :: nat

definition start_mutex :: mutex where
  "start_mutex = \<lparr>mx_holder = None, mx_counter = 0, mx_pcs = (\<lambda>i. L_select), mx_cancelled = False, mx_ops = 0\<rparr>"

definition moves_to :: "nat \<Rightarrow> lock_pc \<Rightarrow> mutex \<Rightarrow> mutex" where
  "moves_to i pc s = s\<lparr>mx_pcs := (mx_pcs s)(i := pc)\<rparr>"

inductive lock_step :: "nat \<Rightarrow> mutex \<Rightarrow> mutex \<Rightarrow> bool" for n where
  cancel: "lock_step n s (s\<lparr>mx_cancelled := True\<rparr>)"
| leave: "i < n \<Longrightarrow> mx_pcs s i = L_select \<Longrightarrow> mx_cancelled s \<Longrightarrow> lock_step n s (moves_to i L_gone s)"
| tick: "i < n \<Longrightarrow> mx_pcs s i = L_select \<Longrightarrow> lock_step n s (moves_to i L_wants s)"
| acquire: "i < n \<Longrightarrow> mx_pcs s i = L_wants \<Longrightarrow> mx_holder s = None \<Longrightarrow>
    lock_step n s ((moves_to i L_locked s)\<lparr>mx_holder := Some i\<rparr>)"
| load: "i < n \<Longrightarrow> mx_pcs s i = L_locked \<Longrightarrow> lock_step n s (moves_to i (L_loaded (mx_counter s)) s)"
| store: "i < n \<Longrightarrow> mx_pcs s i = L_loaded c \<Longrightarrow>
    lock_step n s ((moves_to i L_stored s)\<lparr>mx_counter := c + 1, mx_ops := Suc (mx_ops s)\<rparr>)"
| release: "i < n \<Longrightarrow> mx_pcs s i = L_stored \<Longrightarrow>
    lock_step n s ((moves_to i L_select s)\<lparr>mx_holder := None\<rparr>)"

abbreviation lock_steps :: "nat \<Rightarrow> mutex \<Rightarrow> mutex \<Rightarrow> bool" where
  "lock_steps n \<equiv> (lock_step n)\<^sup>*\<^sup>*"

fun critical :: "lock_pc \<Rightarrow> bool" where
  "critical L_locked = True"
| "critical (L_loaded c) = True"
| "critical L_stored = True"
| "critical pc = False"

definition lock_inv :: "nat \<Rightarrow> mutex \<Rightarrow> bool" where
  "lock_inv n s \<longleftrightarrow>
     (\<forall>i. critical (mx_pcs s i) \<longleftrightarrow> mx_holder s = Some i) \<and>
     (\<forall>i c. mx_pcs s i = L_loaded c \<longrightarrow> c = of_nat (mx_ops s)) \<and>
     (\<forall>i. mx_holder s = Some i \<longrightarrow> i < n) \<and> mx_counter s = of_nat (mx_ops s)"

lemma lock_inv_start: "lock_inv n start_mutex"
  by (simp add: lock_inv_def start_mutex_def)

lemma lock_invD:
  "lock_inv n s \<Longrightarrow> critical (mx_pcs s i) \<longleftrightarrow> mx_holder s = Some i"
  "lock_inv n s \<Longrightarrow> mx_pcs s i = L_loaded c \<Longrightarrow> c = of_nat (mx_ops s)"
  "lock_inv n s \<Longrightarrow> mx_holder s = Some i \<Longrightarrow> i < n"
  "lock_inv n s \<Longrightarrow> mx_counter s = of_nat (mx_ops s)"
  unfolding lock_inv_def by blast+

lemma other_pcs:
  assumes "lock_inv n s" "mx_holder s = Some i" "j \<noteq> i" shows "\<not> critical (mx_pcs s j)" "mx_pcs s j \<noteq> L_loaded c"
  using assms lock_invD(1) [OF assms(1), of j] by auto

lemma lock_inv_move:
  assumes "lock_inv n s" "\<not> critical (mx_pcs s i)" "\<not> critical pc" shows "lock_inv n (moves_to i pc s)"
proof -
  have "critical (((mx_pcs s)(i := pc)) j) \<longleftrightarrow> mx_holder s = Some j" for j
    using assms lock_invD(1) [OF assms(1), of j] by auto
  moreover have "c = of_nat (mx_ops s)" if "((mx_pcs s)(i := pc)) j = L_loaded c" for j c
    using that assms(3) lock_invD(2) [OF assms(1), of j c] by (auto split: if_splits)
  ultimately show ?thesis using lock_invD(3,4) [OF assms(1)] unfolding lock_inv_def moves_to_def by simp
qed

lemma lock_inv_step: "lock_step n s s' \<Longrightarrow> lock_inv n s \<Longrightarrow> lock_inv n s'"
proof (induction rule: lock_step.induct)
  case (acquire i s)
  then have "\<not> critical (mx_pcs s j)" for j by (simp add: lock_invD)
  moreover from this have "mx_pcs s j \<noteq> L_loaded c" for j c by (metis critical.simps(2))
  ultimately show ?case using acquire lock_invD(4) [OF acquire.prems] by (simp add: lock_inv_def moves_to_def)
next
  case (store i s c)
  note inv = store.prems
  have held: "mx_holder s = Some i" using lock_invD(1) [OF inv, of i] store.hyps(2) by simp
  have "critical (mx_pcs s j) \<longleftrightarrow> j = i" for j using lock_invD(1) [OF inv, of j] held by auto
  moreover have "c + 1 = of_nat (Suc (mx_ops s))"
    using lock_invD(2) [OF inv store.hyps(2)] lock_invD(4) [OF inv] by simp
  ultimately show ?case using held store.hyps(1) other_pcs [OF inv held] by (simp add: lock_inv_def moves_to_def)
next
  case (release i s)
  then have held: "mx_holder s = Some i" by (metis lock_invD(1) critical.simps(3))
  show ?case using other_pcs [OF release.prems held] lock_invD(4) [OF release.prems]
    by (simp add: lock_inv_def moves_to_def)
next
  case (load i s)
  then have held: "mx_holder s = Some i" by (metis lock_invD(1) critical.simps(1))
  show ?case using load.hyps held other_pcs [OF load.prems held] lock_invD(4) [OF load.prems]
    by (simp add: lock_inv_def moves_to_def)
next
  case (leave i s)
  then show ?case by (intro lock_inv_move) simp_all
next
  case (tick i s)
  then show ?case by (intro lock_inv_move) simp_all
qed (simp add: lock_inv_def)

lemma lock_inv_steps: "lock_steps n s s' \<Longrightarrow> lock_inv n s \<Longrightarrow> lock_inv n s'"
  by (induction rule: rtranclp_induct) (auto intro: lock_inv_step)

lemma moveI: "lock_step n s t \<Longrightarrow> mx_pcs t j \<noteq> mx_pcs s j \<Longrightarrow> \<exists>s'. lock_step n s s' \<and> mx_pcs s' j \<noteq> mx_pcs s j"
  by blast

lemma lock_moves:
  assumes "j < n" "mx_pcs s j \<noteq> L_gone" "mx_pcs s j = L_wants \<longrightarrow> mx_holder s = None"
  shows "\<exists>s'. lock_step n s s' \<and> mx_pcs s' j \<noteq> mx_pcs s j"
proof (cases "mx_pcs s j")
  case L_select
  from lock_step.tick [OF assms(1) this] show ?thesis by (rule moveI) (simp add: moves_to_def L_select)
next
  case L_wants
  with assms(3) have "mx_holder s = None" by simp
  from lock_step.acquire [OF assms(1) L_wants this] show ?thesis
    by (rule moveI) (simp add: moves_to_def L_wants)
next
  case L_locked
  from lock_step.load [OF assms(1) this] show ?thesis by (rule moveI) (simp add: moves_to_def L_locked)
next
  case (L_loaded c)
  from lock_step.store [OF assms(1) this] show ?thesis by (rule moveI) (simp add: moves_to_def L_loaded)
next
  case L_stored
  from lock_step.release [OF assms(1) this] show ?thesis by (rule moveI) (simp add: moves_to_def L_stored)
qed (use assms(2) in simp)

section \<open>Properties\<close>

lemma middle_length: "xs @ ys @ zs = ws \<Longrightarrow> length ys \<le> length ws"
  by auto

lemma echo_payload_nonempty: "echo_payload cfg \<noteq> []"
  by (simp add: echo_payload_def payload_of_def)

text \<open>
  C26. The loopback load sends whole payloads back and forth and can be stopped: whatever pieces the
  sockets deliver and whatever fails, the client reads back what it wrote, never more than one
  payload is under way on a connection, and without network faults a cancelled client and its server
  goroutine always can run to their end, even in the middle of a round, so \<open>RunSyscall\<close> can return.
\<close>

theorem loopback_echoes:
  assumes "echo_steps window faulty (start_echo (echo_payload cfg)) s" "0 < window"
  shows "ec_buf s = echo_payload cfg \<and>
    (ec_client s \<noteq> Cl_gone \<and> ec_server s \<noteq> Sv_gone \<longrightarrow>
      length (ec_up s) + length (ec_down s) \<le> length (echo_payload cfg)) \<and>
    (\<not> faulty \<longrightarrow> ec_cancelled s \<longrightarrow>
      (\<exists>s'. echo_steps window faulty s s' \<and> ec_client s' = Cl_gone \<and> ec_server s' = Sv_gone))"
proof -
  have inv: "echo_inv (echo_payload cfg) faulty s"
    using echo_inv_steps [OF assms(1)] echo_inv_start echo_payload_nonempty by blast
  have "length (ec_up s) + length (ec_down s) \<le> length (ec_buf s)"
    if alive: "ec_client s \<noteq> Cl_gone" "ec_server s \<noteq> Sv_gone"
  proof -
    consider "resting s" | "requesting s" | "replying s"
      using inv alive by (auto simp: echo_inv_def split: if_splits)
    then show ?thesis
    proof cases
      case 2
      then obtain got where got: "got @ ec_up s @ to_send (ec_client s) = ec_buf s" "ec_down s = []"
        by (auto simp: requesting_def)
      from middle_length [OF got(1)] got(2) show ?thesis by simp
    next
      case 3
      then obtain rest where rest: "answered (ec_client s) @ ec_down s @ rest = ec_buf s" "ec_up s = []"
        unfolding replying_def by (metis append_Nil2)
      from middle_length [OF rest(1)] rest(2) show ?thesis by simp
    qed (simp add: resting_def)
  qed
  moreover have "ec_buf s = echo_payload cfg" using inv by (simp add: echo_inv_def)
  ultimately show ?thesis using echo_shuts_down inv assms(2) by (cases faulty) auto
qed

theorem loopback_echoes_witness:
  "\<exists>s'. echo_steps 1 False ((start_echo (replicate 256 (CHR 0x00)))\<lparr>ec_cancelled := True\<rparr>) s' \<and> ec_client s' = Cl_gone"
proof -
  let ?cfg = "\<lparr>sy_Target = SyscallLoopbackTCP, sy_Goroutines = 1, sy_SyscallsPerSec = 10, sy_PayloadBytes = 0, sy_TmpfsDir = []\<rparr>"
  have payload: "echo_payload ?cfg = replicate 256 (CHR 0x00)" by (simp add: echo_payload_def payload_of_def)
  have "echo_steps 1 False (start_echo (echo_payload ?cfg)) ((start_echo (echo_payload ?cfg))\<lparr>ec_cancelled := True\<rparr>)"
    by (rule r_into_rtranclp) (rule echo_step.cancel)
  from loopback_echoes [OF this] show ?thesis unfolding payload by fastforce
qed

text \<open>
  The fsync load leaves nothing behind: a goroutine that returns after it opened its file has
  closed and removed it, whatever failed in between, and before that it only overwrote the start of
  the file, with at most one write not yet synced.
\<close>

theorem fsync_cleans_up:
  assumes "fsync_goroutine path n opened es = (ops, returned)"
  shows "(opened \<and> returned \<longrightarrow> (\<exists>did. ops = Fs_open path # did @ [Fs_close, Fs_remove path])) \<and>
    set ops \<subseteq> {Fs_open path, Fs_write_at n, Fs_sync, Fs_close, Fs_remove path} \<and>
    count_list ops (Fs_write_at n) \<le> count_list ops Fs_sync + 1 \<and> (\<not> opened \<longrightarrow> ops = [Fs_open path] \<and> returned)"
proof (cases opened)
  case True
  obtain did r where did: "fsync_loop n es = (did, r)" by fastforce
  with assms True show ?thesis using fsync_loop_ops [OF did] by (auto simp: fsync_goroutine_def)
next
  case False
  then show ?thesis using assms by (auto simp: fsync_goroutine_def)
qed

theorem fsync_cleans_up_witness:
  "\<exists>did. fst (fsync_goroutine ''f'' 256 True [Fs_tick True True, Fs_tick True False]) =
     Fs_open ''f'' # did @ [Fs_close, Fs_remove ''f'']"
proof -
  obtain ops returned where run: "fsync_goroutine ''f'' 256 True [Fs_tick True True, Fs_tick True False] = (ops, returned)"
    by fastforce
  moreover from this have "returned" by (simp add: fsync_goroutine_def)
  ultimately show ?thesis using fsync_cleans_up [OF run] by simp
qed

text \<open>
  C30. The lock load's mutex works: at most one goroutine is between Lock and Unlock, no increment of
  the shared counter is lost, and no interleaving gets stuck: while a goroutine is left, some
  goroutine can move.
\<close>

theorem lock_no_lost_update:
  assumes "lock_steps n start_mutex s"
  shows "(\<forall>i j. critical (mx_pcs s i) \<longrightarrow> critical (mx_pcs s j) \<longrightarrow> i = j) \<and>
    mx_counter s = of_nat (mx_ops s) \<and>
    (\<forall>i < n. mx_pcs s i \<noteq> L_gone \<longrightarrow> (\<exists>s'. lock_step n s s' \<and> mx_pcs s' \<noteq> mx_pcs s))"
proof -
  have inv: "lock_inv n s" using lock_inv_steps [OF assms lock_inv_start] .
  have "\<exists>s'. lock_step n s s' \<and> mx_pcs s' \<noteq> mx_pcs s" if "i < n" "mx_pcs s i \<noteq> L_gone" for i
  proof (cases "mx_holder s")
    case None
    with lock_moves [OF that] show ?thesis by metis
  next
    case (Some j)
    then have "critical (mx_pcs s j)" "j < n" using lock_invD(1,3) [OF inv] by blast+
    then have "\<exists>s'. lock_step n s s' \<and> mx_pcs s' j \<noteq> mx_pcs s j" by (intro lock_moves) auto
    then show ?thesis by metis
  qed
  then show ?thesis using lock_invD(1,4) [OF inv] by auto
qed

theorem lock_no_lost_update_witness:
  "\<exists>s. lock_steps 2 start_mutex s \<and> mx_ops s = 1 \<and> mx_counter s = 1 \<and> (\<exists>s'. lock_step 2 s s' \<and> mx_pcs s' \<noteq> mx_pcs s)"
proof -
  let ?s1 = "moves_to 0 L_wants start_mutex"
  let ?s2 = "(moves_to 0 L_locked ?s1)\<lparr>mx_holder := Some 0\<rparr>"
  let ?s3 = "moves_to 0 (L_loaded (mx_counter ?s2)) ?s2"
  let ?s4 = "(moves_to 0 L_stored ?s3)\<lparr>mx_counter := mx_counter ?s2 + 1, mx_ops := Suc (mx_ops ?s3)\<rparr>"
  have "lock_step 2 start_mutex ?s1" by (rule lock_step.tick) (simp_all add: start_mutex_def)
  moreover have "lock_step 2 ?s1 ?s2" by (rule lock_step.acquire) (simp_all add: start_mutex_def moves_to_def)
  moreover have "lock_step 2 ?s2 ?s3" by (rule lock_step.load) (simp_all add: moves_to_def)
  moreover have "lock_step 2 ?s3 ?s4" by (rule lock_step.store) (simp_all add: moves_to_def)
  ultimately have run: "lock_steps 2 start_mutex ?s4"
    by (meson converse_rtranclp_into_rtranclp rtranclp.rtrancl_refl)
  have ops: "mx_ops ?s4 = 1" "mx_pcs ?s4 0 \<noteq> L_gone" by (simp_all add: moves_to_def start_mutex_def)
  have zero: "(0::nat) < 2" by simp
  from lock_no_lost_update [OF run] have "mx_counter ?s4 = of_nat (mx_ops ?s4)"
    "\<exists>s'. lock_step 2 ?s4 s' \<and> mx_pcs s' \<noteq> mx_pcs ?s4" using zero ops(2) by blast+
  with run ops(1) show ?thesis by (intro exI [of _ ?s4]) (simp only: of_nat_1 simp_thms)
qed

end
