(* ===== verification/Measure.thy ===== *)
theory Measure
  imports Victim "HOL-Library.Sublist"
begin

text \<open>
  The measurement of \<open>cmd/chaos-victim/main.go\<close>: \<open>runJitter\<close> and \<open>runHTTP\<close> as machines of two
  goroutines. One records every value twice, into a histogram of the whole run and, under a mutex,
  into one of the current second; the other turns the second one into a row of the bucket file and
  resets it. The histograms of the HDR library are a parameter, and so are the clock and the outcome
  of a request; every interleaving of the code is a run.
\<close>

section \<open>Before the measurement\<close>

text \<open>
  What the two modes do first: the listener of the HTTP mode, the bucket file, the ticker. \<open>listens\<close>
  and \<open>creates\<close> are the outcomes of the calls; a failing one ends the program with 1.
\<close>

datatype measuring = No_listener | No_bucket_file | Rate_panics | Measures int

definition victim_measures :: "victim_flags \<Rightarrow> bool \<Rightarrow> bool \<Rightarrow> measuring" where
  "victim_measures f listens creates =
     (if vf_mode f = ''http_rtt'' then
        (if \<not> listens then No_listener
         else if \<not> creates then No_bucket_file
         else case http_interval (vf_rps f) of Runs interval \<Rightarrow> Measures interval | _ \<Rightarrow> Rate_panics)
      else if \<not> creates then No_bucket_file else Measures jitter_period)"

section \<open>Histograms\<close>

text \<open>\<open>RecordValue\<close> returns an error for a value out of range, which the code drops.\<close>

record 'h hdr =
  hdr_new :: 'h
  hdr_record :: "int \<Rightarrow> 'h \<Rightarrow> 'h option"
  hdr_reset :: "'h \<Rightarrow> 'h"
  hdr_quantile :: "rat \<Rightarrow> 'h \<Rightarrow> int"
  hdr_max :: "'h \<Rightarrow> int"
  hdr_count :: "'h \<Rightarrow> int"
  hdr_bars :: "'h \<Rightarrow> (int \<times> int) list"

definition record_value :: "'h hdr \<Rightarrow> int \<Rightarrow> 'h \<Rightarrow> 'h" where
  "record_value lib v h = (case hdr_record lib v h of None \<Rightarrow> h | Some h' \<Rightarrow> h')"

definition row_of :: "'h hdr \<Rightarrow> string \<Rightarrow> 'h \<Rightarrow> string list" where
  "row_of lib ts h =
     bucket_row ts (hdr_quantile lib 50 h, hdr_quantile lib 95 h, hdr_quantile lib 99 h, hdr_quantile lib (999/10) h)
       (hdr_max lib h) (hdr_count lib h)"

definition bucket_header :: "string list" where
  "bucket_header = [''ts'', ''p50_us'', ''p95_us'', ''p99_us'', ''p999_us'', ''max_us'', ''count'']"

section \<open>State\<close>

text \<open>
  \<open>Sharing v actual\<close>: the value is in the first histogram and not yet in the second. \<open>Pending row\<close>:
  the second was read and reset, its row not yet written.
\<close>

datatype meter_pc = At_top | Sleeping | In_request | Sharing int int | Stopping | Ended

datatype flusher = Between | Pending "string list" | Flusher_gone

text \<open>
  \<open>mt_buffered\<close> is what the CSV writer holds back until it is flushed, \<open>mt_snapshot\<close> the content of
  \<open>victim.hdr\<close>. \<open>mt_taken\<close> is history: the rows taken with their counts.
\<close>

record 'h Meter =
  mt_pc :: meter_pc
  mt_target :: int
  mt_total :: 'h
  mt_bucket :: 'h
  mt_flusher :: flusher
  mt_buffered :: "string list list"
  mt_file :: "string list list"
  mt_open :: bool
  mt_cancelled :: bool
  mt_snapshot :: "string list option"
  mt_taken :: "(string list \<times> int) list"

definition start_meter :: "'h hdr \<Rightarrow> int \<Rightarrow> 'h Meter" where
  "start_meter lib target =
     \<lparr>mt_pc = At_top, mt_target = target, mt_total = hdr_new lib, mt_bucket = hdr_new lib,
      mt_flusher = Between, mt_buffered = [bucket_header], mt_file = [], mt_open = True,
      mt_cancelled = False, mt_snapshot = None, mt_taken = []\<rparr>"

section \<open>Operations\<close>

definition record_total :: "'h hdr \<Rightarrow> int \<Rightarrow> int \<Rightarrow> 'h Meter \<Rightarrow> 'h Meter" where
  "record_total lib v actual s = s\<lparr>mt_total := record_value lib v (mt_total s), mt_pc := Sharing v actual\<rparr>"

text \<open>The region of the mutex in the measuring goroutine.\<close>

definition record_bucket :: "'h hdr \<Rightarrow> int \<Rightarrow> 'h Meter \<Rightarrow> 'h Meter" where
  "record_bucket lib v s = s\<lparr>mt_bucket := record_value lib v (mt_bucket s), mt_pc := At_top\<rparr>"

text \<open>The region of the mutex in the other one.\<close>

definition take_bucket :: "'h hdr \<Rightarrow> string \<Rightarrow> 'h Meter \<Rightarrow> 'h Meter" where
  "take_bucket lib ts s =
     (let row = row_of lib ts (mt_bucket s) in
      s\<lparr>mt_bucket := hdr_reset lib (mt_bucket s), mt_flusher := Pending row,
        mt_taken := mt_taken s @ [(row, hdr_count lib (mt_bucket s))]\<rparr>)"

text \<open>\<open>Write\<close> and \<open>Flush\<close>: nothing reaches a file that is closed.\<close>

definition write_row :: "string list \<Rightarrow> 'h Meter \<Rightarrow> 'h Meter" where
  "write_row row s =
     s\<lparr>mt_file := (if mt_open s then mt_file s @ mt_buffered s @ [row] else mt_file s), mt_buffered := [],
       mt_flusher := Between\<rparr>"

text \<open>The end: the snapshot, unless its file cannot be created, then the deferred close.\<close>

definition end_run :: "'h hdr \<Rightarrow> bool \<Rightarrow> 'h Meter \<Rightarrow> 'h Meter" where
  "end_run lib created s =
     s\<lparr>mt_snapshot := (if created then Some (snapshot_lines (hdr_bars lib (mt_total s))) else None),
       mt_open := False, mt_pc := Ended\<rparr>"

inductive flush_step :: "'h hdr \<Rightarrow> 'h Meter \<Rightarrow> 'h Meter \<Rightarrow> bool" for lib where
  second: "mt_flusher s = Between \<Longrightarrow> flush_step lib s (take_bucket lib ts s)"
| written: "mt_flusher s = Pending row \<Longrightarrow> flush_step lib s (write_row row s)"
| leaves: "mt_flusher s = Between \<Longrightarrow> mt_cancelled s \<Longrightarrow> flush_step lib s (s\<lparr>mt_flusher := Flusher_gone\<rparr>)"

text \<open>
  \<open>runJitter\<close>: a failed sleep ends the loop only when the context is done; otherwise the value is
  recorded as after any other wake-up.
\<close>

inductive jitter_step :: "'h hdr \<Rightarrow> 'h Meter \<Rightarrow> 'h Meter \<Rightarrow> bool" for lib where
  background: "flush_step lib s s' \<Longrightarrow> jitter_step lib s s'"
| cancel: "jitter_step lib s (s\<lparr>mt_cancelled := True\<rparr>)"
| go_on: "mt_pc s = At_top \<Longrightarrow> \<not> mt_cancelled s \<Longrightarrow> jitter_step lib s (s\<lparr>mt_pc := Sleeping\<rparr>)"
| stop: "mt_pc s = At_top \<Longrightarrow> mt_cancelled s \<Longrightarrow> jitter_step lib s (s\<lparr>mt_pc := Stopping\<rparr>)"
| sleep_fails: "mt_pc s = Sleeping \<Longrightarrow> mt_cancelled s \<Longrightarrow> jitter_step lib s (s\<lparr>mt_pc := Stopping\<rparr>)"
| wakes: "mt_pc s = Sleeping \<Longrightarrow>
    jitter_step lib s (record_total lib (jitter_of (mt_target s) actual) actual s)"
| shares: "mt_pc s = Sharing v actual \<Longrightarrow>
    jitter_step lib s ((record_bucket lib v s)\<lparr>mt_target := next_target (mt_target s) actual\<rparr>)"
| ends: "mt_pc s = Stopping \<Longrightarrow> jitter_step lib s (end_run lib created s)"

text \<open>
  \<open>runHTTP\<close>: a failed request, a timeout of 5 s included, records nothing. A tick and the end of the
  context may both be ready at the select.
\<close>

inductive http_step :: "'h hdr \<Rightarrow> 'h Meter \<Rightarrow> 'h Meter \<Rightarrow> bool" for lib where
  background: "flush_step lib s s' \<Longrightarrow> http_step lib s s'"
| cancel: "http_step lib s (s\<lparr>mt_cancelled := True\<rparr>)"
| request: "mt_pc s = At_top \<Longrightarrow> http_step lib s (s\<lparr>mt_pc := In_request\<rparr>)"
| fails: "mt_pc s = In_request \<Longrightarrow> http_step lib s (s\<lparr>mt_pc := At_top\<rparr>)"
| answers: "mt_pc s = In_request \<Longrightarrow> http_step lib s (record_total lib rtt 0 s)"
| shares: "mt_pc s = Sharing v actual \<Longrightarrow> http_step lib s (record_bucket lib v s)"
| ends: "mt_pc s = At_top \<Longrightarrow> mt_cancelled s \<Longrightarrow> http_step lib s (end_run lib created s)"

inductive_cases flush_stepE: "flush_step lib s s'"

text \<open>The states a victim reaches, in either mode.\<close>

definition victim_runs :: "'h hdr \<Rightarrow> int \<Rightarrow> 'h Meter \<Rightarrow> bool" where
  "victim_runs lib target s \<longleftrightarrow>
     (jitter_step lib)\<^sup>*\<^sup>* (start_meter lib target) s \<or> (http_step lib)\<^sup>*\<^sup>* (start_meter lib target) s"

section \<open>Invariant\<close>

text \<open>What the library promises of its counts; \<open>accepts\<close> are the values in its range.\<close>

definition counting :: "'h hdr \<Rightarrow> (int \<Rightarrow> bool) \<Rightarrow> bool" where
  "counting lib accepts \<longleftrightarrow>
     hdr_count lib (hdr_new lib) = 0 \<and> (\<forall>h. hdr_count lib (hdr_reset lib h) = 0) \<and>
     (\<forall>v h. case hdr_record lib v h of
        None \<Rightarrow> \<not> accepts v
      | Some h' \<Rightarrow> accepts v \<and> hdr_count lib h' = hdr_count lib h + 1)"

lemma counting_record:
  assumes "counting lib accepts"
  shows "hdr_count lib (record_value lib v h) = hdr_count lib h + (if accepts v then 1 else 0)"
proof -
  have "case hdr_record lib v h of None \<Rightarrow> \<not> accepts v
      | Some h' \<Rightarrow> accepts v \<and> hdr_count lib h' = hdr_count lib h + 1"
    using assms unfolding counting_def by blast
  then show ?thesis by (auto simp: record_value_def split: option.splits)
qed

definition unshared :: "(int \<Rightarrow> bool) \<Rightarrow> 'h Meter \<Rightarrow> int" where
  "unshared accepts s = (case mt_pc s of Sharing v actual \<Rightarrow> if accepts v then 1 else 0 | _ \<Rightarrow> 0)"

definition pending_rows :: "'h Meter \<Rightarrow> string list list" where
  "pending_rows s = (case mt_flusher s of Pending row \<Rightarrow> [row] | _ \<Rightarrow> [])"

definition meter_inv :: "'h hdr \<Rightarrow> (int \<Rightarrow> bool) \<Rightarrow> 'h Meter \<Rightarrow> bool" where
  "meter_inv lib accepts s \<longleftrightarrow>
     hdr_count lib (mt_total s) =
       sum_list (map snd (mt_taken s)) + hdr_count lib (mt_bucket s) + unshared accepts s \<and>
     (\<forall>(row, n) \<in> set (mt_taken s). row ! 6 = Itoa n) \<and>
     prefix (mt_file s) (bucket_header # map fst (mt_taken s)) \<and>
     (mt_open s \<longrightarrow> mt_file s @ mt_buffered s @ pending_rows s = bucket_header # map fst (mt_taken s)) \<and>
     (mt_open s \<longleftrightarrow> mt_pc s \<noteq> Ended) \<and>
     (\<forall>lines. mt_snapshot s = Some lines \<longrightarrow>
       mt_pc s = Ended \<and> lines = snapshot_lines (hdr_bars lib (mt_total s)))"

lemma meter_inv_start:
  "counting lib accepts \<Longrightarrow> meter_inv lib accepts (start_meter lib target)"
  by (simp add: meter_inv_def start_meter_def unshared_def pending_rows_def counting_def)

lemmas meter_ops = record_total_def record_bucket_def take_bucket_def write_row_def end_run_def

lemma row_count: "row_of lib ts h ! 6 = Itoa (hdr_count lib h)"
  by (simp add: row_of_def bucket_row_def)

lemma meter_inv_flush:
  assumes "flush_step lib s s'" "counting lib accepts" "meter_inv lib accepts s"
  shows "meter_inv lib accepts s'"
  using assms(1)
proof cases
  case (second ts)
  with assms(2,3) show ?thesis
    by (auto simp: meter_inv_def meter_ops counting_def unshared_def pending_rows_def row_count Let_def
        intro: prefix_order.trans)
next
  case (written row)
  with assms(3) show ?thesis
    by (cases "mt_open s") (auto simp: meter_inv_def meter_ops unshared_def pending_rows_def)
next
  case leaves
  with assms(3) show ?thesis by (simp add: meter_inv_def unshared_def pending_rows_def)
qed

lemma meter_inv_jitter:
  assumes "jitter_step lib s s'" "counting lib accepts" "meter_inv lib accepts s"
  shows "meter_inv lib accepts s'"
  using assms(1)
proof cases
  case background
  then show ?thesis using assms(2,3) by (rule meter_inv_flush)
qed (use assms(2,3) in \<open>auto simp: meter_inv_def meter_ops unshared_def pending_rows_def counting_record\<close>)

lemma meter_inv_http:
  assumes "http_step lib s s'" "counting lib accepts" "meter_inv lib accepts s"
  shows "meter_inv lib accepts s'"
  using assms(1)
proof cases
  case background
  then show ?thesis using assms(2,3) by (rule meter_inv_flush)
qed (use assms(2,3) in \<open>auto simp: meter_inv_def meter_ops unshared_def pending_rows_def counting_record\<close>)

lemma meter_inv_runs:
  assumes "victim_runs lib target s" "counting lib accepts" shows "meter_inv lib accepts s"
proof -
  note start = meter_inv_start [OF assms(2), of target]
  have "meter_inv lib accepts s" if "(jitter_step lib)\<^sup>*\<^sup>* (start_meter lib target) s"
    using that start by (induction rule: rtranclp_induct) (auto intro: meter_inv_jitter assms(2))
  moreover have "meter_inv lib accepts s" if "(http_step lib)\<^sup>*\<^sup>* (start_meter lib target) s"
    using that start by (induction rule: rtranclp_induct) (auto intro: meter_inv_http assms(2))
  ultimately show ?thesis using assms(1) unfolding victim_runs_def by blast
qed

section \<open>The wake-up loop\<close>

lemma jitter_loop_snoc:
  "jitter_loop target ws = (js, e) \<Longrightarrow>
   jitter_loop target (ws @ [w]) = (js @ [jitter_of e w], next_target e w)"
  by (induction ws arbitrary: target js) (auto split: prod.splits)

text \<open>
  The wake-ups so far, as a run of the loop without the goroutines; a value not yet shared is in the
  histogram while its iteration is not over.
\<close>

definition follows_loop :: "'h hdr \<Rightarrow> int \<Rightarrow> 'h Meter \<Rightarrow> int list \<Rightarrow> int list \<Rightarrow> bool" where
  "follows_loop lib target s ws js \<longleftrightarrow>
     jitter_loop target ws = (js, mt_target s) \<and>
     (case mt_pc s of
        Sharing v actual \<Rightarrow> v = jitter_of (mt_target s) actual \<and>
          mt_total s = fold (record_value lib) (js @ [v]) (hdr_new lib)
      | _ \<Rightarrow> mt_total s = fold (record_value lib) js (hdr_new lib))"

lemma follows_loop_frame:
  "follows_loop lib target s ws js \<Longrightarrow> mt_pc s' = mt_pc s \<Longrightarrow> mt_target s' = mt_target s \<Longrightarrow>
   mt_total s' = mt_total s \<Longrightarrow> follows_loop lib target s' ws js"
  by (cases "mt_pc s") (simp_all add: follows_loop_def)

lemma follows_loop_step:
  assumes "jitter_step lib s s'" "follows_loop lib target s ws js"
  shows "\<exists>ws' js'. follows_loop lib target s' ws' js'"
  using assms(1)
proof cases
  case background
  then have "mt_pc s' = mt_pc s \<and> mt_target s' = mt_target s \<and> mt_total s' = mt_total s"
    by cases (simp_all add: take_bucket_def write_row_def Let_def)
  with follows_loop_frame [OF assms(2)] show ?thesis by blast
next
  case cancel
  with follows_loop_frame [OF assms(2), of s'] show ?thesis by auto
next
  case (shares v actual)
  with assms(2) jitter_loop_snoc [of target ws js "mt_target s" actual]
  have "follows_loop lib target s' (ws @ [actual]) (js @ [v])"
    by (simp add: follows_loop_def record_bucket_def)
  then show ?thesis by blast
qed (use assms(2) in \<open>auto simp: follows_loop_def record_total_def end_run_def\<close>)

lemma follows_loop_run:
  "(jitter_step lib)\<^sup>*\<^sup>* (start_meter lib target) s \<Longrightarrow> \<exists>ws js. follows_loop lib target s ws js"
proof (induction rule: rtranclp_induct)
  case base
  have "follows_loop lib target (start_meter lib target) [] []"
    by (simp add: follows_loop_def start_meter_def)
  then show ?case by blast
qed (blast dest: follows_loop_step)

section \<open>An exact histogram\<close>

text \<open>The values themselves: a library that keeps its promises, for concrete runs.\<close>

definition exact_hdr :: "int list hdr" where
  "exact_hdr =
     \<lparr>hdr_new = [], hdr_record = (\<lambda>v h. if 0 \<le> v \<and> v \<le> 10 * second_ns then Some (insort v h) else None),
      hdr_reset = (\<lambda>h. []), hdr_quantile = (\<lambda>q h. if h = [] then 0 else h ! (nat \<lceil>q / 100 * of_nat (length h)\<rceil> - 1)),
      hdr_max = (\<lambda>h. if h = [] then 0 else last h), hdr_count = (\<lambda>h. int (length h)),
      hdr_bars = (\<lambda>h. map (\<lambda>v. (v, int (count_list h v))) (remdups h))\<rparr>"

lemma exact_hdr_counting: "counting exact_hdr (\<lambda>v. 0 \<le> v \<and> v \<le> 10 * second_ns)"
  by (auto simp: counting_def exact_hdr_def)

section \<open>Properties\<close>

text \<open>
  C20. No latency is lost between the two histograms: at every moment of either mode the number of
  values in the run's histogram is the sum of the counts in the rows taken so far, the current
  second's count and the value about to be shared; the bucket file holds an initial part of those
  rows, all of them while it is open and none is being written; and the snapshot is of the run's
  whole histogram. What a finished run has not in its rows is exactly its last, unfinished second.
\<close>

theorem victim_samples_accounted:
  assumes "victim_runs lib target s" "counting lib accepts"
  shows "hdr_count lib (mt_total s) =
      sum_list (map snd (mt_taken s)) + hdr_count lib (mt_bucket s) + unshared accepts s \<and>
    (\<forall>(row, n) \<in> set (mt_taken s). row ! 6 = Itoa n) \<and>
    prefix (mt_file s) (bucket_header # map fst (mt_taken s)) \<and>
    (mt_open s \<and> mt_flusher s = Between \<longrightarrow> mt_file s @ mt_buffered s = bucket_header # map fst (mt_taken s)) \<and>
    (\<forall>lines. mt_snapshot s = Some lines \<longrightarrow> lines = snapshot_lines (hdr_bars lib (mt_total s)) \<and>
      hdr_count lib (mt_total s) - sum_list (map snd (mt_taken s)) = hdr_count lib (mt_bucket s))"
  using meter_inv_runs [OF assms]
  by (auto simp: meter_inv_def pending_rows_def unshared_def)

text \<open>A run that ends within its first second: a value in the snapshot and an empty bucket file.\<close>

definition short_run :: "int list Meter" where
  "short_run =
     end_run exact_hdr True
       ((record_bucket exact_hdr 5 (record_total exact_hdr 5 1005 ((start_meter exact_hdr 1000)\<lparr>mt_pc := Sleeping\<rparr>)))
         \<lparr>mt_target := next_target 1000 1005, mt_cancelled := True, mt_pc := Stopping\<rparr>)"

lemma short_run_steps: "(jitter_step exact_hdr)\<^sup>*\<^sup>* (start_meter exact_hdr 1000) short_run"
proof -
  let ?s0 = "start_meter exact_hdr 1000"
  let ?s1 = "?s0\<lparr>mt_pc := Sleeping\<rparr>"
  let ?s2 = "record_total exact_hdr (jitter_of (mt_target ?s1) 1005) 1005 ?s1"
  let ?s3 = "(record_bucket exact_hdr 5 ?s2)\<lparr>mt_target := next_target (mt_target ?s2) 1005\<rparr>"
  let ?s4 = "?s3\<lparr>mt_cancelled := True\<rparr>"
  let ?s5 = "?s4\<lparr>mt_pc := Stopping\<rparr>"
  have "jitter_step exact_hdr ?s0 ?s1" by (rule jitter_step.go_on) (simp_all add: start_meter_def)
  moreover have "jitter_step exact_hdr ?s1 ?s2" by (rule jitter_step.wakes) simp
  moreover have "jitter_step exact_hdr ?s2 ?s3"
    by (rule jitter_step.shares) (simp add: record_total_def jitter_of_def start_meter_def)
  moreover have "jitter_step exact_hdr ?s3 ?s4" by (rule jitter_step.cancel)
  moreover have "jitter_step exact_hdr ?s4 ?s5" by (rule jitter_step.stop) (simp_all add: record_bucket_def)
  moreover have "jitter_step exact_hdr ?s5 (end_run exact_hdr True ?s5)" by (rule jitter_step.ends) simp
  ultimately have "(jitter_step exact_hdr)\<^sup>*\<^sup>* ?s0 (end_run exact_hdr True ?s5)"
    by (meson converse_rtranclp_into_rtranclp rtranclp.rtrancl_refl)
  moreover have "end_run exact_hdr True ?s5 = short_run"
    by (simp add: short_run_def jitter_of_def start_meter_def record_total_def record_bucket_def)
  ultimately show ?thesis by simp
qed

lemma short_run_reached: "victim_runs exact_hdr 1000 short_run"
  using short_run_steps by (simp add: victim_runs_def)

lemma short_run_files:
  "mt_file short_run = [] \<and> mt_taken short_run = [] \<and> hdr_count exact_hdr (mt_bucket short_run) = 1 \<and>
   mt_snapshot short_run = Some [''# HDR snapshot '' @ em_dash @ '' value_ns count'', ''5'' @ CHR 0x09 # ''1'']"
  by code_simp

theorem victim_samples_accounted_witness:
  "mt_file short_run = [] \<and> hdr_count exact_hdr (mt_total short_run) = 1"
  using victim_samples_accounted [OF short_run_reached exact_hdr_counting] short_run_files by simp



end
