(* ===== verification/WorkerGuarantees.thy ===== *)
theory WorkerGuarantees
  imports Worker
begin

text \<open>
  The properties of the load: every registered profile starts its generators, two of them cannot
  keep to their allocation rate, the bursts of one reuse files of its steady state; and of the
  worker's reports: the percentile, the collection counts and the bursts.
\<close>

section \<open>Starting the generators\<close>

lemma share_interval_pos:
  assumes "0 \<le> rate" "rate \<le> second_ns" "0 < workers" shows "0 < share_interval rate workers"
proof -
  have "rate div workers \<le> rate" using assms(1,3) zdiv_mono2 [of rate 1 workers] by simp
  then have "at_least_one (go_div rate workers) \<le> second_ns"
    using assms by (simp add: at_least_one_def go_div_nonneg second_ns_def)
  then have "1 \<le> second_ns div at_least_one (go_div rate workers)"
    using at_least_one_pos [of "go_div rate workers"] by (simp add: pos_imp_zdiv_pos_iff int_one_le_iff_zero_less)
  then show ?thesis
    using at_least_one_pos [of "go_div rate workers"] by (simp add: share_interval_def go_div_nonneg second_ns_def)
qed

lemma runs_alloc:
  assumes "0 < al_Goroutines c" "0 < al_BytesPerSec c"
  shows "runs_with (\<lambda>ap. 0 < ap_workers ap \<and> 1 \<le> ap_burst ap \<and> 0 < ap_ring ap) (RunAlloc c)"
  using assms at_least_one_pos by (simp add: runs_with_def RunAlloc_def burst_bytes_def)

lemma runs_syscall:
  assumes "0 < sy_Goroutines c" "0 < sy_SyscallsPerSec c" "sy_SyscallsPerSec c \<le> second_ns"
    and "sy_Target c \<in> {SyscallLoopbackTCP, SyscallTmpfsFsync}"
  shows "runs_with (\<lambda>l. True) (RunSyscall isdir tmp pid c)"
  using assms share_interval_pos [of "sy_SyscallsPerSec c" "sy_Goroutines c"]
  by (auto simp: runs_with_def RunSyscall_def with_ticker_def SyscallNone_def SyscallLoopbackTCP_def SyscallTmpfsFsync_def)

lemma runs_lock:
  assumes "0 < lk_Goroutines c" "0 < lk_OpsPerSec c" "lk_OpsPerSec c \<le> second_ns"
    and "lk_Level c \<noteq> ContentionNone" "lk_Level c \<noteq> []"
  shows "runs_with (\<lambda>l. True) (RunLock c)"
  using assms share_interval_pos [of "lk_OpsPerSec c" "lk_Goroutines c"]
  by (simp add: runs_with_def RunLock_def with_ticker_def Let_def)

lemma runs_scheduler:
  assumes "0 < sc_Pairs c" "0 < sc_OpsPerSec c" "sc_OpsPerSec c \<le> second_ns"
  shows "runs_with (\<lambda>(pairs, interval). 0 < pairs \<and> 0 < interval) (RunScheduler c)"
  using assms share_interval_pos [of "sc_OpsPerSec c" "sc_Pairs c"] by (simp add: runs_with_def RunScheduler_def)

text \<open>The numbers of a profile stay where integer and float arithmetic is exact enough.\<close>

definition profile_fits :: "Profile \<Rightarrow> bool" where
  "profile_fits p \<longleftrightarrow>
     (let s = pf_SteadyState p; r = pf_Reconcile p in
      4 \<le> ss_Goroutines s \<and> ss_Goroutines s \<le> 1000000 \<and>
      1 \<le> ss_AllocBytesPerSec s \<and> ss_AllocBytesPerSec s \<le> second_ns \<and>
      1 \<le> ss_ChannelOpsPerSec s \<and> ss_ChannelOpsPerSec s \<le> second_ns \<and>
      4 \<le> ss_SyscallsPerSec s \<and> ss_SyscallsPerSec s \<le> 1000000 \<and>
      1 \<le> ss_LockOpsPerSec s \<and> ss_LockOpsPerSec s \<le> second_ns \<and>
      (ss_SyscallTarget s = SyscallLoopbackTCP \<or> ss_SyscallTarget s = SyscallTmpfsFsync) \<and>
      ss_LockContention s \<noteq> ContentionNone \<and> ss_LockContention s \<noteq> [] \<and>
      1 \<le> rb_GoroutineSpike r \<and> 1 \<le> rb_AllocMultiplier r \<and>
      2 * rb_SyscallMultiplier r = of_int \<lfloor>2 * rb_SyscallMultiplier r\<rfloor> \<and>
      1 \<le> rb_SyscallMultiplier r \<and> rb_SyscallMultiplier r \<le> 100 \<and>
      0 < rb_Period r \<and> 0 < rb_Duration r \<and> rb_Duration r < rb_Period r)"

lemma profiles_fit: "list_all profile_fits All_profiles"
  by code_simp

lemma profile_fitsD: "p \<in> set All_profiles \<Longrightarrow> profile_fits p"
  using profiles_fit by (simp add: list_all_iff)

lemma scaled_rate:
  assumes "float_rounding fl" "0 \<le> rate" "rate \<le> 2 ^ 53" "1 \<le> m"
  shows "rate \<le> go_trunc (fl (fl (of_int rate) * fl m))"
proof -
  have rate: "fl (of_int rate) = of_int rate" using float_rounding_int [OF assms(1)] assms(2,3) by simp
  have "fl 1 = 1" using float_rounding_int [OF assms(1), of 1] by simp
  then have "1 \<le> fl m" using float_rounding_mono [OF assms(1) assms(4)] by simp
  then have "of_int rate \<le> of_int rate * fl m" using assms(2) by (simp add: mult_le_cancel_left1)
  then have "of_int rate \<le> fl (of_int rate * fl m)" using float_rounding_mono [OF assms(1)] rate by metis
  then have "go_trunc (of_int rate) \<le> go_trunc (fl (fl (of_int rate) * fl m))"
    using assms(2) rate by (intro go_trunc_mono) simp_all
  then show ?thesis by simp
qed

text \<open>A multiplier that is a multiple of one half is computed exactly.\<close>

lemma half_multiplier:
  assumes fl: "float_rounding fl" and "2 * m = of_int \<lfloor>2 * m\<rfloor>" "1 \<le> m" "m \<le> 100" "0 \<le> rate" "rate \<le> 1000000"
  shows "fl m = m" "go_trunc (fl (fl (of_int rate) * fl (fl m - 1))) = go_trunc (of_int rate * (m - 1))"
proof -
  define k where "k = \<lfloor>2 * m\<rfloor>"
  have m: "m = of_int k / 2 ^ 1" using assms(2) by (simp add: k_def)
  have k: "2 \<le> k" "k \<le> 200" using assms(3,4) by (simp_all add: k_def le_floor_iff floor_le_iff)
  show fm: "fl m = m" unfolding m using k by (intro float_rounding_dyadic [OF fl]) simp_all
  have d: "m - 1 = of_int (k - 2) / 2 ^ 1" by (simp add: m field_simps)
  have fd: "fl (m - 1) = m - 1" unfolding d using k by (intro float_rounding_dyadic [OF fl]) simp_all
  have rate: "fl (of_int rate) = of_int rate" using float_rounding_int [OF fl] assms(5,6) by simp
  have product: "of_int rate * (m - 1) = of_int (rate * (k - 2)) / 2 ^ 1" by (simp add: d)
  have "\<bar>rate * (k - 2)\<bar> \<le> 2 ^ 53"
  proof -
    have "rate * (k - 2) \<le> 1000000 * 198" using k assms(5,6) by (intro mult_mono) simp_all
    moreover have "0 \<le> rate * (k - 2)" using k assms(5) by simp
    ultimately show ?thesis by simp
  qed
  then have "fl (of_int rate * (m - 1)) = of_int rate * (m - 1)"
    unfolding product by (rule float_rounding_dyadic [OF fl]) simp
  then show "go_trunc (fl (fl (of_int rate) * fl (fl m - 1))) = go_trunc (of_int rate * (m - 1))"
    by (simp add: fm fd rate)
qed

lemma steady_starts:
  assumes "profile_fits p"
  shows "runs_with (\<lambda>(pairs, interval). 0 < pairs \<and> 0 < interval) (RunScheduler (steady_scheduler p))"
    "runs_with (\<lambda>ap. 0 < ap_workers ap \<and> 1 \<le> ap_burst ap \<and> 0 < ap_ring ap) (RunAlloc (steady_alloc p))"
    "runs_with (\<lambda>l. True) (RunSyscall isdir tmp pid (steady_syscall p))"
    "runs_with (\<lambda>l. True) (RunLock (steady_lock p))"
proof -
  have workers: "0 < steady_workers p" using at_least_one_pos by (simp add: steady_workers_def int_one_le_iff_zero_less)
  have pairs: "0 < go_div (ss_Goroutines (pf_SteadyState p)) 4"
    using assms by (simp add: profile_fits_def Let_def go_div_nonneg pos_imp_zdiv_pos_iff)
  show "runs_with (\<lambda>(pairs, interval). 0 < pairs \<and> 0 < interval) (RunScheduler (steady_scheduler p))"
    using assms pairs by (intro runs_scheduler) (simp_all add: steady_scheduler_def profile_fits_def Let_def)
  show "runs_with (\<lambda>ap. 0 < ap_workers ap \<and> 1 \<le> ap_burst ap \<and> 0 < ap_ring ap) (RunAlloc (steady_alloc p))"
    using assms workers by (intro runs_alloc) (simp_all add: steady_alloc_def profile_fits_def Let_def)
  show "runs_with (\<lambda>l. True) (RunSyscall isdir tmp pid (steady_syscall p))"
    using assms workers by (intro runs_syscall) (simp_all add: steady_syscall_def profile_fits_def Let_def second_ns_def)
  show "runs_with (\<lambda>l. True) (RunLock (steady_lock p))"
    using assms workers by (intro runs_lock) (simp_all add: steady_lock_def profile_fits_def Let_def)
qed

lemma burst_alloc_starts:
  assumes "profile_fits p" "float_rounding fl"
  shows "\<exists>c. burst_alloc fl p = Some c \<and> ss_AllocBytesPerSec (pf_SteadyState p) \<le> al_BytesPerSec c \<and>
    runs_with (\<lambda>ap. 0 < ap_workers ap \<and> 1 \<le> ap_burst ap \<and> 0 < ap_ring ap) (RunAlloc c)"
proof -
  let ?s = "pf_SteadyState p" and ?r = "pf_Reconcile p"
  let ?c = "\<lparr>al_Goroutines = rb_GoroutineSpike ?r,
    al_BytesPerSec = go_trunc (fl (fl (of_int (ss_AllocBytesPerSec ?s)) * fl (rb_AllocMultiplier ?r))),
    al_SizeDist = ss_AllocSizeDist ?s, al_RingSize = 0\<rparr>"
  have f: "1 \<le> rb_GoroutineSpike ?r" "1 \<le> rb_AllocMultiplier ?r" "1 \<le> ss_AllocBytesPerSec ?s"
    "ss_AllocBytesPerSec ?s \<le> second_ns"
    using assms(1) by (simp_all add: profile_fits_def Let_def)
  then have rate: "ss_AllocBytesPerSec ?s \<le> go_trunc (fl (fl (of_int (ss_AllocBytesPerSec ?s)) * fl (rb_AllocMultiplier ?r)))"
    by (intro scaled_rate [OF assms(2)]) (simp_all add: second_ns_def)
  then have "0 < go_trunc (fl (fl (of_int (ss_AllocBytesPerSec ?s)) * fl (rb_AllocMultiplier ?r)))" using f(3) by linarith
  then have "runs_with (\<lambda>ap. 0 < ap_workers ap \<and> 1 \<le> ap_burst ap \<and> 0 < ap_ring ap) (RunAlloc ?c)" using f(1) by (intro runs_alloc) simp_all
  moreover have "burst_alloc fl p = Some ?c" using f(1,2) by (simp add: burst_alloc_def)
  ultimately show ?thesis using rate by (intro exI [of _ ?c]) simp
qed

lemma burst_syscall_starts:
  assumes "profile_fits p" "float_rounding fl" "burst_syscall fl p = Some c"
  shows "runs_with (\<lambda>l. True) (RunSyscall isdir tmp pid c)"
proof -
  let ?s = "pf_SteadyState p" and ?r = "pf_Reconcile p"
  let ?m = "rb_SyscallMultiplier ?r" and ?n = "ss_SyscallsPerSec ?s"
  have f: "2 * ?m = of_int \<lfloor>2 * ?m\<rfloor>" "1 \<le> ?m" "?m \<le> 100" "4 \<le> ?n" "?n \<le> 1000000"
    "ss_SyscallTarget ?s \<in> {SyscallLoopbackTCP, SyscallTmpfsFsync}"
    using assms(1) by (simp_all add: profile_fits_def Let_def)
  note half = half_multiplier [OF assms(2) f(1-3), of ?n]
  have c: "c = \<lparr>sy_Target = ss_SyscallTarget ?s, sy_Goroutines = at_least_one (go_div (rb_GoroutineSpike ?r) 4),
      sy_SyscallsPerSec = go_trunc (of_int ?n * (?m - 1)), sy_PayloadBytes = 0, sy_TmpfsDir = []\<rparr>" "1 < ?m"
    using assms(3) half f(4,5) by (simp_all add: burst_syscall_def split: if_splits)
  have "2 < \<lfloor>2 * ?m\<rfloor>" using c(2) f(1) by linarith
  then have "3 / 2 \<le> ?m" using f(1) by linarith
  then have "of_int 4 * (1 / 2) \<le> of_int ?n * (?m - 1)" using f(4) by (intro mult_mono) simp_all
  then have low: "go_trunc (of_int 2) \<le> go_trunc (of_int ?n * (?m - 1))" by (intro go_trunc_mono) simp_all
  have "of_int ?n * (?m - 1) \<le> of_int 1000000 * 99" using f(2-5) by (intro mult_mono) simp_all
  then have "go_trunc (of_int ?n * (?m - 1)) \<le> go_trunc (of_int 99000000)"
    using f(2,4) by (intro go_trunc_mono) simp_all
  then have high: "go_trunc (of_int ?n * (?m - 1)) \<le> second_ns" unfolding go_trunc_of_int by (simp add: second_ns_def)
  have "0 < at_least_one (go_div (rb_GoroutineSpike ?r) 4)"
    using at_least_one_pos by (simp add: int_one_le_iff_zero_less)
  then show ?thesis
    using low high f(6) by (intro runs_syscall) (simp_all add: c(1) del: of_int_numeral)
qed

section \<open>Percentiles\<close>

definition below :: "64 word list \<Rightarrow> nat \<Rightarrow> nat" where
  "below counts i = sum_list (map unat (take i counts))"

lemma foldl_plus_word: "foldl (+) (a :: 64 word) cs = a + sum_list cs"
  by (induction cs arbitrary: a) (simp_all add: add.assoc)

lemma unat_sum_counts:
  "sum_list (map unat counts) < 2 ^ 64 \<Longrightarrow> unat (sum_list counts :: 64 word) = sum_list (map unat counts)"
  by (induction counts) (simp_all add: unat_word_ariths)

lemma find_bucket_index:
  assumes "length bs = i + length cs + 1" "unat seen + sum_list (map unat cs) < 2 ^ 64"
    and "unat target \<le> unat seen + sum_list (map unat cs)" "cs \<noteq> []"
  shows "\<exists>k < length cs. find_bucket bs target cs i seen = Some (bs ! (i + k + 1)) \<and>
    unat target \<le> unat seen + below cs (Suc k) \<and> (\<forall>j < k. unat seen + below cs (Suc j) < unat target)"
  using assms
proof (induction cs arbitrary: i seen)
  case (Cons c cs)
  have sum: "unat (seen + c) = unat seen + unat c" using Cons.prems(2) by (simp add: unat_word_ariths)
  show ?case
  proof (cases "target \<le> seen + c")
    case True
    then have "unat target \<le> unat seen + unat c" by (simp add: word_le_nat_alt sum)
    with True Cons.prems(1) show ?thesis by (intro exI [of _ 0]) (simp add: below_def)
  next
    case False
    then have less: "unat seen + unat c < unat target" by (simp add: word_le_nat_alt sum)
    then have "cs \<noteq> []" using Cons.prems(3) by auto
    with Cons.IH [of "Suc i" "seen + c"] Cons.prems
    obtain k where k: "k < length cs" "find_bucket bs target cs (Suc i) (seen + c) = Some (bs ! (Suc i + k + 1))"
      "unat target \<le> unat (seen + c) + below cs (Suc k)" "\<forall>j < k. unat (seen + c) + below cs (Suc j) < unat target"
      by (auto simp: sum add.assoc)
    have shift: "unat seen + below (c # cs) (Suc j) = unat (seen + c) + below cs j" for j
      by (simp add: below_def sum)
    have "unat seen + below (c # cs) (Suc j) < unat target" if "j < Suc k" for j
      using that k(4) less shift [of j] by (cases j) (auto simp: sum below_def add.assoc)
    with k False show ?thesis
      by (intro exI [of _ "Suc k"]) (simp add: shift del: sum_list.Cons)
  qed
qed simp

section \<open>Properties\<close>



text \<open>
  The profiles operator-generic and etcd-like cannot allocate as slowly as they say: a tick
  allocates at least one object, and with the objects of their size distribution the ticks of one
  second, a thousand for each goroutine, add up to more than the configured bytes per second.
\<close>

theorem slow_profiles_overshoot:
  assumes "p = operator_generic_profile \<or> p = etcd_like_profile"
    and "RunAlloc (steady_alloc p) = Runs ap" "ring_ok (ap_ring ap) r"
    and "\<And>k. draw k \<in> set (sd_Sizes (ap_dist ap))"
  shows "\<exists>total n r'. alloc_tick (ap_burst ap) (ap_ring ap) draw 0 0 r = Some (total, n, r') \<and>
    ss_AllocBytesPerSec (pf_SteadyState p) < ap_workers ap * 1000 * total"
proof -
  have ap: "1 \<le> ap_burst ap" "sd_Sizes (ap_dist ap) = [256, 4096, 65536]"
    "ss_AllocBytesPerSec (pf_SteadyState p) < ap_workers ap * 1000 * 256" "0 < ap_workers ap"
    using assms(1,2)
    by (auto simp: RunAlloc_def steady_alloc_def steady_workers_def operator_generic_profile_def etcd_like_profile_def
        DefaultSizeDist_def burst_bytes_def at_least_one_def go_div_nonneg)
  have lo: "256 \<le> draw k" and hi: "draw k \<le> 65536" for k using assms(4) [of k] ap(2) by auto
  have "0 < ap_burst ap + 65536" using ap(1) by simp
  from alloc_tick_total [where draw = draw and k = 0, OF lo hi _ this assms(3)]
  have "\<exists>total n r'. alloc_tick (ap_burst ap) (ap_ring ap) draw 0 0 r = Some (total, 0 + n, r') \<and>
      0 + int n * 256 \<le> total \<and> (0 < ap_burst ap \<longrightarrow> 0 < n)"
    by simp blast
  then obtain total n r' where tick: "alloc_tick (ap_burst ap) (ap_ring ap) draw 0 0 r = Some (total, n, r')"
      "1 \<le> n" "int n * 256 \<le> total"
    using ap(1) by (auto simp: Suc_le_eq)
  then have "256 \<le> total" by linarith
  then have "ap_workers ap * 1000 * 256 \<le> ap_workers ap * 1000 * total" using ap(4) by simp
  with ap(3) tick(1) show ?thesis by (intro exI [of _ total] exI) (auto intro: less_le_trans)
qed

theorem slow_profiles_overshoot_witness:
  "\<exists>total n r'. alloc_tick 174 64 (\<lambda>k. 256) 0 0 \<lparr>ring_idx = 0, ring_slots = Map.empty\<rparr> = Some (total, n, r') \<and>
    1024 * 1024 < 6 * 1000 * total"
proof -
  let ?ap = "\<lparr>ap_workers = 6, ap_burst = 174, ap_ring = 64, ap_dist = DefaultSizeDist\<rparr>"
  have "RunAlloc (steady_alloc operator_generic_profile) = Runs ?ap" by code_simp
  from slow_profiles_overshoot [OF disjI1 [OF refl] this, of "\<lparr>ring_idx = 0, ring_slots = Map.empty\<rparr>" "\<lambda>k. 256"]
  show ?thesis by (auto simp: ring_ok_def DefaultSizeDist_def operator_generic_profile_def)
qed

text \<open>
  The bursts of the etcd-like profile reuse files of its steady state: every file its burst
  opens, truncates and finally removes is open in a goroutine of the steady load.
\<close>

theorem etcd_burst_shares_files:
  assumes "float_rounding fl"
  shows "\<exists>c steady burst payload interval payload' interval'. burst_syscall fl etcd_like_profile = Some c \<and>
    RunSyscall isdir tmp pid (steady_syscall etcd_like_profile) = Runs (Fsync steady payload interval) \<and>
    RunSyscall isdir tmp pid c = Runs (Fsync burst payload' interval') \<and>
    burst \<noteq> [] \<and> set burst \<subseteq> set steady"
proof -
  have two: "fl 2 = 2" "fl (2 - 1) = 1" "fl 1000 = 1000" "fl (1000 * 1) = 1000"
    using float_rounding_int [OF assms, of 2] float_rounding_int [OF assms, of 1] float_rounding_int [OF assms, of 1000]
    by simp_all
  let ?c = "\<lparr>sy_Target = SyscallTmpfsFsync, sy_Goroutines = 5, sy_SyscallsPerSec = 1000, sy_PayloadBytes = 0, sy_TmpfsDir = []\<rparr>"
  have "burst_syscall fl etcd_like_profile = Some ?c"
    using two go_trunc_of_int [of 1000]
    by (simp add: burst_syscall_def etcd_like_profile_def SyscallNone_def SyscallTmpfsFsync_def at_least_one_def go_div_nonneg)
  moreover have "RunSyscall isdir tmp pid (steady_syscall etcd_like_profile) =
      Runs (Fsync (map (fsync_path (fsync_dir isdir tmp ?c) pid) [0..11]) 256 12048192)"
    by (simp add: RunSyscall_def steady_syscall_def steady_workers_def etcd_like_profile_def share_interval_def
        at_least_one_def go_div_nonneg second_ns_def with_ticker_def SyscallNone_def SyscallTmpfsFsync_def
        SyscallLoopbackTCP_def payload_of_def fsync_dir_def)
  moreover have "RunSyscall isdir tmp pid ?c = Runs (Fsync (map (fsync_path (fsync_dir isdir tmp ?c) pid) [0..4]) 256 5000000)"
    by (simp add: RunSyscall_def share_interval_def at_least_one_def go_div_nonneg second_ns_def with_ticker_def
        SyscallNone_def SyscallTmpfsFsync_def SyscallLoopbackTCP_def payload_of_def fsync_dir_def)
  moreover have "map (fsync_path (fsync_dir isdir tmp ?c) pid) [0..4] \<noteq> []" by simp
  moreover have "set (map (fsync_path (fsync_dir isdir tmp ?c) pid) [0..4]) \<subseteq> set (map (fsync_path (fsync_dir isdir tmp ?c) pid) [0..11])"
    by (simp only: set_map set_upto) (intro image_mono, simp)
  ultimately show ?thesis by blast
qed

theorem etcd_burst_shares_files_witness:
  "\<exists>c. burst_syscall (\<lambda>x. x) etcd_like_profile = Some c"
  using etcd_burst_shares_files [OF float_rounding_id, of "\<lambda>d. True" "''/tmp''" 7] by blast

text \<open>
  The reported percentile is the upper bound of the right bucket: for a histogram with one bound
  more than counts and at most 2^53 samples, the result is the bound above the first bucket whose
  cumulated count reaches the target, the integer part of the rounded product; with a single sample
  the target is 0 and the first bucket is reported wherever the sample lies.
\<close>

theorem percentile_correct:
  assumes "length (hg_buckets h) = length (hg_counts h) + 1" "sum_list (map unat (hg_counts h)) = n"
    and "0 < n" "n \<le> 2 ^ 53" "float_rounding fl" "0 \<le> q" "q < 1" "fl q = q"
  shows "\<exists>i < length (hg_counts h). percentile fl (Some h) q = Some (hg_buckets h ! (i + 1)) \<and>
    nat (go_trunc (fl (of_nat n * q))) \<le> below (hg_counts h) (Suc i) \<and>
    (\<forall>j < i. below (hg_counts h) (Suc j) < nat (go_trunc (fl (of_nat n * q)))) \<and> (n = 1 \<longrightarrow> i = 0)"
proof -
  let ?t = "go_trunc (fl (of_nat n * q))"
  have small: "n < 2 ^ 64" using assms(4) by simp
  have total: "unat (sum_counts (hg_counts h)) = n"
    using unat_sum_counts [of "hg_counts h"] assms(2) small by (simp add: sum_counts_def foldl_plus_word)
  then have uint: "uint (sum_counts (hg_counts h)) = int n" by (metis uint_nat)
  have nz: "sum_counts (hg_counts h) \<noteq> 0" using total assms(3) by auto
  have fn: "fl (of_int (int n)) = of_nat n" using float_rounding_int [OF assms(5), of "int n"] assms(4) by simp
  have "of_nat n * q \<le> of_int (int n)" using assms(7) mult_left_mono [of q 1 "of_nat n"] by simp
  then have "fl (of_nat n * q) \<le> of_int (int n)" using float_rounding_mono [OF assms(5)] fn by fastforce
  moreover have pos: "0 \<le> fl (of_nat n * q)" using assms(6) float_rounding_nonneg [OF assms(5)] by simp
  ultimately have "?t \<le> go_trunc (of_int (int n))" by (intro go_trunc_mono)
  then have t: "0 \<le> ?t" "?t \<le> int n" using go_trunc_nonneg [OF pos] by (simp_all only: go_trunc_of_int)
  then have ut: "unat (word_of_int ?t :: 64 word) = nat ?t"
    using small by (simp add: unat_eq_nat_uint uint_word_of_int)
  have le: "nat ?t \<le> n" using t by simp
  have "hg_counts h \<noteq> []" using assms(2,3) by auto
  then obtain i where i: "i < length (hg_counts h)"
    "find_bucket (hg_buckets h) (word_of_int ?t) (hg_counts h) 0 0 = Some (hg_buckets h ! (0 + i + 1))"
    "nat ?t \<le> below (hg_counts h) (Suc i)" "\<forall>j < i. below (hg_counts h) (Suc j) < nat ?t"
    using find_bucket_index [of "hg_buckets h" 0 "hg_counts h" 0 "word_of_int ?t"] assms(1,2) small t ut le by auto
  have "percentile fl (Some h) q = Some (hg_buckets h ! (i + 1))"
    using i(2) nz fn by (simp add: percentile_def Let_def uint)
  moreover have "i = 0" if "n = 1"
  proof -
    have "?t = 0" using that assms(6-8) by (simp add: go_trunc_def floor_eq_iff)
    with i(4) show ?thesis by (cases i) auto
  qed
  ultimately show ?thesis using i(1,3,4) by blast
qed

theorem percentile_correct_witness:
  "percentile (\<lambda>x. x) (Some \<lparr>hg_counts = [0, 0, 1], hg_buckets = [Neg_inf, Fin 0, Fin 1, Fin 2]\<rparr>) (99/100) = Some (Fin 0)"
proof -
  let ?h = "\<lparr>hg_counts = [0, 0, 1], hg_buckets = [Neg_inf, Fin 0, Fin 1, Fin 2]\<rparr>"
  have "length (hg_buckets ?h) = length (hg_counts ?h) + 1" "sum_list (map unat (hg_counts ?h)) = 1" by simp_all
  from percentile_correct [OF this _ _ float_rounding_id, of "99/100"] show ?thesis by auto
qed

text \<open>
  Collections are neither lost nor counted twice: the cycles of the events add up to the advance
  of the counter, however the polls fall.
\<close>

theorem gc_cycles_telescope:
  "sum_list (map fst (gc_watch lastCount polls)) = last_count lastCount polls - lastCount"
  by (induction lastCount polls rule: gc_watch.induct) simp_all

text \<open>
  One burst for each trigger: the events of the coordinator are those of its set-up followed by
  one start and one end for every trigger of its mode that arrives before it stops, so bursts never
  overlap and every started burst is ended.
\<close>

theorem coordinator_bursts:
  "coordinator mode p cut_short dialled es =
     snd (coordinator_setup mode (rb_Period (pf_Reconcile p)) cut_short dialled) @
     concat (replicate (length (filter
         (\<lambda>e. fst (coordinator_setup mode (rb_Period (pf_Reconcile p)) cut_short dialled) = On_tick \<and> e = Tick_fires \<or>
              fst (coordinator_setup mode (rb_Period (pf_Reconcile p)) cut_short dialled) = On_token \<and> e = Token)
         (takeWhile (\<lambda>e. e \<noteq> Ctx_done \<and> \<not> (e = Hang_up \<and>
              fst (coordinator_setup mode (rb_Period (pf_Reconcile p)) cut_short dialled) = On_token)) es)))
       (burst_events p))"
proof -
  have "coordinator_loop m p es = concat (replicate (length (filter
      (\<lambda>e. m = On_tick \<and> e = Tick_fires \<or> m = On_token \<and> e = Token)
      (takeWhile (\<lambda>e. e \<noteq> Ctx_done \<and> \<not> (e = Hang_up \<and> m = On_token)) es))) (burst_events p))" for m
    by (induction es) (auto split: coord_event.splits)
  then show ?thesis by (auto simp: coordinator_def split: prod.splits)
qed

end
