(* ===== verification/Emitter.thy ===== *)
theory Emitter
  imports Prelude "HOL-Library.Word"
begin

text \<open>
  \<open>pkg/output/jsonl.go\<close>: the JSONL event writer. Any number of goroutines emit, one goroutine
  drains the channel into the file, one closes. Emit is two steps, the check of the closed flag and
  the send, and Close is four: the swap of the flag, the close of the channel, the wait for the
  drainer and the final flush, so every interleaving of the code is a run. The channel's capacity
  (4096 in the worker, positive here) and the JSON encoder are parameters.
\<close>

section \<open>The machine\<close>

datatype 'ev emit_state = Outside | Checked 'ev

datatype close_state = Open | Swapped | ChanClosed | Drained | Closed bool

text \<open>
  \<open>wr_queue\<close> is the channel's buffer and \<open>wr_out\<close> the lines handed to the buffered file.
  \<open>wr_accepted\<close>, \<open>wr_taken\<close> and \<open>wr_offered\<close> are history: the events that entered the channel,
  those the drainer took, and the number of sends that were tried.
\<close>

record 'ev Writer =
  wr_queue :: "'ev list"
  wr_dropped :: "64 word"
  wr_closed :: bool
  wr_emitters :: "nat \<Rightarrow> 'ev emit_state"
  wr_phase :: close_state
  wr_draining :: bool
  wr_out :: "string list"
  wr_crashed :: bool
  wr_accepted :: "'ev list"
  wr_taken :: "'ev list"
  wr_offered :: nat

definition NewWriter :: "'ev Writer" where
  "NewWriter = \<lparr>wr_queue = [], wr_dropped = 0, wr_closed = False, wr_emitters = (\<lambda>i. Outside),
     wr_phase = Open, wr_draining = True, wr_out = [], wr_crashed = False, wr_accepted = [],
     wr_taken = [], wr_offered = 0\<rparr>"

text \<open>\<open>Emit\<close>: nothing happens after the flag is set; the check alone changes nothing else.\<close>

definition emit_check :: "nat \<Rightarrow> 'ev \<Rightarrow> 'ev Writer \<Rightarrow> 'ev Writer" where
  "emit_check i ev s =
     (if wr_closed s then s else s\<lparr>wr_emitters := (wr_emitters s)(i := Checked ev)\<rparr>)"

text \<open>The select: a closed channel panics, a full one drops the event.\<close>

definition emit_send :: "nat \<Rightarrow> nat \<Rightarrow> 'ev \<Rightarrow> 'ev Writer \<Rightarrow> 'ev Writer" where
  "emit_send bufcap i ev s =
     (let s0 = s\<lparr>wr_emitters := (wr_emitters s)(i := Outside)\<rparr> in
      if wr_phase s \<noteq> Open \<and> wr_phase s \<noteq> Swapped then s0\<lparr>wr_crashed := True\<rparr>
      else let s1 = s0\<lparr>wr_offered := wr_offered s + 1\<rparr> in
        if length (wr_queue s) < bufcap
        then s1\<lparr>wr_queue := wr_queue s @ [ev], wr_accepted := wr_accepted s @ [ev]\<rparr>
        else s1\<lparr>wr_dropped := wr_dropped s + 1\<rparr>)"

text \<open>\<open>run\<close>: an event that does not encode is skipped.\<close>

definition drain :: "('ev \<Rightarrow> string option) \<Rightarrow> 'ev \<Rightarrow> 'ev list \<Rightarrow> 'ev Writer \<Rightarrow> 'ev Writer" where
  "drain enc ev rest s =
     s\<lparr>wr_queue := rest, wr_taken := wr_taken s @ [ev],
       wr_out := wr_out s @ (case enc ev of None \<Rightarrow> [] | Some line \<Rightarrow> [line])\<rparr>"

text \<open>The end of Close: flush, sync and close of the file, an error at the first that fails.\<close>

definition close_result :: "bool \<Rightarrow> bool \<Rightarrow> bool \<Rightarrow> bool" where
  "close_result flush_ok sync_ok close_ok =
     (if \<not> flush_ok then False else if \<not> sync_ok then False else close_ok)"

inductive wr_step :: "nat \<Rightarrow> ('ev \<Rightarrow> string option) \<Rightarrow> 'ev Writer \<Rightarrow> 'ev Writer \<Rightarrow> bool"
  for bufcap enc where
  check: "\<not> wr_crashed s \<Longrightarrow> wr_emitters s i = Outside \<Longrightarrow> wr_step bufcap enc s (emit_check i ev s)"
| send: "\<not> wr_crashed s \<Longrightarrow> wr_emitters s i = Checked ev \<Longrightarrow> wr_step bufcap enc s (emit_send bufcap i ev s)"
| take_event: "\<not> wr_crashed s \<Longrightarrow> wr_draining s \<Longrightarrow> wr_queue s = ev # rest \<Longrightarrow>
    wr_step bufcap enc s (drain enc ev rest s)"
| drain_ends: "\<not> wr_crashed s \<Longrightarrow> wr_draining s \<Longrightarrow> wr_queue s = [] \<Longrightarrow> wr_phase s = ChanClosed \<Longrightarrow>
    wr_step bufcap enc s (s\<lparr>wr_draining := False\<rparr>)"
| close_swap: "\<not> wr_crashed s \<Longrightarrow> \<not> wr_closed s \<Longrightarrow>
    wr_step bufcap enc s (s\<lparr>wr_closed := True, wr_phase := Swapped\<rparr>)"
| close_chan: "\<not> wr_crashed s \<Longrightarrow> wr_phase s = Swapped \<Longrightarrow>
    wr_step bufcap enc s (s\<lparr>wr_phase := ChanClosed\<rparr>)"
| close_wait: "\<not> wr_crashed s \<Longrightarrow> wr_phase s = ChanClosed \<Longrightarrow> \<not> wr_draining s \<Longrightarrow>
    wr_step bufcap enc s (s\<lparr>wr_phase := Drained\<rparr>)"
| close_file: "\<not> wr_crashed s \<Longrightarrow> wr_phase s = Drained \<Longrightarrow>
    wr_step bufcap enc s (s\<lparr>wr_phase := Closed (close_result flush_ok sync_ok close_ok)\<rparr>)"

inductive_cases wr_stepE: "wr_step bufcap enc s s'"

abbreviation wr_steps :: "nat \<Rightarrow> ('ev \<Rightarrow> string option) \<Rightarrow> 'ev Writer \<Rightarrow> 'ev Writer \<Rightarrow> bool" where
  "wr_steps bufcap enc \<equiv> (wr_step bufcap enc)\<^sup>*\<^sup>*"

text \<open>What the caller of Close reads: the number of dropped events.\<close>

definition reported_drops :: "'ev Writer \<Rightarrow> 64 word" where
  "reported_drops s = wr_dropped s"

section \<open>Invariant\<close>

definition channel_closed :: "'ev Writer \<Rightarrow> bool" where
  "channel_closed s \<longleftrightarrow> wr_phase s \<noteq> Open \<and> wr_phase s \<noteq> Swapped"

definition wr_inv :: "nat \<Rightarrow> ('ev \<Rightarrow> string option) \<Rightarrow> 'ev Writer \<Rightarrow> bool" where
  "wr_inv bufcap enc s \<longleftrightarrow>
     wr_taken s @ wr_queue s = wr_accepted s \<and>
     wr_out s = List.map_filter enc (wr_taken s) \<and>
     length (wr_queue s) \<le> bufcap \<and>
     length (wr_accepted s) \<le> wr_offered s \<and>
     wr_dropped s = of_nat (wr_offered s - length (wr_accepted s)) \<and>
     (wr_closed s \<longleftrightarrow> wr_phase s \<noteq> Open) \<and>
     (\<not> wr_draining s \<longrightarrow> channel_closed s \<and> wr_queue s = []) \<and>
     (wr_phase s = Drained \<or> (\<exists>b. wr_phase s = Closed b) \<longrightarrow> \<not> wr_draining s)"

lemma wr_inv_new: "wr_inv bufcap enc NewWriter"
  by (simp add: wr_inv_def NewWriter_def List.map_filter_def)

lemma wr_inv_send:
  assumes "wr_inv bufcap enc s" shows "wr_inv bufcap enc (emit_send bufcap i ev s)"
  using assms
  by (auto simp: wr_inv_def emit_send_def Let_def channel_closed_def Suc_diff_le)

lemma wr_inv_drain:
  assumes "wr_inv bufcap enc s" "wr_draining s" "wr_queue s = ev # rest"
  shows "wr_inv bufcap enc (drain enc ev rest s)"
proof -
  have "List.map_filter enc (wr_taken s @ [ev]) =
      List.map_filter enc (wr_taken s) @ (case enc ev of None \<Rightarrow> [] | Some line \<Rightarrow> [line])"
    by (simp add: List.map_filter_def split: option.splits)
  with assms show ?thesis
    by (auto simp: wr_inv_def drain_def channel_closed_def)
qed

lemma wr_inv_step: "wr_step bufcap enc s s' \<Longrightarrow> wr_inv bufcap enc s \<Longrightarrow> wr_inv bufcap enc s'"
proof (induction rule: wr_step.induct)
  case (check s i ev)
  then show ?case by (cases "wr_closed s") (auto simp: emit_check_def wr_inv_def channel_closed_def)
next
  case (send s i ev)
  show ?case using send.prems by (rule wr_inv_send)
next
  case (take_event s ev rest)
  then show ?case by (simp add: wr_inv_drain)
qed (auto simp: wr_inv_def channel_closed_def) 

lemma wr_inv_steps: "wr_steps bufcap enc s s' \<Longrightarrow> wr_inv bufcap enc s \<Longrightarrow> wr_inv bufcap enc s'"
  by (induction rule: rtranclp_induct) (auto intro: wr_inv_step)

text \<open>Nothing is dropped before the channel has been filled once.\<close>

definition wr_filled :: "nat \<Rightarrow> 'ev Writer \<Rightarrow> bool" where
  "wr_filled bufcap s \<longleftrightarrow> length (wr_accepted s) = wr_offered s \<or> bufcap \<le> length (wr_accepted s)"

lemma wr_filled_step:
  assumes "wr_step bufcap enc s s'" "wr_inv bufcap enc s" "wr_filled bufcap s"
  shows "wr_filled bufcap s'"
  using assms(1)
proof cases
  case (send i ev)
  have "length (wr_queue s) \<le> length (wr_accepted s)"
    using assms(2) by (metis wr_inv_def length_append le_add2)
  with send assms(3) show ?thesis by (auto simp: wr_filled_def emit_send_def Let_def)
qed (use assms(3) in \<open>auto simp: wr_filled_def emit_check_def drain_def\<close>)

text \<open>Once the flag is set and no emitter is past its check, none ever is again.\<close>

definition quiet :: "'ev Writer \<Rightarrow> bool" where
  "quiet s \<longleftrightarrow> wr_closed s \<and> \<not> wr_crashed s \<and> (\<forall>i. wr_emitters s i = Outside)"

lemma quiet_step: "wr_step bufcap enc s s' \<Longrightarrow> quiet s \<Longrightarrow> quiet s'"
  by (induction rule: wr_step.induct) (auto simp: quiet_def emit_check_def drain_def)

lemma quiet_steps: "wr_steps bufcap enc s s' \<Longrightarrow> quiet s \<Longrightarrow> quiet s'"
  by (induction rule: rtranclp_induct) (auto intro: quiet_step)

lemma crash_possible: "\<exists>s. wr_steps bufcap enc (NewWriter :: 'ev Writer) s \<and> wr_crashed s"
proof -
  define ev :: 'ev where "ev = undefined"
  let ?s1 = "emit_check 0 ev NewWriter :: 'ev Writer"
  let ?s2 = "?s1\<lparr>wr_closed := True, wr_phase := Swapped\<rparr>"
  let ?s3 = "?s2\<lparr>wr_phase := ChanClosed\<rparr>"
  have s1: "wr_emitters ?s1 0 = Checked ev" "\<not> wr_closed ?s1" "\<not> wr_crashed ?s1"
    by (simp_all add: emit_check_def NewWriter_def)
  have "wr_step bufcap enc NewWriter ?s1" by (rule wr_step.check) (simp_all add: NewWriter_def)
  moreover have "wr_step bufcap enc ?s1 ?s2" using s1 by (intro wr_step.close_swap) simp_all
  moreover have "wr_step bufcap enc ?s2 ?s3" using s1 by (intro wr_step.close_chan) simp_all
  moreover have "wr_step bufcap enc ?s3 (emit_send bufcap 0 ev ?s3)" using s1 by (intro wr_step.send) simp_all
  ultimately have "wr_steps bufcap enc NewWriter (emit_send bufcap 0 ev ?s3)"
    by (meson converse_rtranclp_into_rtranclp rtranclp.rtrancl_refl)
  moreover have "wr_crashed (emit_send bufcap 0 ev ?s3)" by (simp add: emit_send_def Let_def)
  ultimately show ?thesis by blast
qed

section \<open>Properties\<close>

text \<open>
  C21. Every event is accounted for: in each reachable state the events that entered the channel are
  those written, in that order, followed by those still queued, the reported number of drops is the
  number of sends that did not enter it, and once Close has returned every accepted event that
  encodes is in the file.
\<close>

theorem writer_accounting:
  assumes "wr_steps bufcap enc NewWriter s"
  shows "wr_taken s @ wr_queue s = wr_accepted s \<and> wr_out s = List.map_filter enc (wr_taken s) \<and>
    length (wr_queue s) \<le> bufcap \<and> length (wr_accepted s) \<le> wr_offered s \<and>
    reported_drops s = of_nat (wr_offered s - length (wr_accepted s)) \<and>
    (\<forall>ok. wr_phase s = Closed ok \<longrightarrow> wr_out s = List.map_filter enc (wr_accepted s))"
proof -
  have inv: "wr_inv bufcap enc s" using wr_inv_steps [OF assms wr_inv_new] .
  then have "wr_queue s = []" if "wr_phase s = Closed ok" for ok
    using that unfolding wr_inv_def by blast
  with inv show ?thesis by (auto simp: wr_inv_def reported_drops_def)
qed

theorem writer_accounting_witness:
  "\<exists>s. wr_steps 1 Some NewWriter s \<and> wr_offered s = 2 \<and> reported_drops s = 1 \<and> wr_accepted s = [''a'']"
proof -
  let ?s1 = "emit_check 0 ''a'' NewWriter :: string Writer"
  let ?s2 = "emit_send 1 0 ''a'' ?s1"
  let ?s3 = "emit_check 0 ''b'' ?s2"
  let ?s4 = "emit_send 1 0 ''b'' ?s3"
  have f: "wr_emitters ?s1 0 = Checked ''a''" "\<not> wr_crashed ?s1" "\<not> wr_crashed ?s2" "wr_emitters ?s2 0 = Outside"
    "\<not> wr_crashed ?s3" "wr_emitters ?s3 0 = Checked ''b''" "wr_offered ?s4 = 2" "wr_accepted ?s4 = [''a'']"
    by (simp_all add: emit_check_def emit_send_def NewWriter_def Let_def)
  have "wr_step 1 Some NewWriter ?s1" by (rule wr_step.check) (simp_all add: NewWriter_def)
  moreover have "wr_step 1 Some ?s1 ?s2" using f by (intro wr_step.send)
  moreover have "wr_step 1 Some ?s2 ?s3" using f by (intro wr_step.check)
  moreover have "wr_step 1 Some ?s3 ?s4" using f by (intro wr_step.send)
  ultimately have run: "wr_steps 1 Some NewWriter ?s4"
    by (meson converse_rtranclp_into_rtranclp rtranclp.rtrancl_refl)
  with writer_accounting [OF run] f show ?thesis by (intro exI [of _ ?s4]) simp
qed

text \<open>
  Close is safe exactly when the emitters are done: if no goroutine is between its check and its
  send when the flag is swapped, nothing ever panics afterwards; without that, a send on the closed
  channel can crash the program, whatever the capacity.
\<close>

theorem writer_close_race:
  "(\<forall>s s1 s2. wr_steps bufcap enc NewWriter s \<longrightarrow> (\<forall>i. wr_emitters s i = Outside) \<longrightarrow> \<not> wr_crashed s \<longrightarrow>
      wr_step bufcap enc s s1 \<longrightarrow> wr_closed s1 \<longrightarrow> wr_steps bufcap enc s1 s2 \<longrightarrow> \<not> wr_crashed s2) \<and>
   (\<exists>s. wr_steps bufcap enc NewWriter s \<and> wr_crashed s)"
proof (intro conjI allI impI)
  fix s s1 s2
  assume later: "wr_steps bufcap enc s1 s2"
  assume "wr_step bufcap enc s s1" "wr_closed s1" "\<forall>i. wr_emitters s i = Outside" "\<not> wr_crashed s"
  then have "quiet s1"
    by cases (simp_all add: quiet_def emit_check_def drain_def split: if_splits)
  with later have "quiet s2" by (rule quiet_steps)
  then show "\<not> wr_crashed s2" by (simp add: quiet_def)
qed (rule crash_possible)

theorem writer_close_race_witness:
  "\<not> wr_crashed ((NewWriter :: string Writer)\<lparr>wr_closed := True, wr_phase := ChanClosed\<rparr>)"
proof -
  let ?s1 = "(NewWriter :: string Writer)\<lparr>wr_closed := True, wr_phase := Swapped\<rparr>"
  have "wr_step 1 Some (NewWriter :: string Writer) ?s1" by (rule wr_step.close_swap) (simp_all add: NewWriter_def)
  moreover have "wr_steps 1 Some ?s1 (?s1\<lparr>wr_phase := ChanClosed\<rparr>)"
    by (rule r_into_rtranclp, rule wr_step.close_chan) (simp_all add: NewWriter_def)
  moreover have "\<forall>i. wr_emitters (NewWriter :: string Writer) i = Outside" "\<not> wr_crashed (NewWriter :: string Writer)"
    by (simp_all add: NewWriter_def)
  ultimately have "\<not> wr_crashed (?s1\<lparr>wr_phase := ChanClosed\<rparr>)"
    using writer_close_race [of 1 Some] rtranclp.rtrancl_refl [of "wr_step 1 Some" NewWriter] by fastforce
  then show ?thesis by simp
qed

end
