(* ===== verification/WorkerRun.thy ===== *)
theory WorkerRun
  imports WorkerGuarantees Emitter
begin

text \<open>
  \<open>main\<close> of \<open>cmd/chaos-worker/main.go\<close> as a whole: the output file it opens, and the run as a machine
  of its goroutines over the event writer. Goroutine 0 is \<open>main\<close>; 1 is the observer, 2 the watcher
  of collections, 3 the reconcile coordinator, 4 to 7 the steady-state generators, which emit nothing.
\<close>

section \<open>Up to the output file\<close>

text \<open>\<open>outputDir\<close> is a clean path other than \<open>.\<close> and \<open>/\<close>, the profile's and the replica's name have no slash.\<close>

definition worker_output :: "worker_flags \<Rightarrow> int \<Rightarrow> string" where
  "worker_output f pid =
     path_join (wk_outputDir f)
       (''worker-'' @ wk_profile f @ ''-'' @ wk_replicaID f @ ''-'' @ Itoa pid @ ''.jsonl'')"

datatype worker_open = Not_begun worker_begin | No_directory string | No_file string | Opened string Profile

definition worker_opens :: "worker_flags \<Rightarrow> int \<Rightarrow> (string \<Rightarrow> bool) \<Rightarrow> (string \<Rightarrow> bool) \<Rightarrow> worker_open" where
  "worker_opens f pid mkdir_all create =
     (case worker_begins f of
        Goes_on p \<Rightarrow>
          if \<not> mkdir_all (wk_outputDir f) then No_directory (wk_outputDir f)
          else if \<not> create (worker_output f pid) then No_file (worker_output f pid)
          else Opened (worker_output f pid) p
      | b \<Rightarrow> Not_begun b)"

section \<open>The run\<close>

definition writer_buffer :: nat where
  "writer_buffer = 4096"

datatype main_pc = M_new | M_startup | M_waiting | M_shutdown | M_closing

record worker_run =
  wo_main :: main_pc
  wo_alive :: "nat \<Rightarrow> bool"
  wo_writer :: "event Writer"

definition start_worker :: worker_run where
  "start_worker = \<lparr>wo_main = M_new, wo_alive = (\<lambda>i. False), wo_writer = NewWriter\<rparr>"

definition goroutines :: "nat set" where
  "goroutines = {1..7}"

text \<open>The types of the events a goroutine emits.\<close>

definition event_type :: "event \<Rightarrow> event_value option" where
  "event_type ev = map_of ev ''type''"

definition emits :: "nat \<Rightarrow> event \<Rightarrow> bool" where
  "emits i ev \<longleftrightarrow> event_type ev \<in> Some ` EString `
     (if i = 1 then {''sample''} else if i = 2 then {''gc_event''}
      else if i = 3 then {''reconcile_start'', ''reconcile_end'', ''sync_error''} else {})"

definition on_writer :: "(event Writer \<Rightarrow> event Writer) \<Rightarrow> worker_run \<Rightarrow> worker_run" where
  "on_writer f s = s\<lparr>wo_writer := f (wo_writer s)\<rparr>"

text \<open>
  \<open>startup\<close> and \<open>shutdown\<close> are the events of \<open>main\<close>. A goroutine returns when the context ends, or
  earlier when its configuration gives it nothing to do; \<open>main\<close> emits the last event when all of
  them have, and then closes. The writer's own goroutine and the steps of \<open>Close\<close> are the writer's.
\<close>

inductive worker_step ::
  "(event \<Rightarrow> string option) \<Rightarrow> event \<Rightarrow> event \<Rightarrow> worker_run \<Rightarrow> worker_run \<Rightarrow> bool"
  for enc startup shutdown where
  begins: "wo_main s = M_new \<Longrightarrow>
    worker_step enc startup shutdown s ((on_writer (emit_check 0 startup) s)\<lparr>wo_main := M_startup\<rparr>)"
| spawns: "wo_main s = M_startup \<Longrightarrow> wr_emitters (wo_writer s) 0 = Outside \<Longrightarrow>
    worker_step enc startup shutdown s (s\<lparr>wo_main := M_waiting, wo_alive := (\<lambda>i. i \<in> goroutines)\<rparr>)"
| emit: "wo_alive s i \<Longrightarrow> wr_emitters (wo_writer s) i = Outside \<Longrightarrow> emits i ev \<Longrightarrow>
    worker_step enc startup shutdown s (on_writer (emit_check i ev) s)"
| send: "wr_emitters (wo_writer s) i = Checked ev \<Longrightarrow>
    worker_step enc startup shutdown s (on_writer (emit_send writer_buffer i ev) s)"
| returns: "wo_alive s i \<Longrightarrow> wr_emitters (wo_writer s) i = Outside \<Longrightarrow>
    worker_step enc startup shutdown s (s\<lparr>wo_alive := (wo_alive s)(i := False)\<rparr>)"
| waited: "wo_main s = M_waiting \<Longrightarrow> \<forall>i. \<not> wo_alive s i \<Longrightarrow>
    worker_step enc startup shutdown s ((on_writer (emit_check 0 shutdown) s)\<lparr>wo_main := M_shutdown\<rparr>)"
| close: "wo_main s = M_shutdown \<Longrightarrow> wr_emitters (wo_writer s) 0 = Outside \<Longrightarrow>
    worker_step enc startup shutdown s
      ((on_writer (\<lambda>w. w\<lparr>wr_closed := True, wr_phase := Swapped\<rparr>) s)\<lparr>wo_main := M_closing\<rparr>)"
| drains: "wr_draining (wo_writer s) \<Longrightarrow> wr_queue (wo_writer s) = ev # rest \<Longrightarrow>
    worker_step enc startup shutdown s (on_writer (drain enc ev rest) s)"
| drainer_ends: "wr_draining (wo_writer s) \<Longrightarrow> wr_queue (wo_writer s) = [] \<Longrightarrow> wr_phase (wo_writer s) = ChanClosed \<Longrightarrow>
    worker_step enc startup shutdown s (on_writer (\<lambda>w. w\<lparr>wr_draining := False\<rparr>) s)"
| closing: "wo_main s = M_closing \<Longrightarrow> wr_phase (wo_writer s) = Swapped \<Longrightarrow>
    worker_step enc startup shutdown s (on_writer (\<lambda>w. w\<lparr>wr_phase := ChanClosed\<rparr>) s)"
| closing_wait: "wo_main s = M_closing \<Longrightarrow> wr_phase (wo_writer s) = ChanClosed \<Longrightarrow> \<not> wr_draining (wo_writer s) \<Longrightarrow>
    worker_step enc startup shutdown s (on_writer (\<lambda>w. w\<lparr>wr_phase := Drained\<rparr>) s)"
| closing_file: "wo_main s = M_closing \<Longrightarrow> wr_phase (wo_writer s) = Drained \<Longrightarrow>
    worker_step enc startup shutdown s
      (on_writer (\<lambda>w. w\<lparr>wr_phase := Closed (close_result flush_ok sync_ok close_ok)\<rparr>) s)"

abbreviation worker_steps ::
  "(event \<Rightarrow> string option) \<Rightarrow> event \<Rightarrow> event \<Rightarrow> worker_run \<Rightarrow> worker_run \<Rightarrow> bool" where
  "worker_steps enc startup shutdown \<equiv> (worker_step enc startup shutdown)\<^sup>*\<^sup>*"

text \<open>The exit code once \<open>Close\<close> has returned.\<close>

definition worker_exit :: "worker_run \<Rightarrow> int option" where
  "worker_exit s =
     (case wr_phase (wo_writer s) of Closed ok \<Rightarrow> Some (if ok then 0 else 1) | _ \<Rightarrow> None)"

section \<open>Invariant\<close>

text \<open>Every step is one of the writer or leaves it alone, as long as nothing has crashed.\<close>

lemma worker_step_writer:
  assumes "worker_step enc startup shutdown s s'" "\<not> wr_crashed (wo_writer s)"
    "wo_main s = M_new \<or> wo_main s = M_waiting \<longrightarrow> wr_emitters (wo_writer s) 0 = Outside"
    "wo_main s = M_shutdown \<longrightarrow> \<not> wr_closed (wo_writer s)"
  shows "wo_writer s' = wo_writer s \<or> wr_step writer_buffer enc (wo_writer s) (wo_writer s')"
  using assms by cases (auto simp: on_writer_def intro: wr_step.intros)

definition first_last :: "event \<Rightarrow> event \<Rightarrow> worker_run \<Rightarrow> bool" where
  "first_last startup shutdown s \<longleftrightarrow>
     (let w = wo_writer s in
      case wo_main s of
        M_new \<Rightarrow> wr_accepted w = [] \<and> (\<forall>i. wr_emitters w i = Outside)
      | M_startup \<Rightarrow> (wr_emitters w 0 = Checked startup \<and> wr_accepted w = [] \<or>
          wr_emitters w 0 = Outside \<and> wr_accepted w = [startup])
      | M_waiting \<Rightarrow> wr_emitters w 0 = Outside \<and> (\<exists>mid. wr_accepted w = startup # mid)
      | M_shutdown \<Rightarrow> (wr_emitters w 0 = Checked shutdown \<and> (\<exists>mid. wr_accepted w = startup # mid) \<or>
          wr_emitters w 0 = Outside \<and> (\<exists>mid. wr_accepted w = startup # mid) \<and>
          (last (wr_accepted w) = shutdown \<and> 2 \<le> length (wr_accepted w) \<or> length (wr_accepted w) < wr_offered w))
      | M_closing \<Rightarrow> wr_emitters w 0 = Outside \<and> (\<exists>mid. wr_accepted w = startup # mid) \<and>
          (last (wr_accepted w) = shutdown \<and> 2 \<le> length (wr_accepted w) \<or> length (wr_accepted w) < wr_offered w))"

definition worker_inv ::
  "(event \<Rightarrow> string option) \<Rightarrow> event \<Rightarrow> event \<Rightarrow> worker_run \<Rightarrow> bool" where
  "worker_inv enc startup shutdown s \<longleftrightarrow>
     wr_inv writer_buffer enc (wo_writer s) \<and> \<not> wr_crashed (wo_writer s) \<and>
     (wo_main s \<noteq> M_closing \<longrightarrow> wr_phase (wo_writer s) = Open) \<and>
     (\<forall>i. wr_emitters (wo_writer s) i \<noteq> Outside \<longrightarrow> i \<noteq> 0 \<longrightarrow> wo_alive s i) \<and>
     (\<forall>i. wo_alive s i \<longrightarrow> wo_main s = M_waiting \<and> i \<in> goroutines) \<and>
     first_last startup shutdown s"

lemma worker_inv_start: "worker_inv enc startup shutdown start_worker"
  using wr_inv_new [of writer_buffer enc]
  by (simp add: worker_inv_def start_worker_def first_last_def NewWriter_def)

lemma worker_invD:
  assumes "worker_inv enc startup shutdown s"
  shows "wr_inv writer_buffer enc (wo_writer s)" "\<not> wr_crashed (wo_writer s)"
    "wo_main s \<noteq> M_closing \<Longrightarrow> wr_phase (wo_writer s) = Open \<and> \<not> wr_closed (wo_writer s)"
    "wr_emitters (wo_writer s) i \<noteq> Outside \<Longrightarrow> i \<noteq> 0 \<Longrightarrow> wo_alive s i"
    "wo_alive s i \<Longrightarrow> wo_main s = M_waiting \<and> i \<noteq> 0" "first_last startup shutdown s"
    "wo_alive s i \<Longrightarrow> i \<in> goroutines"
  using assms by (auto simp: worker_inv_def wr_inv_def goroutines_def)

lemma worker_step_simulates:
  assumes "worker_step enc startup shutdown s s'" "worker_inv enc startup shutdown s"
  shows "wo_writer s' = wo_writer s \<or> wr_step writer_buffer enc (wo_writer s) (wo_writer s')"
proof -
  have "wo_main s = M_new \<or> wo_main s = M_waiting \<longrightarrow> wr_emitters (wo_writer s) 0 = Outside"
    using worker_invD(6) [OF assms(2)] by (auto simp: first_last_def Let_def)
  moreover have "wo_main s = M_shutdown \<longrightarrow> \<not> wr_closed (wo_writer s)"
    using worker_invD(3) [OF assms(2)] by simp
  ultimately show ?thesis
    using worker_step_writer [OF assms(1) worker_invD(2) [OF assms(2)]] by blast
qed

lemma worker_inv_writer:
  assumes "worker_step enc startup shutdown s s'" "worker_inv enc startup shutdown s"
  shows "wr_inv writer_buffer enc (wo_writer s')"
  using worker_step_simulates [OF assms] wr_inv_step worker_invD(1) [OF assms(2)] by metis

text \<open>No goroutine is past its check when the channel closes, so a send finds it open.\<close>

lemma send_open:
  assumes "worker_inv enc startup shutdown s" "wr_emitters (wo_writer s) i = Checked ev"
  shows "wo_main s = M_startup \<and> i = 0 \<or> wo_main s = M_waiting \<and> i \<noteq> 0 \<or> wo_main s = M_shutdown \<and> i = 0"
proof (cases "i = 0")
  case True
  then show ?thesis using worker_invD(6) [OF assms(1)] assms(2)
    by (cases "wo_main s") (auto simp: first_last_def Let_def)
next
  case False
  then have "wo_alive s i" using worker_invD(4) [OF assms(1)] assms(2) by auto
  then show ?thesis using worker_invD(5) [OF assms(1)] by blast
qed

lemma worker_inv_send:
  assumes "worker_inv enc startup shutdown s" "wr_emitters (wo_writer s) i = Checked ev"
    and inv: "wr_inv writer_buffer enc (emit_send writer_buffer i ev (wo_writer s))"
  shows "worker_inv enc startup shutdown (on_writer (emit_send writer_buffer i ev) s)"
proof -
  let ?w = "wo_writer s"
  have main: "wo_main s = M_startup \<and> i = 0 \<or> wo_main s = M_waiting \<and> i \<noteq> 0 \<or> wo_main s = M_shutdown \<and> i = 0"
    using send_open [OF assms(1,2)] .
  then have phase: "wr_phase ?w = Open" using worker_invD(3) [OF assms(1)] by auto
  have empty: "wr_accepted ?w = [] \<Longrightarrow> wr_queue ?w = []" and len: "length (wr_accepted ?w) \<le> wr_offered ?w"
    using worker_invD(1) [OF assms(1)] by (auto simp: wr_inv_def)
  have "first_last startup shutdown (on_writer (emit_send writer_buffer i ev) s)"
    using worker_invD(6) [OF assms(1)] main phase assms(2) empty len
    by (auto simp: first_last_def on_writer_def emit_send_def Let_def writer_buffer_def Suc_le_eq)
  with assms(1) inv phase show ?thesis
    by (auto simp: worker_inv_def on_writer_def emit_send_def Let_def)
qed

text \<open>The writer's own steps touch neither the emitters nor what was accepted.\<close>

definition behind :: "event Writer \<Rightarrow> event Writer \<Rightarrow> bool" where
  "behind w w' \<longleftrightarrow> wr_emitters w' = wr_emitters w \<and> wr_accepted w' = wr_accepted w \<and>
     wr_offered w' = wr_offered w \<and> wr_crashed w' = wr_crashed w"

lemma worker_inv_behind:
  assumes "worker_inv enc startup shutdown s" "behind (wo_writer s) w" "wr_inv writer_buffer enc w"
    "wo_main s \<noteq> M_closing \<longrightarrow> wr_phase w = Open"
  shows "worker_inv enc startup shutdown (s\<lparr>wo_writer := w\<rparr>)"
proof -
  have "first_last startup shutdown (s\<lparr>wo_writer := w\<rparr>) \<longleftrightarrow> first_last startup shutdown s"
    using assms(2) by (simp add: first_last_def behind_def Let_def cong: main_pc.case_cong)
  with assms show ?thesis by (simp add: worker_inv_def behind_def)
qed

lemma worker_inv_step:
  assumes "worker_step enc startup shutdown s s'" "worker_inv enc startup shutdown s"
  shows "worker_inv enc startup shutdown s'"
  using assms(1)
proof cases
  case (send i ev)
  then have "wr_inv writer_buffer enc (emit_send writer_buffer i ev (wo_writer s))"
    using worker_inv_writer [OF assms] by (simp add: on_writer_def)
  then show ?thesis unfolding send(1) by (rule worker_inv_send [OF assms(2) send(2)])
next
  case begins
  with worker_inv_writer [OF assms] worker_invD(3,4,5,6) [OF assms(2)] assms(2) show ?thesis
    by (auto simp: worker_inv_def on_writer_def emit_check_def first_last_def Let_def)
next
  case spawns
  with worker_inv_writer [OF assms] worker_invD(6) [OF assms(2)] assms(2) show ?thesis
    by (auto simp: worker_inv_def first_last_def Let_def goroutines_def)
next
  case (emit i ev)
  with worker_inv_writer [OF assms] worker_invD(3,5,6) [OF assms(2)] assms(2) show ?thesis
    by (auto simp: worker_inv_def on_writer_def emit_check_def first_last_def Let_def)
next
  case waited
  with worker_inv_writer [OF assms] worker_invD(3,4,6) [OF assms(2)] assms(2) show ?thesis
    by (auto simp: worker_inv_def on_writer_def emit_check_def first_last_def Let_def)
next
  case close
  with worker_inv_writer [OF assms] worker_invD(6) [OF assms(2)] assms(2) show ?thesis
    by (auto simp: worker_inv_def on_writer_def first_last_def Let_def)
next
  case (returns i)
  with worker_inv_writer [OF assms] worker_invD(4,5,6) [OF assms(2)] assms(2) show ?thesis
    by (auto simp: worker_inv_def first_last_def Let_def)
next
  case (drains ev rest)
  with worker_inv_behind [OF assms(2), of "wo_writer s'"] worker_inv_writer [OF assms] worker_invD(3) [OF assms(2)]
  show ?thesis by (simp add: on_writer_def drain_def behind_def)
next
  case drainer_ends
  with worker_inv_behind [OF assms(2), of "wo_writer s'"] worker_inv_writer [OF assms] worker_invD(3) [OF assms(2)]
  show ?thesis by (auto simp: on_writer_def behind_def)
qed (use worker_inv_behind [OF assms(2), of "wo_writer s'"] worker_inv_writer [OF assms] in
  \<open>simp add: on_writer_def behind_def\<close>)+

lemma worker_inv_steps:
  "worker_steps enc startup shutdown s s' \<Longrightarrow> worker_inv enc startup shutdown s \<Longrightarrow>
   worker_inv enc startup shutdown s'"
  by (induction rule: rtranclp_induct) (auto intro: worker_inv_step)

lemma worker_filled:
  "worker_steps enc startup shutdown start_worker s \<Longrightarrow> wr_filled writer_buffer (wo_writer s)"
proof (induction rule: rtranclp_induct)
  case base
  show ?case by (simp add: start_worker_def NewWriter_def wr_filled_def)
next
  case (step s s')
  have inv: "worker_inv enc startup shutdown s" using worker_inv_steps [OF step.hyps(1) worker_inv_start] .
  show ?case
    using worker_step_simulates [OF step.hyps(2) inv] wr_filled_step worker_invD(1) [OF inv] step.IH by metis
qed

section \<open>The run can end\<close>

lemma worker_drains:
  assumes "worker_inv enc startup shutdown s" "wo_main s = M_closing" "wr_phase (wo_writer s) = ChanClosed"
  shows "\<exists>s'. worker_steps enc startup shutdown s s' \<and> wo_main s' = M_closing \<and>
    wr_phase (wo_writer s') = ChanClosed \<and> \<not> wr_draining (wo_writer s')"
  using assms
proof (induction "length (wr_queue (wo_writer s))" arbitrary: s)
  case 0
  show ?case
  proof (cases "wr_draining (wo_writer s)")
    case True
    then have "worker_step enc startup shutdown s (on_writer (\<lambda>w. w\<lparr>wr_draining := False\<rparr>) s)"
      using 0 by (intro worker_step.drainer_ends) simp_all
    with 0 show ?thesis by (intro exI [of _ "on_writer (\<lambda>w. w\<lparr>wr_draining := False\<rparr>) s"]) (simp add: on_writer_def)
  qed (use 0 in blast)
next
  case (Suc n)
  then obtain ev rest where queue: "wr_queue (wo_writer s) = ev # rest" by (cases "wr_queue (wo_writer s)") simp_all
  then have "wr_draining (wo_writer s)" using worker_invD(1) [OF Suc.prems(1)] by (auto simp: wr_inv_def)
  then have step: "worker_step enc startup shutdown s (on_writer (drain enc ev rest) s)"
    using queue by (rule worker_step.drains)
  have "\<exists>s'. worker_steps enc startup shutdown (on_writer (drain enc ev rest) s) s' \<and> wo_main s' = M_closing \<and>
    wr_phase (wo_writer s') = ChanClosed \<and> \<not> wr_draining (wo_writer s')"
    using Suc.hyps(2) Suc.prems queue worker_inv_step [OF step Suc.prems(1)]
    by (intro Suc.hyps(1)) (simp_all add: on_writer_def drain_def)
  with step show ?case by (meson converse_rtranclp_into_rtranclp)
qed

text \<open>One step of a worker as a goal: every phase has a continuation that ends.\<close>

definition can_end :: "(event \<Rightarrow> string option) \<Rightarrow> event \<Rightarrow> event \<Rightarrow> worker_run \<Rightarrow> bool" where
  "can_end enc startup shutdown s \<longleftrightarrow>
     (\<exists>s'. worker_steps enc startup shutdown s s' \<and> worker_exit s' = Some 0)"

lemma can_end_step: "worker_step enc startup shutdown s s' \<Longrightarrow> can_end enc startup shutdown s' \<Longrightarrow> can_end enc startup shutdown s"
  unfolding can_end_def by (meson converse_rtranclp_into_rtranclp)

lemma can_end_steps: "worker_steps enc startup shutdown s s' \<Longrightarrow> can_end enc startup shutdown s' \<Longrightarrow> can_end enc startup shutdown s"
  unfolding can_end_def by (meson rtranclp_trans)

lemma can_end_drained:
  assumes "wo_main s = M_closing" "wr_phase (wo_writer s) = Drained"
  shows "can_end enc startup shutdown s"
proof -
  let ?s = "on_writer (\<lambda>w. w\<lparr>wr_phase := Closed (close_result True True True)\<rparr>) s"
  have "worker_step enc startup shutdown s ?s" using assms by (rule worker_step.closing_file)
  moreover have "worker_exit ?s = Some 0" by (simp add: worker_exit_def on_writer_def close_result_def)
  ultimately show ?thesis unfolding can_end_def by blast
qed

lemma can_end_chan_closed:
  assumes "worker_inv enc startup shutdown s" "wo_main s = M_closing" "wr_phase (wo_writer s) = ChanClosed"
  shows "can_end enc startup shutdown s"
proof -
  from worker_drains [OF assms] obtain t where t: "worker_steps enc startup shutdown s t" "wo_main t = M_closing"
    "wr_phase (wo_writer t) = ChanClosed" "\<not> wr_draining (wo_writer t)" by blast
  from worker_step.closing_wait [OF t(2-4)] can_end_drained [of "on_writer (\<lambda>w. w\<lparr>wr_phase := Drained\<rparr>) t"]
  have "can_end enc startup shutdown t" by (rule can_end_step) (simp_all add: on_writer_def t(2))
  with t(1) show ?thesis by (rule can_end_steps)
qed

lemma can_end_swapped:
  assumes "worker_inv enc startup shutdown s" "wo_main s = M_closing" "wr_phase (wo_writer s) = Swapped"
  shows "can_end enc startup shutdown s"
proof -
  note step = worker_step.closing [OF assms(2,3)]
  from can_end_chan_closed [OF worker_inv_step [OF step assms(1)]] assms(2)
  show ?thesis by (intro can_end_step [OF step]) (simp add: on_writer_def)
qed

lemma can_end_shutdown:
  assumes "worker_inv enc startup shutdown s" "wo_main s = M_shutdown" "wr_emitters (wo_writer s) 0 = Outside"
  shows "can_end enc startup shutdown s"
proof -
  note step = worker_step.close [OF assms(2,3)]
  from can_end_swapped [OF worker_inv_step [OF step assms(1)]]
  show ?thesis by (intro can_end_step [OF step]) (simp add: on_writer_def)
qed

lemma can_end_send:
  assumes "worker_inv enc startup shutdown s" "wr_emitters (wo_writer s) i = Checked ev"
    and "worker_inv enc startup shutdown (on_writer (emit_send writer_buffer i ev) s) \<Longrightarrow>
      can_end enc startup shutdown (on_writer (emit_send writer_buffer i ev) s)"
  shows "can_end enc startup shutdown s"
  using can_end_step worker_step.send [OF assms(2)] worker_inv_step [OF worker_step.send [OF assms(2)] assms(1)] assms(3)
  by metis

lemma emit_send_emitters:
  "wr_emitters (emit_send bufcap i ev w) = (wr_emitters w)(i := Outside)"
  by (simp add: emit_send_def Let_def)

lemma can_end_waited:
  assumes "worker_inv enc startup shutdown s" "wo_main s = M_waiting" "\<forall>i. \<not> wo_alive s i"
  shows "can_end enc startup shutdown s"
proof -
  let ?t = "(on_writer (emit_check 0 shutdown) s)\<lparr>wo_main := M_shutdown\<rparr>"
  note step = worker_step.waited [OF assms(2,3)]
  have inv: "worker_inv enc startup shutdown ?t" using worker_inv_step [OF step assms(1)] .
  have "wr_emitters (wo_writer ?t) 0 = Checked shutdown"
    using worker_invD(3) [OF assms(1)] assms(2) by (simp add: on_writer_def emit_check_def)
  then have "can_end enc startup shutdown ?t"
    by (rule can_end_send [OF inv]) (rule can_end_shutdown, simp_all add: on_writer_def emit_send_emitters)
  with step show ?thesis by (rule can_end_step)
qed

lemma can_end_waiting:
  assumes "worker_inv enc startup shutdown s" "wo_main s = M_waiting"
  shows "can_end enc startup shutdown s"
  using assms
proof (induction "card {i. wo_alive s i}" arbitrary: s rule: less_induct)
  case less
  have fin: "finite {i. wo_alive s i}" if "worker_inv enc startup shutdown s" for s
    by (rule finite_subset [of _ goroutines]) (auto simp: goroutines_def dest: worker_invD(7) [OF that])
  have returns: "can_end enc startup shutdown t"
    if t: "worker_inv enc startup shutdown t" "wo_main t = M_waiting" "wo_alive t = wo_alive s" "wo_alive s i"
      "wr_emitters (wo_writer t) i = Outside" for t i
  proof -
    let ?u = "t\<lparr>wo_alive := (wo_alive t)(i := False)\<rparr>"
    have step: "worker_step enc startup shutdown t ?u" using t by (intro worker_step.returns) simp_all
    have "{j. wo_alive ?u j} = {j. wo_alive s j} - {i}" using t(3) by auto
    then have "card {j. wo_alive ?u j} < card {j. wo_alive s j}"
      using fin [OF less.prems(1)] t(4) card_Diff1_less by (metis mem_Collect_eq)
    then have "can_end enc startup shutdown ?u"
      by (rule less.hyps [OF _ worker_inv_step [OF step t(1)]]) (simp add: t(2))
    with step show ?thesis by (rule can_end_step)
  qed
  show ?case
  proof (cases "\<exists>i. wo_alive s i")
    case True
    then obtain i where i: "wo_alive s i" by blast
    show ?thesis
    proof (cases "wr_emitters (wo_writer s) i")
      case Outside
      with returns [OF less.prems] i show ?thesis by blast
    next
      case (Checked ev)
      then show ?thesis
        by (rule can_end_send [OF less.prems(1)])
          (rule returns [OF _ _ _ i], simp_all add: on_writer_def emit_send_emitters less.prems(2))
    qed
  qed (use can_end_waited less.prems in blast)
qed

lemma can_end_startup:
  assumes "worker_inv enc startup shutdown s" "wo_main s = M_startup" "wr_emitters (wo_writer s) 0 = Outside"
  shows "can_end enc startup shutdown s"
proof -
  note step = worker_step.spawns [OF assms(2,3)]
  from can_end_waiting [OF worker_inv_step [OF step assms(1)]]
  show ?thesis by (intro can_end_step [OF step]) simp
qed

lemma can_end_new:
  assumes "worker_inv enc startup shutdown s" "wo_main s = M_new" shows "can_end enc startup shutdown s"
proof -
  let ?t = "(on_writer (emit_check 0 startup) s)\<lparr>wo_main := M_startup\<rparr>"
  note step = worker_step.begins [OF assms(2)]
  have inv: "worker_inv enc startup shutdown ?t" using worker_inv_step [OF step assms(1)] .
  have "wr_emitters (wo_writer ?t) 0 = Checked startup"
    using worker_invD(3) [OF assms(1)] assms(2) by (simp add: on_writer_def emit_check_def)
  then have "can_end enc startup shutdown ?t"
    by (rule can_end_send [OF inv]) (rule can_end_startup, simp_all add: on_writer_def emit_send_emitters)
  with step show ?thesis by (rule can_end_step)
qed

lemma can_end_unclosed:
  assumes "worker_inv enc startup shutdown s" "wo_main s \<noteq> M_closing"
  shows "can_end enc startup shutdown s"
proof (cases "wo_main s")
  case M_startup
  show ?thesis
  proof (cases "wr_emitters (wo_writer s) 0")
    case (Checked ev)
    then show ?thesis
      by (rule can_end_send [OF assms(1)])
        (rule can_end_startup, simp_all add: on_writer_def emit_send_emitters M_startup)
  qed (use can_end_startup assms(1) M_startup in blast)
next
  case M_shutdown
  show ?thesis
  proof (cases "wr_emitters (wo_writer s) 0")
    case (Checked ev)
    then show ?thesis
      by (rule can_end_send [OF assms(1)])
        (rule can_end_shutdown, simp_all add: on_writer_def emit_send_emitters M_shutdown)
  qed (use can_end_shutdown assms(1) M_shutdown in blast)
qed (use can_end_waiting can_end_new assms in simp_all)

section \<open>A run\<close>

text \<open>A worker whose goroutines return without an event, in the states it goes through.\<close>

definition first_event :: event where "first_event = [(''type'', EString ''startup'')]"
definition last_event :: event where "last_event = [(''type'', EString ''shutdown'')]"

definition quiet_run ::
  "main_pc \<Rightarrow> nat \<Rightarrow> event emit_state \<Rightarrow> event list \<Rightarrow> event list \<Rightarrow> close_state \<Rightarrow> bool \<Rightarrow> worker_run" where
  "quiet_run m k e queue taken phase draining =
     \<lparr>wo_main = m, wo_alive = (\<lambda>i. k \<le> i \<and> i \<in> goroutines),
      wo_writer = \<lparr>wr_queue = queue, wr_dropped = 0, wr_closed = (phase \<noteq> Open),
        wr_emitters = (\<lambda>i. Outside)(0 := e), wr_phase = phase, wr_draining = draining,
        wr_out = map (\<lambda>ev. ''event'') taken, wr_crashed = False, wr_accepted = taken @ queue, wr_taken = taken,
        wr_offered = length (taken @ queue)\<rparr>\<rparr>"

abbreviation quiet_step :: "worker_run \<Rightarrow> worker_run \<Rightarrow> bool" where
  "quiet_step \<equiv> worker_step (\<lambda>ev. Some ''event'') first_event last_event"

lemmas quiet_simps = quiet_run_def on_writer_def emit_check_def emit_send_def drain_def writer_buffer_def
  close_result_def

lemma quiet_returns:
  assumes "1 \<le> k" "k \<le> 7"
  shows "quiet_step (quiet_run M_waiting k Outside q t Open True) (quiet_run M_waiting (Suc k) Outside q t Open True)"
proof -
  have "(\<lambda>i. k \<le> i \<and> i \<in> goroutines)(k := False) = (\<lambda>i. Suc k \<le> i \<and> i \<in> goroutines)" by (auto simp: fun_eq_iff)
  then show ?thesis
    using worker_step.returns [of "quiet_run M_waiting k Outside q t Open True" k] assms
    by (simp add: quiet_run_def goroutines_def)
qed

lemma quiet_all_return:
  "k \<le> 7 \<Longrightarrow> quiet_step\<^sup>*\<^sup>* (quiet_run M_waiting 1 Outside q t Open True) (quiet_run M_waiting (Suc k) Outside q t Open True)"
proof (induction k)
  case (Suc k)
  then show ?case using quiet_returns [of "Suc k" q t] by (simp add: rtranclp.rtrancl_into_rtrancl)
qed simp

lemma quiet_run_reached:
  "quiet_step\<^sup>*\<^sup>* start_worker (quiet_run M_closing 8 Outside [] [first_event, last_event] (Closed True) False)"
proof -
  let ?a = first_event and ?b = last_event
  have none: "(\<lambda>i. 8 \<le> i \<and> i \<in> goroutines) = (\<lambda>i. False)" by (auto simp: goroutines_def)
  have "start_worker = quiet_run M_new 8 Outside [] [] Open True"
    by (simp add: start_worker_def quiet_run_def NewWriter_def none fun_upd_idem)
  then have p0: "quiet_step\<^sup>*\<^sup>* start_worker (quiet_run M_new 8 Outside [] [] Open True)" by simp
  have p1: "quiet_step (quiet_run M_new 8 Outside [] [] Open True) (quiet_run M_startup 8 (Checked ?a) [] [] Open True)"
    using worker_step.begins [of "quiet_run M_new 8 Outside [] [] Open True"] by (simp add: quiet_simps)
  have p2: "quiet_step (quiet_run M_startup 8 (Checked ?a) [] [] Open True) (quiet_run M_startup 8 Outside [?a] [] Open True)"
    using worker_step.send [of "quiet_run M_startup 8 (Checked ?a) [] [] Open True" 0] by (simp add: quiet_simps)
  have p3: "quiet_step (quiet_run M_startup 8 Outside [?a] [] Open True) (quiet_run M_waiting 1 Outside [?a] [] Open True)"
  proof -
    have "(\<lambda>i. i \<in> goroutines) = (\<lambda>i. 1 \<le> i \<and> i \<in> goroutines)" by (auto simp: goroutines_def)
    with worker_step.spawns [of "quiet_run M_startup 8 Outside [?a] [] Open True"] show ?thesis
      by (simp add: quiet_run_def)
  qed
  have p4: "quiet_step\<^sup>*\<^sup>* (quiet_run M_waiting 1 Outside [?a] [] Open True) (quiet_run M_waiting 8 Outside [?a] [] Open True)"
    using quiet_all_return [of 7] by simp
  have p5: "quiet_step (quiet_run M_waiting 8 Outside [?a] [] Open True) (quiet_run M_shutdown 8 (Checked ?b) [?a] [] Open True)"
    using worker_step.waited [of "quiet_run M_waiting 8 Outside [?a] [] Open True"] by (simp add: quiet_simps none)
  have p6: "quiet_step (quiet_run M_shutdown 8 (Checked ?b) [?a] [] Open True) (quiet_run M_shutdown 8 Outside [?a, ?b] [] Open True)"
    using worker_step.send [of "quiet_run M_shutdown 8 (Checked ?b) [?a] [] Open True" 0] by (simp add: quiet_simps)
  have p7: "quiet_step (quiet_run M_shutdown 8 Outside [?a, ?b] [] Open True) (quiet_run M_closing 8 Outside [?a, ?b] [] Swapped True)"
    using worker_step.close [of "quiet_run M_shutdown 8 Outside [?a, ?b] [] Open True"] by (simp add: quiet_simps)
  have p8: "quiet_step (quiet_run M_closing 8 Outside [?a, ?b] [] Swapped True) (quiet_run M_closing 8 Outside [?a, ?b] [] ChanClosed True)"
    using worker_step.closing [of "quiet_run M_closing 8 Outside [?a, ?b] [] Swapped True"] by (simp add: quiet_simps)
  have p9: "quiet_step (quiet_run M_closing 8 Outside [?a, ?b] [] ChanClosed True) (quiet_run M_closing 8 Outside [?b] [?a] ChanClosed True)"
    using worker_step.drains [where enc = "\<lambda>ev. Some ''event''" and s = "quiet_run M_closing 8 Outside [?a, ?b] [] ChanClosed True"] by (simp add: quiet_simps)
  have p10: "quiet_step (quiet_run M_closing 8 Outside [?b] [?a] ChanClosed True) (quiet_run M_closing 8 Outside [] [?a, ?b] ChanClosed True)"
    using worker_step.drains [where enc = "\<lambda>ev. Some ''event''" and s = "quiet_run M_closing 8 Outside [?b] [?a] ChanClosed True"] by (simp add: quiet_simps)
  have p11: "quiet_step (quiet_run M_closing 8 Outside [] [?a, ?b] ChanClosed True) (quiet_run M_closing 8 Outside [] [?a, ?b] ChanClosed False)"
    using worker_step.drainer_ends [of "quiet_run M_closing 8 Outside [] [?a, ?b] ChanClosed True"] by (simp add: quiet_simps)
  have p12: "quiet_step (quiet_run M_closing 8 Outside [] [?a, ?b] ChanClosed False) (quiet_run M_closing 8 Outside [] [?a, ?b] Drained False)"
    using worker_step.closing_wait [of "quiet_run M_closing 8 Outside [] [?a, ?b] ChanClosed False"] by (simp add: quiet_simps)
  have p13: "quiet_step (quiet_run M_closing 8 Outside [] [?a, ?b] Drained False) (quiet_run M_closing 8 Outside [] [?a, ?b] (Closed True) False)"
    using worker_step.closing_file [of "quiet_run M_closing 8 Outside [] [?a, ?b] Drained False" _ _ _ True True True]
    by (simp add: quiet_simps)
  note add = rtranclp.rtrancl_into_rtrancl [where r = quiet_step]
  note up = rtranclp_trans [where r = quiet_step, OF add [OF add [OF add [OF p0 p1] p2] p3] p4]
  note down = add [OF add [OF add [OF add [OF up p5] p6] p7] p8]
  from add [OF add [OF add [OF add [OF add [OF down p9] p10] p11] p12] p13] show ?thesis .
qed

section \<open>Properties\<close>



text \<open>
  Every worker writes a file of its own: whatever the flags, two processes with the same output
  path have the same process id.
\<close>

theorem worker_output_distinct:
  assumes "worker_output f pid = worker_output g pid'" "0 \<le> pid" "0 \<le> pid'"
  shows "pid = pid'"
proof -
  have "\<exists>pre. worker_output h p = pre @ CHR ''-'' # (Itoa p @ ''.jsonl'')" for h p
    by (intro exI [of _ "wk_outputDir h @ ''/worker-'' @ wk_profile h @ ''-'' @ wk_replicaID h"])
      (simp add: worker_output_def path_join_def)
  then obtain xs ys where "xs @ CHR ''-'' # (Itoa pid @ ''.jsonl'') = ys @ CHR ''-'' # (Itoa pid' @ ''.jsonl'')"
    using assms(1) by metis
  from append_last_sep_inj [OF this] have "Itoa pid = Itoa pid'"
    using assms(2,3) by (simp add: Itoa_nonneg_no_minus)
  then show ?thesis using assms(2,3) Itoa_inj by blast
qed

theorem worker_output_distinct_witness:
  "worker_output worker_defaults 7 = worker_output worker_defaults 7 \<and> (7::int) = 7"
  using worker_output_distinct [of worker_defaults 7 worker_defaults 7] by simp

end
