(* ===== verification/Tuned.thy ===== *)
theory Tuned
  imports Launcher GoFlags
begin

text \<open>
  \<open>cmd/chaos-tuned/main.go\<close>: the subcommands that plan, check, apply, verify and explain a tuning,
  from the command line to the exit code. Files, decoders, encoders and the host are parameters.
\<close>

section \<open>Flags\<close>

record tuned_flags =
  tf_profile :: string
  tf_topology :: string
  tf_format :: string
  tf_gomaxprocs :: int
  tf_backend :: string
  tf_pids :: string

definition tuned_defaults :: tuned_flags where
  "tuned_defaults = \<lparr>tf_profile = [], tf_topology = [], tf_format = ''yaml'', tf_gomaxprocs = 0,
     tf_backend = [], tf_pids = []\<rparr>"

definition preflight_table :: "tuned_flags flag_table" where
  "preflight_table = [(''profile'', StringVar tf_profile_update)]"

definition explain_table :: "tuned_flags flag_table" where
  "explain_table = [(''profile'', StringVar tf_profile_update), (''topology'', StringVar tf_topology_update)]"

definition plan_table :: "(string \<Rightarrow> int option) \<Rightarrow> tuned_flags flag_table" where
  "plan_table parse_int =
     explain_table @ [(''format'', StringVar tf_format_update),
       (''worker-gomaxprocs'', IntVar parse_int tf_gomaxprocs_update)]"

definition apply_table :: "tuned_flags flag_table" where
  "apply_table = explain_table @ [(''backend'', StringVar tf_backend_update)]"

definition verify_table :: "tuned_flags flag_table" where
  "verify_table = explain_table @ [(''pids'', StringVar tf_pids_update)]"

section \<open>Loading\<close>

record 'e tuned_host =
  th_read :: "string \<Rightarrow> 'e + string"
  th_profile :: "string \<Rightarrow> 'e + PerformanceProfile"
  th_topology :: "string \<Rightarrow> 'e + Topology"
  th_iter :: iter_order
  th_sysfs :: sysfs
  th_host :: host
  th_status :: procfs

text \<open>Everything \<open>die\<close> is called with, and the two ways to exit with 1 without it.\<close>

datatype 'e tuned_error =
    FlagsRequired
  | ProfileNotLoaded "'e load_error"
  | TopologyNotLoaded string "'e topo_load_error" string "'e topo_load_error"
  | NoPlan plan_error
  | BadFormat
  | ChecksFailed nat
  | NotSelected applier_error
  | NotPrepared applier_error
  | BadEntry string
  | BadPid string
  | Mismatch "VerifyResult list"

definition load_profile :: "'e tuned_host \<Rightarrow> string \<Rightarrow> ('e load_error, PerformanceProfile) outcome" where
  "load_profile th path = Profile_LoadFile (th_read th) (th_profile th) (th_iter th) path"

definition built_in :: "string \<Rightarrow> string" where
  "built_in topoPath = ''topologies/'' @ topoPath @ ''.yaml''"

definition load_either :: "'e tuned_host \<Rightarrow> string \<Rightarrow> ('e tuned_error, Topology) outcome" where
  "load_either th topoPath =
     (case Topology_LoadFile (th_read th) (th_topology th) topoPath of
        Returns t \<Rightarrow> Returns t
      | Hangs \<Rightarrow> Hangs
      | Fails err \<Rightarrow>
          (case Topology_LoadFile (th_read th) (th_topology th) (built_in topoPath) of
             Returns t \<Rightarrow> Returns t
           | Hangs \<Rightarrow> Hangs
           | Fails err2 \<Rightarrow> Fails (TopologyNotLoaded topoPath err (built_in topoPath) err2)))"

definition mustLoad ::
  "'e tuned_host \<Rightarrow> string \<Rightarrow> string \<Rightarrow> ('e tuned_error, PerformanceProfile \<times> Topology) outcome" where
  "mustLoad th profPath topoPath =
     and_then (wrap_err ProfileNotLoaded (load_profile th profPath)) (\<lambda>prof.
     and_then (load_either th topoPath) (\<lambda>topo. Returns (prof, topo)))"

text \<open>The steps four subcommands share: the two flags, the two files, the plan.\<close>

definition load_plan ::
  "'e tuned_host \<Rightarrow> tuned_flags \<Rightarrow> int \<Rightarrow> ('e tuned_error, PerformanceProfile \<times> Topology \<times> Plan) outcome" where
  "load_plan th f gomaxprocs =
     and_then (mustLoad th (tf_profile f) (tf_topology f)) (\<lambda>(prof, topo).
     and_then (wrap_err NoPlan (BuildPlan (th_iter th) prof topo (Topology_Flatten topo gomaxprocs))) (\<lambda>plan.
       Returns (prof, topo, plan)))"

section \<open>plan\<close>

text \<open>What goes to the YAML or JSON encoder: a map from names to values.\<close>

datatype out_value = OString string | OInt int | OBool bool | OList "(string \<times> out_value) list list"

definition assignment_out :: "Assignment \<Rightarrow> (string \<times> out_value) list" where
  "assignment_out a =
     [(''component'', OString (a_Component a)), (''replica_id'', OString (a_ReplicaID a)),
      (''class'', OString (a_Class a)), (''cpus'', OString (CPUList_String (a_CPUs a))),
      (''exclusive'', OBool (a_Exclusive a)), (''gomaxprocs'', OInt (a_GOMAXPROCS a)),
      (''memory_max'', OInt (a_MemoryMax a)), (''rt_priority'', OInt (a_RTPriority a)),
      (''source'', OString (a_Source a))]"

definition planAssignmentsForOutput :: "Plan \<Rightarrow> (string \<times> out_value) list list" where
  "planAssignmentsForOutput p = map assignment_out (pl_Assignments p)"

definition plan_out :: "PerformanceProfile \<Rightarrow> Topology \<Rightarrow> Plan \<Rightarrow> (string \<times> out_value) list" where
  "plan_out prof topo plan =
     [(''profile'', OString (md_Name (Metadata prof))), (''topology'', OString (HostType topo)),
      (''reserved'', OString (CPUList_String (pl_Reserved plan))),
      (''isolated'', OString (CPUList_String (pl_Isolated plan))),
      (''workload'', OString (CPUList_String (pl_WorkloadCPUs plan))),
      (''victim_cpus'', OString (CPUList_String (pl_VictimCPUs plan))),
      (''realtime'', OBool (pl_RealTime plan)), (''assignments'', OList (planAssignmentsForOutput plan))]"

text \<open>The format is looked at only after the plan was built.\<close>

definition cmdPlan :: "'e tuned_host \<Rightarrow> tuned_flags \<Rightarrow> ('e tuned_error, string \<times> (string \<times> out_value) list) outcome" where
  "cmdPlan th f =
     and_then (guard_err (tf_profile f = [] \<or> tf_topology f = []) FlagsRequired) (\<lambda>_.
     and_then (load_plan th f (tf_gomaxprocs f)) (\<lambda>(prof, topo, plan).
       if tf_format f = ''json'' then Returns (''json'', plan_out prof topo plan)
       else if tf_format f = ''yaml'' \<or> tf_format f = [] then Returns (''yaml'', plan_out prof topo plan)
       else Fails BadFormat))"

section \<open>preflight\<close>

text \<open>A preflight that does not end is the parser's; it has no failure of its own.\<close>

definition run_checks :: "'e tuned_host \<Rightarrow> PerformanceProfile \<Rightarrow> ('e tuned_error, PreflightReport) outcome" where
  "run_checks th prof =
     (case Preflight (th_sysfs th) prof of Returns r \<Rightarrow> Returns r | Fails u \<Rightarrow> Hangs | Hangs \<Rightarrow> Hangs)"

definition must_pass :: "PreflightReport \<Rightarrow> ('e tuned_error, unit) outcome" where
  "must_pass report =
     guard_err (length (RequiredFailures report) > 0) (ChecksFailed (length (RequiredFailures report)))"

definition cmdPreflight :: "'e tuned_host \<Rightarrow> tuned_flags \<Rightarrow> ('e tuned_error, PreflightReport) outcome" where
  "cmdPreflight th f =
     and_then (guard_err (tf_profile f = []) FlagsRequired) (\<lambda>_.
     and_then (wrap_err ProfileNotLoaded (load_profile th (tf_profile f))) (\<lambda>prof.
     and_then (run_checks th prof) (\<lambda>report.
     and_then (must_pass report) (\<lambda>_. Returns report))))"

section \<open>apply\<close>

text \<open>Selecting a back end and preparing the host, with what was done to the host even on an error.\<close>

definition prepare :: "'e tuned_host \<Rightarrow> string \<Rightarrow> ('e tuned_error, backend) outcome \<times> os_op list" where
  "prepare th requested =
     (case AutoSelect (th_host th) requested [] of
        (Inl e, ops) \<Rightarrow> (Fails (NotSelected e), ops)
      | (Inr b, ops) \<Rightarrow>
          (case Applier_PrepareHost b (th_host th) ops of
             (Inl e, ops') \<Rightarrow> (Fails (NotPrepared e), ops')
           | (Inr _, ops') \<Rightarrow> (Returns b, ops')))"

text \<open>What comes before: the plan, then the preflight, whose failures end the command.\<close>

definition check_apply :: "'e tuned_host \<Rightarrow> tuned_flags \<Rightarrow> ('e tuned_error, Plan \<times> PreflightReport) outcome" where
  "check_apply th f =
     and_then (guard_err (tf_profile f = [] \<or> tf_topology f = []) FlagsRequired) (\<lambda>_.
     and_then (load_plan th f 0) (\<lambda>(prof, topo, plan).
     and_then (run_checks th prof) (\<lambda>report.
     and_then (must_pass report) (\<lambda>_. Returns (plan, report)))))"

definition cmdApply :: "'e tuned_host \<Rightarrow> tuned_flags \<Rightarrow> ('e tuned_error, backend) outcome \<times> os_op list" where
  "cmdApply th f =
     (case check_apply th f of
        Returns _ \<Rightarrow> prepare th (tf_backend f)
      | Fails e \<Rightarrow> (Fails e, [])
      | Hangs \<Rightarrow> (Hangs, []))"

section \<open>verify\<close>

fun parse_pids :: "string list \<Rightarrow> (string \<times> int) list \<Rightarrow> ('e tuned_error, (string \<times> int) list) outcome" where
  "parse_pids [] pids = Returns pids"
| "parse_pids (e # es) pids =
     (let kv = TrimSpace e in
      if kv = [] then parse_pids es pids
      else let eq = Index kv CHR ''='' in
        if eq < 0 then Fails (BadEntry kv)
        else case Atoi (TrimSpace (drop (nat eq + 1) kv)) of
          (_, Some _) \<Rightarrow> Fails (BadPid kv)
        | (pid, None) \<Rightarrow> parse_pids es (put_pid (TrimSpace (take (nat eq) kv)) pid pids))"

definition verify_pids :: "'e tuned_host \<Rightarrow> Plan \<Rightarrow> (string \<times> int) list \<Rightarrow> ('e tuned_error, VerifyResult list) outcome" where
  "verify_pids th plan pids =
     (case VerifyAll (th_status th) plan (map_of pids) of
        Returns rs \<Rightarrow> if AnyFailed rs then Fails (Mismatch rs) else Returns rs
      | Fails u \<Rightarrow> Hangs
      | Hangs \<Rightarrow> Hangs)"

definition cmdVerify :: "'e tuned_host \<Rightarrow> tuned_flags \<Rightarrow> ('e tuned_error, VerifyResult list) outcome" where
  "cmdVerify th f =
     and_then (guard_err (tf_profile f = [] \<or> tf_topology f = [] \<or> tf_pids f = []) FlagsRequired) (\<lambda>_.
     and_then (load_plan th f 0) (\<lambda>(prof, topo, plan).
     and_then (parse_pids (Split CHR '','' (tf_pids f)) []) (\<lambda>pids. verify_pids th plan pids)))"

section \<open>explain\<close>

definition bool_text :: "bool \<Rightarrow> string" where
  "bool_text b = (if b then ''true'' else ''false'')"

definition counted :: "string \<Rightarrow> cpulist \<Rightarrow> string" where
  "counted label l = label @ CPUList_String l @ '' ('' @ Itoa (int (CPUList_Len l)) @ '')''"

definition assignment_line :: "Assignment \<Rightarrow> string" where
  "assignment_line a =
     ''  '' @ pad_right 32 (if a_ReplicaID a \<noteq> [] then a_ReplicaID a else a_Component a) @
     '' class='' @ pad_right 20 (a_Class a) @ '' cpus='' @ pad_right 12 (CPUList_String (a_CPUs a)) @
     '' gomaxprocs='' @ pad_right 3 (Itoa (a_GOMAXPROCS a)) @ ''  '' @ a_Source a"

definition explain_lines :: "PerformanceProfile \<Rightarrow> Topology \<Rightarrow> Plan \<Rightarrow> string list" where
  "explain_lines prof topo plan =
     [''Profile: '' @ md_Name (Metadata prof),
      counted ''  reserved CPUs:  '' (pl_Reserved plan), counted ''  isolated CPUs:  '' (pl_Isolated plan),
      counted ''  workload CPUs:  '' (pl_WorkloadCPUs plan),
      ''  victim CPUs:    '' @ CPUList_String (pl_VictimCPUs plan) @ '' (exclusive)'',
      ''  RT kernel:      '' @ bool_text (pl_RealTime plan)] @
     (if pl_NUMATopologyPolicy plan \<noteq> [] then [''  NUMA policy:    '' @ pl_NUMATopologyPolicy plan] else []) @
     [[], ''Topology: '' @ HostType topo @ '' ('' @ Itoa (int (length (Components topo))) @ '' components)'', [],
      ''Per-process assignments:''] @
     map assignment_line (pl_Assignments plan)"

definition cmdExplain :: "'e tuned_host \<Rightarrow> tuned_flags \<Rightarrow> ('e tuned_error, string list) outcome" where
  "cmdExplain th f =
     and_then (guard_err (tf_profile f = [] \<or> tf_topology f = []) FlagsRequired) (\<lambda>_.
     and_then (load_plan th f 0) (\<lambda>(prof, topo, plan). Returns (explain_lines prof topo plan)))"

section \<open>main\<close>

text \<open>How a run of the command ends: with an exit code, or not at all.\<close>

datatype tuned_exit = Exit int | Never

definition ends :: "('e tuned_error, 'a) outcome \<Rightarrow> tuned_exit" where
  "ends m = (case m of Returns _ \<Rightarrow> Exit 0 | Fails _ \<Rightarrow> Exit 1 | Hangs \<Rightarrow> Never)"

definition with_flags ::
  "tuned_flags flag_table \<Rightarrow> string list \<Rightarrow> (tuned_flags \<Rightarrow> ('e tuned_error, 'a) outcome) \<Rightarrow> tuned_exit" where
  "with_flags tab args cmd =
     (case parse_flags tab args tuned_defaults of
        Parsed f \<Rightarrow> ends (cmd f)
      | Wants_help \<Rightarrow> Exit 0
      | Bad_flag name \<Rightarrow> Exit 2)"

definition tuned_main :: "(string \<Rightarrow> int option) \<Rightarrow> 'e tuned_host \<Rightarrow> string list \<Rightarrow> tuned_exit" where
  "tuned_main parse_int th argv =
     (case argv of
        [] \<Rightarrow> Exit 2
      | sub # args \<Rightarrow>
          if sub = ''plan'' then with_flags (plan_table parse_int) args (cmdPlan th)
          else if sub = ''preflight'' then with_flags preflight_table args (cmdPreflight th)
          else if sub = ''apply'' then with_flags apply_table args (\<lambda>f. fst (cmdApply th f))
          else if sub = ''verify'' then with_flags verify_table args (cmdVerify th)
          else if sub = ''explain'' then with_flags explain_table args (cmdExplain th)
          else if sub \<in> {''version'', ''-version'', ''--version'', ''help'', ''-help'', ''--help'', ''-h''} then Exit 0
          else Exit 2)"

section \<open>Lemmas\<close>

lemma mustLoad_Returns:
  assumes "mustLoad th profPath topoPath = Returns (prof, topo)"
  shows "load_profile th profPath = Returns prof"
    and "\<exists>path \<in> {topoPath, built_in topoPath}. Topology_LoadFile (th_read th) (th_topology th) path = Returns topo"
  using assms by (auto simp: mustLoad_def load_either_def outcome_simps split: outcome.splits)

lemma load_plan_Returns:
  assumes "load_plan th f g = Returns (prof, topo, plan)"
  shows "mustLoad th (tf_profile f) (tf_topology f) = Returns (prof, topo)"
    and "BuildPlan (th_iter th) prof topo (Topology_Flatten topo g) = Returns plan"
  using assms by (auto simp: load_plan_def outcome_simps)

lemma verify_pids_Returns:
  "verify_pids th plan pids = Returns rs \<longleftrightarrow> VerifyAll (th_status th) plan (map_of pids) = Returns rs \<and> \<not> AnyFailed rs"
  by (auto simp: verify_pids_def split: outcome.splits)

lemma run_checks_Returns: "run_checks th prof = Returns report \<longleftrightarrow> Preflight (th_sysfs th) prof = Returns report"
  by (auto simp: run_checks_def split: outcome.splits)

lemma must_pass_Returns: "must_pass report = Returns u \<longleftrightarrow> RequiredFailures report = []"
  by (simp add: must_pass_def outcome_simps)

lemma cmdVerify_Returns:
  fixes th :: "'e tuned_host"
  assumes "cmdVerify th f = Returns rs"
  obtains prof topo plan pids where "load_plan th f 0 = Returns (prof, topo, plan)"
    "parse_pids (Split CHR '','' (tf_pids f)) [] = (Returns pids :: ('e tuned_error, (string \<times> int) list) outcome)"
    "VerifyAll (th_status th) plan (map_of pids) = Returns rs" "\<not> AnyFailed rs"
  using assms that
  by (auto simp: cmdVerify_def outcome_simps verify_pids_Returns)

lemma check_apply_Returns:
  assumes "check_apply th f = Returns (plan, report)"
  obtains prof topo where "load_plan th f 0 = Returns (prof, topo, plan)"
    "Preflight (th_sysfs th) prof = Returns report" "RequiredFailures report = []"
  using assms that
  by (auto simp: check_apply_def outcome_simps run_checks_Returns must_pass_Returns)

end
