(* ===== verification/LaunchRun.thy ===== *)
theory LaunchRun
  imports Tuned Terminate
begin

text \<open>
  The rest of \<open>cmd/chaos-launcher/main.go\<close>: its command line, the documents it leaves for the
  aggregator, the goroutine that triggers synchronised bursts and the aggregator's command.
\<close>

section \<open>Command line\<close>

record launcher_flags =
  lf_configPath :: string
  lf_outputDir :: string
  lf_binDir :: string
  lf_skipAggregate :: bool
  lf_showVersion :: bool

definition launcher_defaults :: launcher_flags where
  "launcher_defaults = \<lparr>lf_configPath = [], lf_outputDir = ''results/'', lf_binDir = [],
     lf_skipAggregate = False, lf_showVersion = False\<rparr>"

definition launcher_table :: "launcher_flags flag_table" where
  "launcher_table =
     [(''config'', StringVar lf_configPath_update), (''output-dir'', StringVar lf_outputDir_update),
      (''bin-dir'', StringVar lf_binDir_update), (''skip-aggregate'', BoolVar lf_skipAggregate_update),
      (''version'', BoolVar lf_showVersion_update)]"

text \<open>The launcher's own check: whether it exits with 2.\<close>

definition config_missing :: "launcher_flags \<Rightarrow> bool" where
  "config_missing f \<longleftrightarrow> \<not> lf_showVersion f \<and> lf_configPath f = []"

section \<open>Documents\<close>

text \<open>The values of the manifest and of the plan file; the YAML encoder is a parameter of the world.\<close>

datatype doc_value =
    DString string | DInt int | DBool bool | DVictim VictimConfig | DObserver ObserverConfig
  | DTrigger SyncTriggerConfig | DProcesses "FlatProcess list" | DPages "HugepagePage list"
  | DAssignments "(string \<times> out_value) list list"

definition launcher_version :: string where
  "launcher_version = ''1.1.0''"

definition manifest ::
  "string \<Rightarrow> Config \<Rightarrow> Topology \<Rightarrow> FlatProcess list \<Rightarrow> (string \<times> doc_value) list" where
  "manifest started_at rc topo flat =
     [(''run_id'', DString (rc_RunID rc)), (''duration'', DString (Duration_String (rc_Duration rc))),
      (''mode'', DString (rc_Mode rc)), (''topology_name'', DString (rc_Topology rc)),
      (''topology_host_type'', DString (HostType topo)),
      (''worker_gomaxprocs'', DInt (rc_WorkerGOMAXPROCS rc)), (''victim'', DVictim (rc_Victim rc)),
      (''observer'', DObserver (rc_Observer rc)), (''sync_trigger'', DTrigger (rc_SyncTrigger rc)),
      (''process_count'', DInt (int (length flat))), (''processes'', DProcesses flat),
      (''started_at'', DString started_at), (''launcher_version'', DString launcher_version)]"

definition assignmentsForOutput :: "Plan \<Rightarrow> (string \<times> out_value) list list" where
  "assignmentsForOutput p =
     map (\<lambda>a. [(''component'', OString (a_Component a)), (''replica_id'', OString (a_ReplicaID a)),
               (''class'', OString (a_Class a)), (''cpus'', OString (CPUList_String (a_CPUs a))),
               (''exclusive'', OBool (a_Exclusive a)), (''gomaxprocs'', OInt (a_GOMAXPROCS a)),
               (''memory_max'', OInt (a_MemoryMax a)), (''rt_priority'', OInt (a_RTPriority a)),
               (''source'', OString (a_Source a))]) (pl_Assignments p)"

definition plan_document :: "Plan \<Rightarrow> (string \<times> doc_value) list" where
  "plan_document plan =
     [(''reserved'', DString (CPUList_String (pl_Reserved plan))),
      (''isolated'', DString (CPUList_String (pl_Isolated plan))),
      (''workload'', DString (CPUList_String (pl_WorkloadCPUs plan))),
      (''victim_cpus'', DString (CPUList_String (pl_VictimCPUs plan))), (''realtime'', DBool (pl_RealTime plan)),
      (''numa_policy'', DString (pl_NUMATopologyPolicy plan)), (''hugepages'', DPages (pl_HugepagesPages plan)),
      (''assignments'', DAssignments (assignmentsForOutput plan))]"

text \<open>The two copies of the function, here and in \<open>chaos-tuned\<close>, agree.\<close>

lemma assignmentsForOutput_eq: "assignmentsForOutput p = planAssignmentsForOutput p"
  by (simp add: assignmentsForOutput_def planAssignmentsForOutput_def assignment_out_def fun_eq_iff)

section \<open>Triggers\<close>

text \<open>
  The goroutine of sync mode, as the number of \<open>Trigger\<close> calls it makes on what it meets. The ticker
  is created when the offset is over, so a tick cannot come before.
\<close>

datatype trigger_event = Offset_over | Period_over | Root_done

fun trigger_ticking :: "trigger_event list \<Rightarrow> nat" where
  "trigger_ticking [] = 0"
| "trigger_ticking (Root_done # es) = 0"
| "trigger_ticking (Period_over # es) = Suc (trigger_ticking es)"
| "trigger_ticking (Offset_over # es) = trigger_ticking es"

fun trigger_waiting :: "trigger_event list \<Rightarrow> nat" where
  "trigger_waiting [] = 0"
| "trigger_waiting (Root_done # es) = 0"
| "trigger_waiting (Offset_over # es) = trigger_ticking es"
| "trigger_waiting (Period_over # es) = trigger_waiting es"

definition run_triggers :: "Config \<Rightarrow> trigger_event list \<Rightarrow> nat" where
  "run_triggers rc es = (if rc_Mode rc = ''sync'' then trigger_waiting es else 0)"

section \<open>The aggregator\<close>

definition default_script :: string where
  "default_script = ''scripts/aggregate-results.py''"

definition aggregator_script :: "(string \<Rightarrow> bool) \<Rightarrow> string \<Rightarrow> string option" where
  "aggregator_script stat bindir =
     (if stat default_script then Some default_script
      else let alt = below_parent bindir default_script in if stat alt then Some alt else None)"

text \<open>The arguments of python3, or nothing when the script is missing or not wanted.\<close>

definition aggregator_args ::
  "(string \<Rightarrow> bool) \<Rightarrow> string \<Rightarrow> launcher_flags \<Rightarrow> string \<Rightarrow> string list option" where
  "aggregator_args stat bindir f runDir =
     (if lf_skipAggregate f then None
      else map_option (\<lambda>script. [script, ''--run-dir'', runDir, ''--config'', lf_configPath f])
        (aggregator_script stat bindir))"

end
