(* ===== verification/LauncherMain.thy ===== *)
theory LauncherMain
  imports LaunchGuarantees LaunchRun
begin

text \<open>
  \<open>main\<close> of \<open>cmd/chaos-launcher/main.go\<close> from its arguments to its exit: the documents it loads, the
  directory, plan and manifest it leaves, the launch (\<open>Launcher\<close>), the end of the children and the
  aggregator. What it does is a list of actions in their order; the triggers of sync mode run beside
  them (\<open>LaunchRun\<close>), and printing is left out.
\<close>

section \<open>The host\<close>

text \<open>
  Reading and decoding files, making directories, writing documents, the directory of the
  executable, the time stamp of the manifest, and whether the wait for the children after \<open>terminate\<close>
  returns (\<open>Terminate\<close> says when it can).
\<close>

record 'e launcher_host =
  lh_world :: world
  lh_read :: "string \<Rightarrow> 'e + string"
  lh_config :: "string \<Rightarrow> 'e + Config"
  lh_topology :: "string \<Rightarrow> 'e + Topology"
  lh_profile :: "string \<Rightarrow> 'e + PerformanceProfile"
  lh_mkdir_all :: "string \<Rightarrow> bool"
  lh_write :: "string \<Rightarrow> bool"
  lh_bindir :: string
  lh_started_at :: string
  lh_waits :: "int \<Rightarrow> managedProc list \<Rightarrow> bool"

datatype launcher_op =
    Makes_dir string | Writes_doc string "(string \<times> doc_value) list" | Serves string
  | Spawns "managedProc list" | Cancels_root | Terminates int "managedProc list"
  | Aggregates "string list" | Closes_server string

datatype 'e main_error =
    Config_error "'e config_load_error" | Topology_error "'e find_error" | Unregistered "string \<times> string"
  | Mkdir_failed string | Binary_missing string | Profile_error "'e load_error" | Tuning_failed launch_error
  | Write_failed string | Launch_failed launch_error

section \<open>Stages\<close>

text \<open>A stage has an outcome and what it did; the next one runs on its value.\<close>

type_synonym ('e, 'a) stage = "('e main_error, 'a) outcome \<times> launcher_op list"

definition and_do :: "('e, 'a) stage \<Rightarrow> ('a \<Rightarrow> ('e, 'b) stage) \<Rightarrow> ('e, 'b) stage" where
  "and_do m f =
     (case fst m of
        Returns x \<Rightarrow> (fst (f x), snd m @ snd (f x))
      | Fails e \<Rightarrow> (Fails e, snd m)
      | Hangs \<Rightarrow> (Hangs, snd m))"

definition pure_stage :: "('e main_error, 'a) outcome \<Rightarrow> ('e, 'a) stage" where
  "pure_stage r = (r, [])"

definition op_stage :: "bool \<Rightarrow> 'e main_error \<Rightarrow> launcher_op \<Rightarrow> ('e, unit) stage" where
  "op_stage ok e op = (if ok then (Returns (), [op]) else (Fails e, []))"

text \<open>
  \<open>filepath.Join\<close> on the output directory, a clean path up to one trailing slash, as the default has
  it, and a run id that is a name.
\<close>

definition run_dir :: "string \<Rightarrow> string \<Rightarrow> string" where
  "run_dir outputDir runID =
     path_join (if outputDir \<noteq> [] \<and> last outputDir = CHR ''/'' then butlast outputDir else outputDir) runID"

definition bin_dir :: "'e launcher_host \<Rightarrow> launcher_flags \<Rightarrow> string" where
  "bin_dir lh f = (if lf_binDir f = [] then lh_bindir lh else lf_binDir f)"

definition load_documents :: "'e launcher_host \<Rightarrow> launcher_flags \<Rightarrow> ('e main_error, Config \<times> Topology) outcome" where
  "load_documents lh f =
     and_then (wrap_err Config_error (Config_LoadFile (lh_read lh) (lh_config lh) (lf_configPath f))) (\<lambda>rc.
     and_then (wrap_err Topology_error (loadTopology (w_stat (lh_world lh))
       (Topology_LoadFile (lh_read lh) (lh_topology lh)) (lh_bindir lh) (rc_Topology rc))) (\<lambda>topo.
     and_then (wrap_err Unregistered (validateProfiles profile_Names topo)) (\<lambda>_. Returns (rc, topo))))"

text \<open>The performance profile is loaded and set up if the config names one; its plan is written.\<close>

definition tuning_stage ::
  "'e launcher_host \<Rightarrow> Config \<Rightarrow> Topology \<Rightarrow> string \<Rightarrow> ('e, tuning \<times> os_op list) stage" where
  "tuning_stage lh rc topo runDir =
     (if rc_PerformanceProfile rc = [] then pure_stage (Returns (None, []))
      else
        and_do (pure_stage (wrap_err Profile_error
          (Profile_LoadFile (lh_read lh) (lh_profile lh) (w_iter (lh_world lh)) (rc_PerformanceProfile rc)))) (\<lambda>prof.
        and_do (pure_stage (wrap_err Tuning_failed
          (setup_tuning (lh_world lh) rc prof topo (Topology_Flatten topo (rc_WorkerGOMAXPROCS rc))))) (\<lambda>(tn, ops).
        and_do (op_stage (lh_write lh (path_join runDir ''tuning-plan.yaml''))
          (Write_failed (path_join runDir ''tuning-plan.yaml''))
          (Writes_doc (path_join runDir ''tuning-plan.yaml'') (plan_document (fst tn)))) (\<lambda>_.
        pure_stage (Returns (Some tn, ops))))))"

text \<open>
  From the launch to the exit. A failed verification cancels the root context, which kills the
  children, and waits 5 s for them; \<open>fatal\<close> skips the deferred calls. A run that began ends with the
  duration or a signal, then all children get 10 s, then comes the aggregator.
\<close>

definition served_ops :: "'e launcher_host \<Rightarrow> Config \<Rightarrow> launcher_op list" where
  "served_ops lh rc =
     (if sync_socket (lh_world lh) rc \<noteq> [] then [Serves (sync_socket (lh_world lh) rc)] else [])"

definition closing_ops :: "'e launcher_host \<Rightarrow> launcher_flags \<Rightarrow> Config \<Rightarrow> string \<Rightarrow> launcher_op list" where
  "closing_ops lh f rc runDir =
     (case aggregator_args (w_stat (lh_world lh)) (lh_bindir lh) f runDir of None \<Rightarrow> [] | Some args \<Rightarrow> [Aggregates args]) @
     (if sync_socket (lh_world lh) rc \<noteq> [] then [Closes_server (sync_socket (lh_world lh) rc)] else [])"

definition finish_launch ::
  "'e launcher_host \<Rightarrow> launcher_flags \<Rightarrow> Config \<Rightarrow> string \<Rightarrow> launch_result \<Rightarrow> ('e, unit) stage" where
  "finish_launch lh f rc runDir result =
     (case result of
        Stuck \<Rightarrow> (Hangs, served_ops lh rc)
      | Fatal e procs \<Rightarrow>
          if e = SyncFailed then (Fails (Launch_failed e), [])
          else if e = VerifyFailed then
            (if lh_waits lh (5 * second) procs then Fails (Launch_failed e) else Hangs,
             served_ops lh rc @ [Spawns procs, Cancels_root, Terminates (5 * second) procs])
          else (Fails (Launch_failed e), served_ops lh rc @ [Spawns procs])
      | Running tn procs \<Rightarrow>
          if lh_waits lh (10 * second) procs
          then (Returns (), served_ops lh rc @ [Spawns procs, Terminates (10 * second) procs] @ closing_ops lh f rc runDir)
          else (Hangs, served_ops lh rc @ [Spawns procs, Terminates (10 * second) procs]))"

definition launcher_run :: "'e launcher_host \<Rightarrow> launcher_flags \<Rightarrow> ('e, unit) stage" where
  "launcher_run lh f =
     and_do (pure_stage (load_documents lh f)) (\<lambda>(rc, topo).
       let flat = Topology_Flatten topo (rc_WorkerGOMAXPROCS rc);
           runDir = run_dir (lf_outputDir f) (rc_RunID rc);
           rawDir = path_join runDir ''raw'';
           manifestPath = path_join runDir ''manifest.yaml''
       in
       and_do (op_stage (lh_mkdir_all lh rawDir) (Mkdir_failed rawDir) (Makes_dir rawDir)) (\<lambda>_.
       and_do (pure_stage (case missing_binary (lh_world lh) (bin_dir lh f) of
         None \<Rightarrow> Returns () | Some name \<Rightarrow> Fails (Binary_missing name))) (\<lambda>_.
       and_do (tuning_stage lh rc topo runDir) (\<lambda>(tn, ops).
       and_do (op_stage (lh_write lh manifestPath) (Write_failed manifestPath)
         (Writes_doc manifestPath (manifest (lh_started_at lh) rc topo flat))) (\<lambda>_.
       finish_launch lh f rc runDir (launch_with (lh_world lh) rc (bin_dir lh f) rawDir tn ops flat))))))"

text \<open>
  \<open>flag.Parse\<close> ends the program itself: with 0 when help is asked for, with 2 on a bad flag.
\<close>

datatype 'e launcher_end = Helped | Misused | Version_printed | Ran "('e main_error, unit) outcome"

definition launcher_main :: "'e launcher_host \<Rightarrow> string list \<Rightarrow> 'e launcher_end \<times> launcher_op list" where
  "launcher_main lh args =
     (case parse_flags launcher_table args launcher_defaults of
        Wants_help \<Rightarrow> (Helped, [])
      | Bad_flag name \<Rightarrow> (Misused, [])
      | Parsed f \<Rightarrow>
          if config_missing f then (Misused, [])
          else if lf_showVersion f then (Version_printed, [])
          else (case launcher_run lh f of (r, ops) \<Rightarrow> (Ran r, ops)))"

definition exit_code :: "'e launcher_end \<Rightarrow> int option" where
  "exit_code e =
     (case e of Helped \<Rightarrow> Some 0 | Misused \<Rightarrow> Some 2 | Version_printed \<Rightarrow> Some 0
      | Ran r \<Rightarrow> (case r of Returns u \<Rightarrow> Some 0 | Fails e \<Rightarrow> Some 1 | Hangs \<Rightarrow> None))"

section \<open>Lemmas\<close>

lemma and_do_Returns:
  "and_do m f = (Returns y, ops) \<longleftrightarrow>
   (\<exists>x ops1 ops2. m = (Returns x, ops1) \<and> f x = (Returns y, ops2) \<and> ops = ops1 @ ops2)"
  by (cases m) (auto simp: and_do_def prod_eq_iff split: outcome.splits)

lemma and_do_cases:
  assumes "and_do m f = (r, ops)"
  obtains (stopped) "ops = snd m" "\<forall>x. fst m \<noteq> Returns x"
  | (continued) x ops1 ops2 where "m = (Returns x, ops1)" "f x = (r, ops2)" "ops = ops1 @ ops2"
  using assms by (cases m; cases "fst m") (auto simp: and_do_def prod_eq_iff)

lemma op_stage_Returns: "op_stage ok e op = (Returns u, ops) \<longleftrightarrow> ok \<and> ops = [op]"
  by (auto simp: op_stage_def)

lemma pure_stage_Returns: "pure_stage r = (Returns x, ops) \<longleftrightarrow> r = Returns x \<and> ops = []"
  by (auto simp: pure_stage_def)

lemmas stage_simps = and_do_Returns op_stage_Returns pure_stage_Returns

text \<open>The stages before the launch start nothing.\<close>

definition is_document :: "launcher_op \<Rightarrow> bool" where
  "is_document op = (case op of Writes_doc p d \<Rightarrow> True | _ \<Rightarrow> False)"

lemma tuning_stage_ops: "tuning_stage lh rc topo runDir = (r, ops) \<Longrightarrow> \<forall>op \<in> set ops. is_document op"
  by (auto simp: tuning_stage_def and_do_def pure_stage_def op_stage_def is_document_def
      split: if_splits outcome.splits prod.splits)

text \<open>The launch that \<open>launcher_run\<close> makes is \<open>launch\<close> on the loaded documents.\<close>

definition loaded_profile :: "'e launcher_host \<Rightarrow> Config \<Rightarrow> PerformanceProfile option \<Rightarrow> bool" where
  "loaded_profile lh rc prof \<longleftrightarrow>
     (if rc_PerformanceProfile rc = [] then prof = None
      else \<exists>p. prof = Some p \<and>
        Profile_LoadFile (lh_read lh) (lh_profile lh) (w_iter (lh_world lh)) (rc_PerformanceProfile rc) = Returns p)"

lemma launch_of_stages:
  assumes "validateProfiles profile_Names topo = Returns u" "missing_binary (lh_world lh) binDir = None"
    and "tuning_stage lh rc topo runDir = (Returns (tn, ops), did)"
  shows "\<exists>prof. loaded_profile lh rc prof \<and>
    launch (lh_world lh) rc prof topo binDir rawDir =
      launch_with (lh_world lh) rc binDir rawDir tn ops (Topology_Flatten topo (rc_WorkerGOMAXPROCS rc)) \<and>
    did = (case tn of None \<Rightarrow> [] | Some t \<Rightarrow> [Writes_doc (path_join runDir ''tuning-plan.yaml'') (plan_document (fst t))]) \<and>
    (tn = None \<longleftrightarrow> rc_PerformanceProfile rc = [])"
proof (cases "rc_PerformanceProfile rc = []")
  case True
  then have "tn = None" "ops = []" "did = []" using assms(3) by (simp_all add: tuning_stage_def pure_stage_Returns)
  with True assms(1,2) show ?thesis
    by (intro exI [of _ None]) (simp add: loaded_profile_def launch_def Let_def)
next
  case False
  then obtain prof t where
    "Profile_LoadFile (lh_read lh) (lh_profile lh) (w_iter (lh_world lh)) (rc_PerformanceProfile rc) = Returns prof"
    "setup_tuning (lh_world lh) rc prof topo (Topology_Flatten topo (rc_WorkerGOMAXPROCS rc)) = Returns (t, ops)"
    "tn = Some t" "did = [Writes_doc (path_join runDir ''tuning-plan.yaml'') (plan_document (fst t))]"
    using assms(3) by (auto simp: tuning_stage_def stage_simps outcome_simps)
  with False assms(1,2) show ?thesis
    by (intro exI [of _ "Some prof"]) (simp add: loaded_profile_def launch_def Let_def)
qed

definition plan_ops :: "tuning \<Rightarrow> string \<Rightarrow> launcher_op list" where
  "plan_ops tn runDir =
     (case tn of None \<Rightarrow> [] | Some t \<Rightarrow> [Writes_doc (path_join runDir ''tuning-plan.yaml'') (plan_document (fst t))])"

definition manifest_op :: "'e launcher_host \<Rightarrow> Config \<Rightarrow> Topology \<Rightarrow> string \<Rightarrow> launcher_op" where
  "manifest_op lh rc topo runDir =
     Writes_doc (path_join runDir ''manifest.yaml'')
       (manifest (lh_started_at lh) rc topo (Topology_Flatten topo (rc_WorkerGOMAXPROCS rc)))"

lemma launch_with_tuning: "launch_with w rc binDir rawDir tn ops flat = Running tn' procs \<Longrightarrow> tn' = tn"
  by (auto simp: launch_with_def spawn_and_verify_def split: if_splits prod.splits option.splits)

lemma finish_Returns:
  "finish_launch lh f rc runDir result = (Returns u, ops) \<longleftrightarrow>
   (\<exists>tn procs. result = Running tn procs \<and> lh_waits lh (10 * second) procs \<and>
     ops = served_ops lh rc @ [Spawns procs, Terminates (10 * second) procs] @ closing_ops lh f rc runDir)"
  by (cases result) (auto simp: finish_launch_def)

lemma finish_ops:
  assumes "finish_launch lh f rc runDir result = (r, ops)" "r \<noteq> Hangs" "Spawns procs \<in> set ops"
  shows "(\<exists>g. Terminates g procs \<in> set ops) \<or> (\<exists>e. r = Fails (Launch_failed e) \<and> result = Fatal e procs \<and> e \<noteq> VerifyFailed)"
  using assms
  by (cases result)
    (auto simp: finish_launch_def served_ops_def closing_ops_def Let_def split: if_splits option.splits)

text \<open>Conversely, a launch that begins is carried to its end when the files can be written.\<close>

lemma launch_Running_stages:
  assumes "launch (lh_world lh) rc prof topo binDir rawDir = Running tn procs" "loaded_profile lh rc prof"
    and "\<forall>path. lh_write lh path"
  shows "missing_binary (lh_world lh) binDir = None \<and>
    (\<exists>tn' ops did. tuning_stage lh rc topo runDir = (Returns (tn', ops), did) \<and>
      launch_with (lh_world lh) rc binDir rawDir tn' ops (Topology_Flatten topo (rc_WorkerGOMAXPROCS rc)) = Running tn procs)"
proof (cases "rc_PerformanceProfile rc = []")
  case True
  with assms(1,2) show ?thesis
    by (auto simp: loaded_profile_def launch_def Let_def tuning_stage_def pure_stage_def split: outcome.splits option.splits)
next
  case False
  then obtain p where p: "prof = Some p"
    "Profile_LoadFile (lh_read lh) (lh_profile lh) (w_iter (lh_world lh)) (rc_PerformanceProfile rc) = Returns p"
    using assms(2) by (auto simp: loaded_profile_def)
  obtain t ops where t: "setup_tuning (lh_world lh) rc p topo (Topology_Flatten topo (rc_WorkerGOMAXPROCS rc)) = Returns (t, ops)"
    and run: "launch_with (lh_world lh) rc binDir rawDir (Some t) ops (Topology_Flatten topo (rc_WorkerGOMAXPROCS rc)) =
      Running tn procs" "missing_binary (lh_world lh) binDir = None"
    using assms(1) p(1) by (auto simp: launch_def Let_def split: outcome.splits option.splits prod.splits)
  have "\<exists>did. tuning_stage lh rc topo runDir = (Returns (Some t, ops), did)"
    using False p(2) t assms(3) by (cases t) (simp add: tuning_stage_def stage_simps wrap_err_def)
  with run show ?thesis by blast
qed

lemma launcher_run_completes:
  assumes "load_documents lh f = Returns (rc, topo)" "loaded_profile lh rc prof"
    and "launch (lh_world lh) rc prof topo (bin_dir lh f) (path_join (run_dir (lf_outputDir f) (rc_RunID rc)) ''raw'') =
      Running tn procs"
    and "\<forall>path. lh_write lh path" "\<forall>path. lh_mkdir_all lh path" "lh_waits lh (10 * second) procs"
  shows "\<exists>ops. launcher_run lh f = (Returns (), ops)"
  using launch_Running_stages [OF assms(3,2,4)] assms(1,4,5,6)
  by (fastforce simp: launcher_run_def stage_simps Let_def finish_Returns)

lemma launch_with_Fatal:
  "launch_with w rc binDir rawDir tn ops flat = Fatal e procs \<Longrightarrow>
   e = SyncFailed \<or> e = VerifyFailed \<or> (\<exists>name e'. e = WrapFailed name e')"
  by (auto simp: launch_with_def spawn_and_verify_def split: if_splits prod.splits option.splits)

text \<open>Two predicates on a stage that pass through \<open>and_do\<close>: nobody is left behind, and the manifest comes first.\<close>

definition spawn_free :: "('e, 'a) stage \<Rightarrow> bool" where
  "spawn_free m \<longleftrightarrow> (\<forall>procs. Spawns procs \<notin> set (snd m))"

definition tidy :: "('e, 'a) stage \<Rightarrow> bool" where
  "tidy m \<longleftrightarrow> (\<forall>procs. Spawns procs \<in> set (snd m) \<longrightarrow> fst m \<noteq> Hangs \<longrightarrow>
     (\<exists>g. Terminates g procs \<in> set (snd m)) \<or> (\<exists>name e. fst m = Fails (Launch_failed (WrapFailed name e))))"

definition documented :: "('e, 'a) stage \<Rightarrow> bool" where
  "documented m \<longleftrightarrow> (\<forall>pre procs post. snd m = pre @ Spawns procs # post \<longrightarrow> (\<exists>path doc. Writes_doc path doc \<in> set pre))"

lemma and_do_tidy: "spawn_free m \<Longrightarrow> (\<And>x. tidy (f x)) \<Longrightarrow> tidy (and_do m f)"
  unfolding tidy_def spawn_free_def and_do_def by (auto split: outcome.splits) blast

lemma and_do_documented:
  assumes "spawn_free m" "\<And>x. documented (f x) \<or> (fst m = Returns x \<longrightarrow> (\<exists>path doc. Writes_doc path doc \<in> set (snd m)))"
  shows "documented (and_do m f)"
  unfolding documented_def
proof (intro allI impI)
  fix pre procs post
  assume split: "snd (and_do m f) = pre @ Spawns procs # post"
  have free: "Spawns procs \<notin> set (snd m)" using assms(1) by (simp add: spawn_free_def)
  obtain x where x: "fst m = Returns x" "snd m @ snd (f x) = pre @ Spawns procs # post"
    using split free by (auto simp: and_do_def split: outcome.splits)
  then obtain pre' where pre: "pre = snd m @ pre'" and rest: "snd (f x) = pre' @ Spawns procs # post"
    using free by (auto simp: append_eq_append_conv2 append_eq_Cons_conv)
  have "\<exists>path doc. Writes_doc path doc \<in> set pre'" if "documented (f x)"
    using that rest unfolding documented_def by blast
  with assms(2) [of x] x(1) pre show "\<exists>path doc. Writes_doc path doc \<in> set pre" by auto
qed

lemma pure_stage_free: "spawn_free (pure_stage r)"
  by (simp add: spawn_free_def pure_stage_def)

lemma op_stage_free: "\<forall>procs. op \<noteq> Spawns procs \<Longrightarrow> spawn_free (op_stage ok e op)"
  by (auto simp: spawn_free_def op_stage_def)

lemma tuning_stage_free: "spawn_free (tuning_stage lh rc topo runDir)"
  using tuning_stage_ops [of lh rc topo runDir "fst (tuning_stage lh rc topo runDir)" "snd (tuning_stage lh rc topo runDir)"]
  by (auto simp: spawn_free_def is_document_def)

lemma finish_tidy: "tidy (finish_launch lh f rc runDir (launch_with w rc' binDir rawDir tn ops flat))"
proof (cases "launch_with w rc' binDir rawDir tn ops flat")
  case (Fatal e procs)
  with launch_with_Fatal [OF Fatal] show ?thesis by (auto simp: tidy_def finish_launch_def served_ops_def)
qed (auto simp: tidy_def finish_launch_def served_ops_def closing_ops_def split: option.splits)

lemmas stage_free = pure_stage_free op_stage_free tuning_stage_free

lemma launcher_run_tidy: "tidy (launcher_run lh f)"
  unfolding launcher_run_def
  by (auto intro!: and_do_tidy stage_free finish_tidy simp: Let_def split: prod.splits)

lemma launcher_run_documented: "documented (launcher_run lh f)"
proof -
  have manifest: "documented (and_do (op_stage ok e (Writes_doc path doc)) g)" for ok e path doc and g :: "unit \<Rightarrow> ('x, 'b) stage"
    by (rule and_do_documented) (auto simp: op_stage_def spawn_free_def)
  show ?thesis
    unfolding launcher_run_def
    by (auto intro!: and_do_documented disjI1 manifest stage_free simp: Let_def split: prod.splits)
qed

section \<open>Properties\<close>


text \<open>A tuned run of the sample documents.\<close>

definition sample_launcher :: "string launcher_host" where
  "sample_launcher =
     \<lparr>lh_world = sample_world, lh_read = (\<lambda>path. Inr path),
      lh_config = (\<lambda>text. Inr (sample_run\<lparr>rc_PerformanceProfile := ''pp.yaml''\<rparr>)),
      lh_topology = (\<lambda>text. Inr sample_topology), lh_profile = (\<lambda>text. Inr sample_profile),
      lh_mkdir_all = (\<lambda>path. True), lh_write = (\<lambda>path. True), lh_bindir = ''/opt/bin'',
      lh_started_at = ''2026-01-01T00:00:00Z'', lh_waits = (\<lambda>grace procs. True)\<rparr>"

definition sample_flags :: launcher_flags where
  "sample_flags = launcher_defaults\<lparr>lf_configPath := ''run.yaml''\<rparr>"

lemma sample_launcher_launch:
  "is_running (launch sample_world (sample_run\<lparr>rc_PerformanceProfile := ''pp.yaml''\<rparr>) (Some sample_profile) sample_topology
     ''/opt/bin'' ''results/r1/raw'')"
  by code_simp

lemma sample_launcher_facts:
  "load_documents sample_launcher sample_flags =
     Returns (sample_run\<lparr>rc_PerformanceProfile := ''pp.yaml''\<rparr>, sample_topology)"
  "path_join (run_dir (lf_outputDir sample_flags) (rc_RunID (sample_run\<lparr>rc_PerformanceProfile := ''pp.yaml''\<rparr>))) ''raw'' =
     ''results/r1/raw''"
  "Profile_LoadFile (lh_read sample_launcher) (lh_profile sample_launcher) (w_iter (lh_world sample_launcher)) ''pp.yaml'' =
     Returns sample_profile"
  by code_simp+

lemma sample_launcher_run: "\<exists>ops. launcher_run sample_launcher sample_flags = (Returns (), ops)"
proof -
  have "loaded_profile sample_launcher (sample_run\<lparr>rc_PerformanceProfile := ''pp.yaml''\<rparr>) (Some sample_profile)"
    using sample_launcher_facts(3) by (simp add: loaded_profile_def)
  moreover obtain tn procs where "launch (lh_world sample_launcher) (sample_run\<lparr>rc_PerformanceProfile := ''pp.yaml''\<rparr>)
      (Some sample_profile) sample_topology (bin_dir sample_launcher sample_flags) ''results/r1/raw'' = Running tn procs"
    using sample_launcher_launch
    by (auto simp: is_running_iff bin_dir_def sample_launcher_def sample_flags_def launcher_defaults_def)
  ultimately show ?thesis
    using sample_launcher_facts(2)
    by (intro launcher_run_completes [OF sample_launcher_facts(1)]) (simp_all add: sample_launcher_def)
qed


text \<open>
  C7. The launcher leaves no process behind except after a failing Wrap: when it exits by itself,
  with whatever code, the processes it started have been sent SIGTERM and waited for, unless the
  wrapping of one of them failed, when those started before it stay behind; and no process is
  started before a document of the run is on disk.
\<close>

theorem launcher_orphans:
  assumes "launcher_run lh f = (r, ops)" "Spawns procs \<in> set ops" "r \<noteq> Hangs"
  shows "((\<exists>g. Terminates g procs \<in> set ops) \<or> (\<exists>name e. r = Fails (Launch_failed (WrapFailed name e)))) \<and>
    (\<exists>pre post path doc. ops = pre @ Spawns procs # post \<and> Writes_doc path doc \<in> set pre)"
proof -
  obtain pre post where split: "ops = pre @ Spawns procs # post" using assms(2) by (auto simp: in_set_conv_decomp)
  then show ?thesis
    using launcher_run_tidy [of lh f] launcher_run_documented [of lh f] assms
    unfolding tidy_def documented_def by fastforce
qed

theorem launcher_orphans_witness:
  "\<exists>ops procs. launcher_run sample_launcher sample_flags = (Returns (), ops) \<and> Spawns procs \<in> set ops \<and>
     (\<exists>g. Terminates g procs \<in> set ops)"
proof -
  obtain ops where run: "launcher_run sample_launcher sample_flags = (Returns (), ops)"
    using sample_launcher_run by blast
  moreover have "\<exists>procs. Spawns procs \<in> set ops"
    using run by (fastforce simp: launcher_run_def stage_simps Let_def finish_Returns)
  moreover have "Returns () \<noteq> Hangs" by simp
  ultimately show ?thesis using launcher_orphans [OF run] by blast
qed

end
