(* ===== verification/TunedGuarantees.thy ===== *)
theory TunedGuarantees
  imports Tuned LaunchGuarantees
begin

text \<open>
  The properties of \<open>chaos-tuned\<close>: what exit code 0 of \<open>verify\<close> says and what it does not, what
  \<open>apply\<close> needs before it touches the host, and that it does what the launcher does.
\<close>

section \<open>A sample host\<close>

definition sample_tuned :: "unit tuned_host" where
  "sample_tuned = \<lparr>th_read = (\<lambda>path. if path = ''pp.yaml'' \<or> path = ''topologies/sno.yaml'' then Inr path else Inl ()),
     th_profile = (\<lambda>b. Inr sample_profile), th_topology = (\<lambda>b. Inr sample_topology),
     th_iter = (\<lambda>k ks. rev ks), th_sysfs = strict_host, th_host = sample_host,
     th_status = (\<lambda>pid. Some (allowed_prefix @ (if pid = 21 then '' 6-7'' else if pid = 22 then '' 0-1'' else '' 5'')))\<rparr>"

definition sample_args :: "string list" where
  "sample_args = [''--profile'', ''pp.yaml'', ''-topology=sno'']"

lemma exit_0_iff: "ends m = Exit 0 \<longleftrightarrow> (\<exists>r. m = Returns r)"
  by (cases m) (simp_all add: ends_def)

lemma sample_loads:
  assumes "mustLoad sample_tuned profPath topoPath = Returns (prof, topo)"
  shows "prof = sample_profile" "topo = sample_topology"
  using assms
  by (auto simp: mustLoad_def load_profile_def load_either_def Profile_LoadFile_def Profile_Parse_def
      Topology_LoadFile_def Topology_Parse_def outcome_simps sample_tuned_def split: sum.splits if_splits outcome.splits)

section \<open>Properties\<close>

text \<open>
  Exit code 0 of chaos-tuned verify is evidence: it is given only if the files loaded, the plan
  was built and the process ids parsed, and then of the listed processes that the plan knows and
  whose status is readable, an exclusive one shares no allowed CPU with another.
\<close>

theorem tuned_verify_sound:
  fixes th :: "'e tuned_host"
  assumes "fair_order (th_iter th)" "tuned_main parse_int th (''verify'' # args) = Exit 0"
    and "parse_flags verify_table args tuned_defaults = Parsed f"
  shows "\<exists>prof topo pl pids. load_plan th f 0 = Returns (prof, topo, pl) \<and>
    parse_pids (Split CHR '','' (tf_pids f)) [] = (Returns pids :: ('e tuned_error, (string \<times> int) list) outcome) \<and>
    (\<forall>i j pi si pj sj. i < length (pl_Assignments pl) \<longrightarrow> j < length (pl_Assignments pl) \<longrightarrow> i \<noteq> j \<longrightarrow>
       a_Exclusive (pl_Assignments pl ! i) \<longrightarrow>
       map_of pids (verify_key (pl_Assignments pl ! i)) = Some pi \<longrightarrow> th_status th pi = Some si \<longrightarrow>
       map_of pids (verify_key (pl_Assignments pl ! j)) = Some pj \<longrightarrow> th_status th pj = Some sj \<longrightarrow>
       (\<exists>li lj. ParsePIDStatusForCPUs si = Returns li \<and> ParsePIDStatusForCPUs sj = Returns lj \<and>
          set li \<inter> set lj = {}))"
proof -
  obtain rs where "cmdVerify th f = Returns rs"
    using assms(2,3) by (auto simp: tuned_main_def with_flags_def exit_0_iff)
  then obtain prof topo pl pids where load: "load_plan th f 0 = Returns (prof, topo, pl)"
    and pids: "parse_pids (Split CHR '','' (tf_pids f)) [] = (Returns pids :: ('e tuned_error, (string \<times> int) list) outcome)"
    and ok: "VerifyAll (th_status th) pl (map_of pids) = Returns rs" "\<not> AnyFailed rs"
    by (rule cmdVerify_Returns)
  show ?thesis
    using verified_disjoint [OF assms(1) load_plan_Returns(2) [OF load] ok]
    by (intro exI [of _ prof] exI [of _ topo] exI [of _ pl] exI [of _ pids] conjI allI impI load pids) blast
qed

theorem tuned_verify_sound_witness:
  "\<exists>f. parse_flags verify_table (sample_args @ [''--pids=chaos-victim=21, etcd-0=22'']) tuned_defaults = Parsed f \<and>
    (\<exists>prof topo pl. load_plan sample_tuned f 0 = Returns (prof, topo, pl))"
proof -
  let ?args = "sample_args @ [''--pids=chaos-victim=21, etcd-0=22'']"
  have "tuned_main (\<lambda>s. None) sample_tuned (''verify'' # ?args) = Exit 0" by code_simp
  moreover have "fair_order (th_iter sample_tuned)" by (simp add: sample_tuned_def fair_order_rev)
  moreover obtain f where "parse_flags verify_table ?args tuned_defaults = Parsed f"
  proof -
    have "(case parse_flags verify_table ?args tuned_defaults of Parsed f \<Rightarrow> True | _ \<Rightarrow> False)" by code_simp
    then show thesis using that by (auto split: parsed.splits)
  qed
  ultimately show ?thesis using tuned_verify_sound by blast
qed

text \<open>
  Exit code 0 of chaos-tuned verify can be empty: when none of the listed names is the key of a
  planned process, whether mistyped or of another topology, nothing is compared and nothing fails.
\<close>

theorem tuned_verify_vacuous:
  assumes "tf_profile f \<noteq> []" "tf_topology f \<noteq> []" "tf_pids f \<noteq> []"
    and "load_plan th f 0 = Returns (prof, topo, pl)"
    and "parse_pids (Split CHR '','' (tf_pids f)) [] = (Returns pids :: ('e tuned_error, (string \<times> int) list) outcome)"
    and "fst ` set pids \<inter> verify_key ` set (pl_Assignments pl) = {}"
  shows "cmdVerify (th :: 'e tuned_host) f = Returns []"
proof -
  have "verify_each (th_status th) (map_of pids) as = Returns []"
    if "fst ` set pids \<inter> verify_key ` set as = {}" for as
    using that
  proof (induction as)
    case (Cons a as)
    then have "map_of pids (verify_key a) = None" by (auto simp: map_of_eq_None_iff)
    with Cons show ?case by simp
  qed simp
  then show ?thesis using assms by (simp add: cmdVerify_def outcome_simps guard_err_def verify_pids_def VerifyAll_def)
qed

theorem tuned_verify_vacuous_witness:
  "cmdVerify sample_tuned (tuned_defaults\<lparr>tf_profile := ''pp.yaml'', tf_topology := ''sno'', tf_pids := ''chaos-victm=21''\<rparr>) =
    Returns []"
proof -
  let ?f = "tuned_defaults\<lparr>tf_profile := ''pp.yaml'', tf_topology := ''sno'', tf_pids := ''chaos-victm=21''\<rparr>"
  have "returns_with (\<lambda>(prof, topo, pl). fst ` set [(''chaos-victm'', 21 :: int)] \<inter> verify_key ` set (pl_Assignments pl) = {})
      (load_plan sample_tuned ?f 0)" by code_simp
  then obtain prof topo pl where load: "load_plan sample_tuned ?f 0 = Returns (prof, topo, pl)"
    "fst ` set [(''chaos-victm'', 21 :: int)] \<inter> verify_key ` set (pl_Assignments pl) = {}"
    by (auto simp: returns_with_iff)
  have pids: "parse_pids (Split CHR '','' (tf_pids ?f)) [] = (Returns [(''chaos-victm'', 21)] :: (unit tuned_error, _) outcome)"
    by code_simp
  show ?thesis by (rule tuned_verify_vacuous [OF _ _ _ load(1) pids load(2)]) simp_all
qed

text \<open>
  chaos-tuned apply changes nothing on a host that is not ready: whatever it did, and all the
  more when it reports success, the plan had been built and no required preflight check had failed.
\<close>

theorem tuned_apply_gated:
  assumes "cmdApply th f = (result, ops)" "ops \<noteq> [] \<or> result = Returns b"
  shows "\<exists>prof topo pl report. load_plan th f 0 = Returns (prof, topo, pl) \<and>
    Preflight (th_sysfs th) prof = Returns report \<and> RequiredFailures report = [] \<and>
    prepare th (tf_backend f) = (result, ops)"
proof (cases "check_apply th f")
  case (Returns checked)
  obtain pl report where "checked = (pl, report)" by (cases checked)
  with Returns obtain prof topo where "load_plan th f 0 = Returns (prof, topo, pl)"
    "Preflight (th_sysfs th) prof = Returns report" "RequiredFailures report = []"
    using check_apply_Returns by metis
  moreover have "prepare th (tf_backend f) = (result, ops)"
    using assms(1) Returns by (simp add: cmdApply_def)
  ultimately show ?thesis by blast
qed (use assms in \<open>auto simp: cmdApply_def\<close>)

theorem tuned_apply_gated_witness:
  "\<exists>result ops. cmdApply sample_tuned (tuned_defaults\<lparr>tf_profile := ''pp.yaml'', tf_topology := ''sno'', tf_backend := ''cgroup-v2''\<rparr>) =
      (result, ops) \<and> ops \<noteq> [] \<and> (\<exists>report. Preflight strict_host sample_profile = Returns report \<and> RequiredFailures report = [])"
proof -
  let ?f = "tuned_defaults\<lparr>tf_profile := ''pp.yaml'', tf_topology := ''sno'', tf_backend := ''cgroup-v2''\<rparr>"
  obtain result ops where run: "cmdApply sample_tuned ?f = (result, ops)" by fastforce
  have "snd (cmdApply sample_tuned ?f) \<noteq> []" by code_simp
  then have ops: "ops \<noteq> []" using run by simp
  obtain prof topo pl report where load: "load_plan sample_tuned ?f 0 = Returns (prof, topo, pl)"
    and report: "Preflight (th_sysfs sample_tuned) prof = Returns report" "RequiredFailures report = []"
    using tuned_apply_gated [OF run disjI1 [OF ops]] by blast
  have "prof = sample_profile" "th_sysfs sample_tuned = strict_host"
    using sample_loads(1) [OF load_plan_Returns(1) [OF load]] by (simp_all add: sample_tuned_def)
  with run ops report show ?thesis by auto
qed



end
