(* ===== verification/SyncProto.thy ===== *)
theory SyncProto
  imports GoStrings
begin

text \<open>
  \<open>pkg/sync/sync.go\<close>: the reconcile-trigger protocol. The server's goroutines (one per accepted
  connection, the broadcaster, the closer) interleave at their lock and I/O operations; each
  operation between two such points is one step of a labelled relation over the server's state.
  The worker's reader is a second, smaller machine.
\<close>

section \<open>Messages\<close>

definition MsgRegister :: string where "MsgRegister = ''REGISTER''"
definition MsgReconcile :: string where "MsgReconcile = ''RECONCILE''"
definition MsgBye :: string where "MsgBye = ''BYE''"

definition line_of :: "string \<Rightarrow> string" where
  "line_of msg = msg @ [CHR 0x0A]"

text \<open>The registration a worker writes, and how the server reads the first line.\<close>

definition register_msg :: "int \<Rightarrow> string" where
  "register_msg pid = line_of (MsgRegister @ '' '' @ Itoa pid)"

definition register_line :: "string \<Rightarrow> int option" where
  "register_line raw =
     (let line = TrimSpace raw in
      if \<not> HasPrefix line (MsgRegister @ '' '') then None
      else (case Atoi (TrimPrefix line (MsgRegister @ '' '')) of
          (pid, None) \<Rightarrow> Some pid | (_, Some _) \<Rightarrow> None))"

section \<open>The server\<close>

datatype conn_state = Unknown | Accepted | Draining | Shut | Gone

text \<open>
  \<open>clients\<close> is the map, \<open>None\<close> once Close has set it to nil; \<open>bcast\<close> is a Trigger in progress
  with the connections still to write and the count so far; \<open>closing\<close> is a Close in progress.
  \<open>sent\<close> records what was written to each connection, \<open>crashed\<close> that the process has panicked.
\<close>

record Server =
  listening :: bool
  clients :: "(nat \<rightharpoonup> int) option"
  conns :: "nat \<Rightarrow> conn_state"
  sent :: "nat \<Rightarrow> string list"
  bcast :: "(nat list \<times> nat) option"
  closing :: "nat list option"
  crashed :: bool

definition NewServer :: Server where
  "NewServer = \<lparr>listening = True, clients = Some Map.empty, conns = (\<lambda>c. Unknown), sent = (\<lambda>c. []),
     bcast = None, closing = None, crashed = False\<rparr>"

definition client_map :: "Server \<Rightarrow> nat \<rightharpoonup> int" where
  "client_map s = (case clients s of None \<Rightarrow> Map.empty | Some m \<Rightarrow> m)"

text \<open>\<open>serveClient\<close> after its read: a bad first line closes the connection; writing to a nil map panics.\<close>

definition serve_line :: "Server \<Rightarrow> nat \<Rightarrow> string \<Rightarrow> Server" where
  "serve_line s c raw =
     (case register_line raw of
        None \<Rightarrow> s\<lparr>conns := (conns s)(c := Gone)\<rparr>
      | Some pid \<Rightarrow>
          (case clients s of
             None \<Rightarrow> s\<lparr>crashed := True\<rparr>
           | Some m \<Rightarrow> s\<lparr>clients := Some (m(c \<mapsto> pid)), conns := (conns s)(c := Draining)\<rparr>))"

text \<open>The draining goroutine's exit; deleting from a nil map is allowed.\<close>

definition drop_client :: "Server \<Rightarrow> nat \<Rightarrow> Server" where
  "drop_client s c =
     s\<lparr>clients := map_option (\<lambda>m. m(c := None)) (clients s), conns := (conns s)(c := Gone)\<rparr>"

definition write_msg :: "Server \<Rightarrow> nat \<Rightarrow> string \<Rightarrow> bool \<Rightarrow> Server" where
  "write_msg s c msg ok = (if ok then s\<lparr>sent := (sent s)(c := sent s c @ [line_of msg])\<rparr> else s)"

datatype label =
    Accept nat | FirstLine nat string | FirstErr nat | DrainLine nat string | DrainErr nat
  | TriggerStart | TriggerWrite nat bool | TriggerDone nat
  | CloseStart | CloseConn nat bool | CloseDone

inductive sync_step :: "Server \<Rightarrow> label \<Rightarrow> Server \<Rightarrow> bool" where
  accept: "\<not> crashed s \<Longrightarrow> listening s \<Longrightarrow> conns s c = Unknown \<Longrightarrow>
    sync_step s (Accept c) (s\<lparr>conns := (conns s)(c := Accepted)\<rparr>)"
| first_line: "\<not> crashed s \<Longrightarrow> conns s c = Accepted \<Longrightarrow> sync_step s (FirstLine c raw) (serve_line s c raw)"
| first_err: "\<not> crashed s \<Longrightarrow> conns s c = Accepted \<Longrightarrow>
    sync_step s (FirstErr c) (s\<lparr>conns := (conns s)(c := Gone)\<rparr>)"
| drain_line: "\<not> crashed s \<Longrightarrow> conns s c = Draining \<Longrightarrow> sync_step s (DrainLine c raw) s"
| drain_err: "\<not> crashed s \<Longrightarrow> conns s c = Draining \<or> conns s c = Shut \<Longrightarrow>
    sync_step s (DrainErr c) (drop_client s c)"
| trigger_start: "\<not> crashed s \<Longrightarrow> bcast s = None \<Longrightarrow> distinct cs \<Longrightarrow> set cs = dom (client_map s) \<Longrightarrow>
    sync_step s TriggerStart (s\<lparr>bcast := Some (cs, 0)\<rparr>)"
| trigger_write: "\<not> crashed s \<Longrightarrow> bcast s = Some (c # cs, n) \<Longrightarrow> ok \<longrightarrow> conns s c = Draining \<Longrightarrow>
    sync_step s (TriggerWrite c ok)
      (write_msg (s\<lparr>bcast := Some (cs, if ok then n + 1 else n)\<rparr>) c MsgReconcile ok)"
| trigger_done: "\<not> crashed s \<Longrightarrow> bcast s = Some ([], n) \<Longrightarrow> sync_step s (TriggerDone n) (s\<lparr>bcast := None\<rparr>)"
| close_start: "\<not> crashed s \<Longrightarrow> closing s = None \<Longrightarrow> distinct cs \<Longrightarrow> set cs = dom (client_map s) \<Longrightarrow>
    sync_step s CloseStart (s\<lparr>clients := None, closing := Some cs\<rparr>)"
| close_conn: "\<not> crashed s \<Longrightarrow> closing s = Some (c # cs) \<Longrightarrow> ok \<longrightarrow> conns s c = Draining \<Longrightarrow>
    sync_step s (CloseConn c ok)
      ((write_msg (s\<lparr>closing := Some cs\<rparr>) c MsgBye ok)
         \<lparr>conns := (conns s)(c := if conns s c = Gone then Gone else Shut)\<rparr>)"
| close_done: "\<not> crashed s \<Longrightarrow> closing s = Some [] \<Longrightarrow> sync_step s CloseDone (s\<lparr>listening := False\<rparr>)"

inductive_cases sync_stepE: "sync_step s l s'"
inductive_simps sync_step_simps:
  "sync_step s (Accept c) s'" "sync_step s (FirstLine c raw) s'" "sync_step s CloseStart s'"
  "sync_step s TriggerStart s'" "sync_step s (TriggerWrite c ok) s'" "sync_step s (TriggerDone n) s'"

inductive sync_run :: "Server \<Rightarrow> label list \<Rightarrow> Server \<Rightarrow> bool" where
  nothing: "sync_run s [] s"
| more: "sync_step s l s' \<Longrightarrow> sync_run s' ls s'' \<Longrightarrow> sync_run s (l # ls) s''"

inductive_cases sync_run_NilE: "sync_run s [] s'"
inductive_cases sync_run_ConsE: "sync_run s (l # ls) s'"

section \<open>The worker's reader\<close>

text \<open>
  The goroutine of \<open>Connect\<close>: a RECONCILE line puts a token into a channel of capacity 16 and is
  dropped when the channel is full, BYE or a read error closes the channel, and so does a
  cancelled context after the line that follows the cancellation.
\<close>

record Client =
  queued :: nat
  dropped :: nat
  chan_closed :: bool

definition new_client :: Client where
  "new_client = \<lparr>queued = 0, dropped = 0, chan_closed = False\<rparr>"

definition chan_capacity :: nat where
  "chan_capacity = 16"

definition offer :: "Client \<Rightarrow> Client" where
  "offer k = (if queued k < chan_capacity then k\<lparr>queued := queued k + 1\<rparr> else k\<lparr>dropped := dropped k + 1\<rparr>)"

text \<open>One line read, with the answer of \<open>ctx.Err() != nil\<close> after it.\<close>

definition client_line :: "string \<Rightarrow> bool \<Rightarrow> Client \<Rightarrow> Client" where
  "client_line raw cancelled k =
     (let line = TrimSpace raw in
      if line = MsgBye then k\<lparr>chan_closed := True\<rparr>
      else let k' = (if line = MsgReconcile then offer k else k) in
        if cancelled then k'\<lparr>chan_closed := True\<rparr> else k')"

datatype client_event = Line string bool | ReadError | Consume

fun client_step :: "client_event \<Rightarrow> Client \<Rightarrow> Client" where
  "client_step (Line raw cancelled) k = (if chan_closed k then k else client_line raw cancelled k)"
| "client_step ReadError k = k\<lparr>chan_closed := True\<rparr>"
| "client_step Consume k = k\<lparr>queued := queued k - 1\<rparr>"

definition client_run :: "client_event list \<Rightarrow> Client" where
  "client_run evs = fold client_step evs new_client"

text \<open>
  \<open>Connect\<close>: a failed dial and a failed write of the registration are its errors; else the line that
  was written and the state its goroutine starts from.
\<close>

datatype connect_error = DialFailed string | RegisterFailed

definition Connect :: "string \<Rightarrow> bool \<Rightarrow> bool \<Rightarrow> int \<Rightarrow> connect_error + string \<times> Client" where
  "Connect path dialled written pid =
     (if \<not> dialled then Inl (DialFailed path)
      else if \<not> written then Inl RegisterFailed
      else Inr (register_msg pid, new_client))"

section \<open>Registration\<close>

lemma byte_newline [simp]: "byte CHR 0x0A = 10" and byte_space [simp]: "byte CHR '' '' = 32"
  by (simp_all add: byte_def)

text \<open>A line is trimmed to the message it carries.\<close>

lemma strip_runes_newline:
  "strip_runes p2 p3 (CHR 0x0A # s) = strip_runes p2 p3 s"
  by (rule strip_runes_space) (simp add: space1_def)

lemma TrimSpace_line:
  assumes "msg \<noteq> []" "plain (hd msg)" "plain (last msg)"
  shows "TrimSpace (line_of msg) = msg"
proof -
  have "strip_runes space2 space3 (line_of msg) = line_of msg"
    using assms by (intro strip_runes_plain) (auto simp: space2_def space3_def plain_def line_of_def)
  moreover have "strip_runes (\<lambda>c d. space2 d c) (\<lambda>c d e. space3 e d c) (rev msg) = rev msg"
    using assms by (intro strip_runes_plain) (auto simp: space2_def space3_def plain_def hd_rev)
  ultimately show ?thesis by (simp add: TrimSpace_def line_of_def strip_runes_newline)
qed

lemma register_roundtrip:
  assumes "min_int \<le> pid" "pid \<le> max_int" shows "register_line (register_msg pid) = Some pid"
proof -
  let ?msg = "MsgRegister @ '' '' @ Itoa pid"
  have "plain (last (Itoa pid))" by (rule Itoa_plain [of _ pid]) simp
  then have "TrimSpace (register_msg pid) = ?msg"
    unfolding register_msg_def by (intro TrimSpace_line) (simp_all add: MsgRegister_def plain_def byte_def)
  moreover have "HasPrefix ?msg (MsgRegister @ '' '')" "TrimPrefix ?msg (MsgRegister @ '' '') = Itoa pid"
    using HasPrefix_append [of "MsgRegister @ '' ''" "Itoa pid"]
      TrimPrefix_append [of "MsgRegister @ '' ''" "Itoa pid"] by simp_all
  ultimately show ?thesis using Atoi_Itoa [of pid] assms by (simp add: register_line_def)
qed

section \<open>Invariants\<close>

text \<open>
  The broadcaster and the closer only hold connections that were registered at some time; a
  connection in the map is being drained; only such connections are ever written to.
\<close>

definition registered_once :: "Server \<Rightarrow> nat \<Rightarrow> bool" where
  "registered_once s c \<longleftrightarrow> conns s c = Draining \<or> conns s c = Shut \<or> conns s c = Gone"

definition touched :: "Server \<Rightarrow> nat set" where
  "touched s = {c. sent s c \<noteq> []} \<union>
     (case bcast s of None \<Rightarrow> {} | Some (cs, _) \<Rightarrow> set cs) \<union>
     (case closing s of None \<Rightarrow> {} | Some cs \<Rightarrow> set cs)"

definition server_inv :: "Server \<Rightarrow> bool" where
  "server_inv s \<longleftrightarrow>
     dom (client_map s) \<subseteq> {c. conns s c = Draining} \<and> touched s \<subseteq> {c. registered_once s c} \<and>
     (clients s = None \<longleftrightarrow> closing s \<noteq> None)"

lemma client_map_simps [simp]:
  "client_map (s\<lparr>clients := Some m\<rparr>) = m" "client_map (s\<lparr>clients := None\<rparr>) = Map.empty"
  "client_map (s\<lparr>conns := x\<rparr>) = client_map s" "client_map (s\<lparr>bcast := b\<rparr>) = client_map s"
  "client_map (s\<lparr>closing := d\<rparr>) = client_map s" "client_map (s\<lparr>sent := y\<rparr>) = client_map s"
  "client_map (s\<lparr>listening := l\<rparr>) = client_map s" "client_map (s\<lparr>crashed := k\<rparr>) = client_map s"
  by (simp_all add: client_map_def)

lemma server_inv_init: "server_inv NewServer"
  by (simp add: server_inv_def NewServer_def client_map_def touched_def)

lemma client_map_drop [simp]: "client_map (drop_client s c) = (client_map s)(c := None)"
  by (auto simp: client_map_def drop_client_def split: option.splits)

lemma touched_simps [simp]:
  "touched (s\<lparr>conns := x\<rparr>) = touched s" "touched (s\<lparr>listening := l\<rparr>) = touched s"
  "touched (s\<lparr>crashed := k\<rparr>) = touched s" "touched (s\<lparr>clients := m\<rparr>) = touched s"
  by (simp_all add: touched_def)

lemma touched_write:
  "touched (write_msg s c msg ok) \<subseteq> insert c (touched s)"
  by (auto simp: touched_def write_msg_def split: if_splits)

text \<open>A connection that no one writes to can change its state, and any state but the first two is kept registered.\<close>

lemma server_inv_serve_line:
  assumes "server_inv s" "conns s c = Accepted"
  shows "server_inv (serve_line s c raw)"
proof -
  have "c \<notin> dom (client_map s)" "c \<notin> touched s"
    using assms by (auto simp: server_inv_def registered_once_def)
  with assms(1) show ?thesis
    by (auto simp: serve_line_def server_inv_def touched_def registered_once_def client_map_def
        split: option.splits)
qed

lemma server_inv_conn_change:
  assumes "server_inv s" "c \<notin> dom (client_map s)" "c \<in> touched s \<longrightarrow> st \<in> {Shut, Gone}"
  shows "server_inv (s\<lparr>conns := (conns s)(c := st)\<rparr>)"
  using assms by (auto simp: server_inv_def registered_once_def touched_def)

lemma server_inv_drop:
  assumes "server_inv s" shows "server_inv (drop_client s c)"
  using assms
  by (auto simp: server_inv_def registered_once_def touched_def drop_client_def client_map_def
      split: option.splits)

lemma server_inv_write:
  assumes "server_inv s" "registered_once s c" shows "server_inv (write_msg s c msg ok)"
proof -
  have "client_map (write_msg s c msg ok) = client_map s" "conns (write_msg s c msg ok) = conns s"
    "clients (write_msg s c msg ok) = clients s" "closing (write_msg s c msg ok) = closing s"
    by (simp_all add: write_msg_def)
  with assms touched_write [of s c msg ok] show ?thesis
    by (auto simp: server_inv_def registered_once_def)
qed

lemma server_inv_step:
  assumes "sync_step s l s'" "server_inv s" shows "server_inv s'"
  using assms(1)
proof cases
  case (accept c)
  then show ?thesis
    using assms(2) by (auto intro!: server_inv_conn_change simp: server_inv_def registered_once_def)
next
  case (first_line c raw)
  then show ?thesis using assms(2) server_inv_serve_line by simp
next
  case (first_err c)
  then show ?thesis
    using assms(2) by (auto intro!: server_inv_conn_change simp: server_inv_def registered_once_def)
next
  case (trigger_start cs)
  then show ?thesis
    using assms(2) by (auto simp: server_inv_def touched_def registered_once_def)
next
  case (trigger_write c cs n ok)
  then have "server_inv (s\<lparr>bcast := Some (cs, if ok then n + 1 else n)\<rparr>)" "registered_once s c"
    using assms(2) by (auto simp: server_inv_def touched_def registered_once_def)
  then show ?thesis using trigger_write server_inv_write by (simp add: registered_once_def)
next
  case (trigger_done n)
  then show ?thesis using assms(2) by (auto simp: server_inv_def touched_def registered_once_def)
next
  case (close_start cs)
  then show ?thesis
    using assms(2) by (auto simp: server_inv_def touched_def registered_once_def)
next
  case (close_conn c cs ok)
  let ?t = "write_msg (s\<lparr>closing := Some cs\<rparr>) c MsgBye ok"
  have reg: "registered_once s c" "clients s = None"
    using close_conn assms(2) by (auto simp: server_inv_def touched_def)
  have "server_inv (s\<lparr>closing := Some cs\<rparr>)"
    using close_conn assms(2) by (auto simp: server_inv_def touched_def registered_once_def)
  then have t: "server_inv ?t" using reg(1) by (intro server_inv_write) (simp_all add: registered_once_def)
  have "client_map ?t = Map.empty" "conns ?t = conns s"
    using reg(2) by (simp_all add: write_msg_def client_map_def)
  then show ?thesis
    unfolding close_conn
    using server_inv_conn_change [OF t, of c "if conns s c = Gone then Gone else Shut"] by simp
qed (use assms(2) server_inv_drop in \<open>auto simp: server_inv_def touched_def registered_once_def\<close>)

lemma server_inv_run: "sync_run s ls s' \<Longrightarrow> server_inv s \<Longrightarrow> server_inv s'"
  by (induction rule: sync_run.induct) (auto dest: server_inv_step)

section \<open>What a trace shows\<close>

text \<open>Only a first line that parses makes a connection writable, and nothing else can.\<close>

definition good_line :: "nat \<Rightarrow> label \<Rightarrow> bool" where
  "good_line c l \<longleftrightarrow> (\<exists>raw. l = FirstLine c raw \<and> register_line raw \<noteq> None)"

lemma writable_from_line:
  assumes "sync_run s ls s'" "server_inv s" "c \<notin> touched s" "conns s c \<noteq> Draining" "c \<in> touched s' \<or> conns s' c = Draining"
  shows "\<exists>l \<in> set ls. good_line c l"
  using assms
proof (induction rule: sync_run.induct)
  case (more s l s' ls s'')
  show ?case
  proof (cases "good_line c l")
    case False
    have inv: "server_inv s'" using server_inv_step more.hyps(1) more.prems(1) by blast
    have "c \<notin> dom (client_map s)" using more.prems(1,3) by (auto simp: server_inv_def)
    with more.hyps(1) have "c \<notin> touched s' \<and> conns s' c \<noteq> Draining"
      by (cases rule: sync_step.cases)
        (use more.prems(2,3) False in \<open>auto simp: touched_def write_msg_def drop_client_def
          serve_line_def good_line_def split: option.splits if_splits\<close>)
    with more.IH [OF inv] more.prems(4) show ?thesis by auto
  qed simp
qed simp

text \<open>Without a Close nothing crashes.\<close>

lemma no_close_no_crash:
  assumes "sync_run s ls s'" "CloseStart \<notin> set ls" "clients s \<noteq> None" "\<not> crashed s"
  shows "clients s' \<noteq> None \<and> \<not> crashed s'"
  using assms
proof (induction rule: sync_run.induct)
  case (more s l s' ls s'')
  have "clients s' \<noteq> None \<and> \<not> crashed s'"
    using more.hyps(1) more.prems
    by (cases rule: sync_step.cases)
      (auto simp: write_msg_def drop_client_def serve_line_def split: option.splits)
  with more show ?case by auto
qed simp

text \<open>The broadcast between its start and its end.\<close>

definition ok_writes :: "label list \<Rightarrow> nat list" where
  "ok_writes ls = concat (map (\<lambda>l. case l of TriggerWrite c ok \<Rightarrow> if ok then [c] else [] | _ \<Rightarrow> []) ls)"

lemma ok_writes_simps [simp]:
  "ok_writes [] = []"
  "ok_writes (l # ls) = (case l of TriggerWrite c ok \<Rightarrow> if ok then [c] else [] | _ \<Rightarrow> []) @ ok_writes ls"
  "ok_writes (ls @ ms) = ok_writes ls @ ok_writes ms"
  by (simp_all add: ok_writes_def)

lemma broadcast_progress:
  assumes "sync_run s ls s'" "bcast s = Some (cs, n)" "\<forall>m. TriggerDone m \<notin> set ls" "distinct cs"
  shows "\<exists>cs' ws. bcast s' = Some (cs', n + length (ok_writes ls)) \<and> cs = ws @ cs' \<and>
    set (ok_writes ls) \<subseteq> set ws \<and> distinct (ok_writes ls)"
  using assms
proof (induction arbitrary: cs n rule: sync_run.induct)
  case (more s l s' ls s'')
  show ?case
  proof (cases "\<exists>c ok. l = TriggerWrite c ok")
    case True
    then obtain c ok where l: "l = TriggerWrite c ok" by blast
    then obtain ds where ds: "cs = c # ds" "bcast s' = Some (ds, if ok then n + 1 else n)"
      using more.hyps(1) more.prems(1) by (auto simp: sync_step_simps write_msg_def)
    obtain cs' ws where w: "bcast s'' = Some (cs', (if ok then n + 1 else n) + length (ok_writes ls))"
      "ds = ws @ cs'" "set (ok_writes ls) \<subseteq> set ws" "distinct (ok_writes ls)"
      using more.IH [OF ds(2)] more.prems ds(1) by auto
    then have "c \<notin> set (ok_writes ls)" using more.prems(3) ds(1) by auto
    with w ds l show ?thesis by (intro exI [of _ cs'] exI [of _ "c # ws"]) auto
  next
    case False
    have "bcast s' = Some (cs, n)"
      using more.hyps(1)
      by (cases rule: sync_step.cases)
        (use False more.prems(1,2) in \<open>auto simp: write_msg_def drop_client_def serve_line_def
          split: option.splits\<close>)
    moreover have "ok_writes (l # ls) = ok_writes ls" using False by (cases l) auto
    ultimately have "bcast s' = Some (cs, n)" "ok_writes (l # ls) = ok_writes ls" by simp_all
    then show ?thesis using more.IH [of cs n] more.prems by simp
  qed
qed auto

lemma ok_writes_ok: "c \<in> set (ok_writes ls) \<longleftrightarrow> TriggerWrite c True \<in> set ls"
  by (induction ls) (auto split: label.splits)

lemma sync_run_append:
  "sync_run s (ls @ ms) s'' \<longleftrightarrow> (\<exists>s'. sync_run s ls s' \<and> sync_run s' ms s'')"
proof (induction ls arbitrary: s)
  case Nil
  then show ?case by (auto elim: sync_run_NilE intro: sync_run.intros)
next
  case (Cons l ls)
  show ?case
  proof
    assume "sync_run s ((l # ls) @ ms) s''"
    then obtain t where "sync_step s l t" "sync_run t (ls @ ms) s''" by (auto elim: sync_run_ConsE)
    with Cons.IH show "\<exists>s'. sync_run s (l # ls) s' \<and> sync_run s' ms s''"
      using sync_run.more by blast
  next
    assume "\<exists>s'. sync_run s (l # ls) s' \<and> sync_run s' ms s''"
    then obtain s' t where "sync_step s l t" "sync_run t ls s'" "sync_run s' ms s''"
      by (auto elim: sync_run_ConsE)
    with Cons.IH show "sync_run s ((l # ls) @ ms) s''" using sync_run.more by fastforce
  qed
qed

lemma client_step_bound: "queued k \<le> chan_capacity \<Longrightarrow> queued (client_step e k) \<le> chan_capacity"
  by (cases e) (auto simp: client_line_def offer_def Let_def)

lemma client_fold_bound: "queued k \<le> chan_capacity \<Longrightarrow> queued (fold client_step evs k) \<le> chan_capacity"
  by (induction evs arbitrary: k) (simp_all add: client_step_bound)

text \<open>A sample run: one worker registers and a broadcast reaches it.\<close>

definition server1 :: Server where
  "server1 = NewServer\<lparr>conns := (\<lambda>c. Unknown)(0 := Draining), clients := Some [0 \<mapsto> 42]\<rparr>"

definition server2 :: Server where
  "server2 = server1\<lparr>sent := (\<lambda>c. [])(0 := [line_of MsgReconcile]), bcast := Some ([], 1)\<rparr>"

lemma sample_register: "sync_run NewServer [Accept 0, FirstLine 0 (register_msg 42)] server1"
proof -
  let ?s = "NewServer\<lparr>conns := (conns NewServer)(0 := Accepted)\<rparr>"
  have "sync_step NewServer (Accept 0) ?s" by (simp add: sync_step_simps NewServer_def)
  moreover have "serve_line ?s 0 (register_msg 42) = server1"
    using register_roundtrip [of 42] by (simp add: serve_line_def server1_def NewServer_def min_int_def max_int_def)
  then have "sync_step ?s (FirstLine 0 (register_msg 42)) server1"
    by (simp add: sync_step_simps NewServer_def)
  ultimately show ?thesis by (rule sync_run.more [OF _ sync_run.more [OF _ sync_run.nothing]])
qed

lemma sample_start: "sync_step server1 TriggerStart (server1\<lparr>bcast := Some ([0], 0)\<rparr>)"
  by (rule trigger_start) (simp_all add: server1_def NewServer_def client_map_def)

lemma sample_write: "sync_step (server1\<lparr>bcast := Some ([0], 0)\<rparr>) (TriggerWrite 0 True) server2"
  by (simp add: sync_step_simps server1_def server2_def NewServer_def write_msg_def)

lemma sample_done: "sync_step server2 (TriggerDone 1) (server2\<lparr>bcast := None\<rparr>)"
  by (simp add: sync_step_simps server2_def server1_def NewServer_def)

section \<open>Properties\<close>

text \<open>
  C16. The server writes to registered workers only: whatever the interleaving, a connection that
  was sent any message has sent a first line that parses as a registration; and the line a worker
  writes does parse, to its own process id.
\<close>

theorem sync_only_registered:
  assumes "sync_run NewServer ls s" "sent s c \<noteq> []" "min_int \<le> pid" "pid \<le> max_int"
  shows "(\<exists>raw. FirstLine c raw \<in> set ls \<and> register_line raw \<noteq> None) \<and>
    register_line (register_msg pid) = Some pid"
proof -
  have "c \<notin> touched NewServer" "conns NewServer c \<noteq> Draining" "c \<in> touched s"
    using assms(2) by (simp_all add: touched_def NewServer_def)
  then show ?thesis
    using writable_from_line [OF assms(1) server_inv_init] register_roundtrip [OF assms(3,4)]
    by (auto simp: good_line_def)
qed

theorem sync_only_registered_witness:
  "\<exists>raw. FirstLine 0 raw \<in> set [Accept 0, FirstLine 0 (register_msg 42), TriggerStart, TriggerWrite 0 True] \<and>
    register_line raw \<noteq> None"
proof -
  have rest: "sync_run server1 [TriggerStart, TriggerWrite 0 True] server2"
    by (rule sync_run.more [OF sample_start sync_run.more [OF sample_write sync_run.nothing]])
  have "sync_run NewServer ([Accept 0, FirstLine 0 (register_msg 42)] @ [TriggerStart, TriggerWrite 0 True]) server2"
    unfolding sync_run_append using sample_register rest by (intro exI conjI)
  then have run: "sync_run NewServer [Accept 0, FirstLine 0 (register_msg 42), TriggerStart, TriggerWrite 0 True] server2"
    by simp
  have "sent server2 0 \<noteq> []" by (simp add: server2_def)
  from sync_only_registered [OF run this, of 42] show ?thesis by (simp add: min_int_def max_int_def)
qed

text \<open>
  Trigger counts what it reached: between the start of a broadcast and its end, the number it
  returns is the number of successful RECONCILE writes; they went to different connections, each
  registered when the broadcast began.
\<close>

theorem sync_trigger_count:
  assumes "sync_step s TriggerStart s1" "sync_run s1 ls s2" "sync_step s2 (TriggerDone n) s3"
    and "\<forall>m. TriggerDone m \<notin> set ls"
  shows "n = length (ok_writes ls) \<and> distinct (ok_writes ls) \<and>
    set (ok_writes ls) \<subseteq> dom (client_map s) \<and>
    (\<forall>c. TriggerWrite c True \<in> set ls \<longrightarrow> c \<in> set (ok_writes ls))"
proof -
  obtain cs where cs: "bcast s1 = Some (cs, 0)" "distinct cs" "set cs = dom (client_map s)"
    using assms(1) by (auto simp: sync_step_simps)
  have done_n: "bcast s2 = Some ([], n)" using assms(3) by (auto simp: sync_step_simps)
  from broadcast_progress [OF assms(2) cs(1) assms(4) cs(2)] done_n cs(3) show ?thesis
    by (auto simp: ok_writes_ok)
qed

theorem sync_trigger_count_witness: "(1::nat) = length (ok_writes [TriggerWrite 0 True])"
proof -
  have "sync_run (server1\<lparr>bcast := Some ([0], 0)\<rparr>) [TriggerWrite 0 True] server2"
    by (rule sync_run.more [OF sample_write sync_run.nothing])
  from sync_trigger_count [OF sample_start this sample_done] show ?thesis by simp
qed

text \<open>
  C38. The server can panic, but only after Close: no interleaving without a Close crashes, and
  a connection whose registration arrives after Close has dropped the map crashes the process.
\<close>

theorem sync_panic_only_after_close:
  "(\<forall>ls s. sync_run NewServer ls s \<longrightarrow> crashed s \<longrightarrow> CloseStart \<in> set ls) \<and>
   (\<exists>s. sync_run NewServer [Accept 0, CloseStart, FirstLine 0 (register_msg 7)] s \<and> crashed s)"
proof
  have "clients NewServer \<noteq> None" "\<not> crashed NewServer" by (simp_all add: NewServer_def)
  then show "\<forall>ls s. sync_run NewServer ls s \<longrightarrow> crashed s \<longrightarrow> CloseStart \<in> set ls"
    using no_close_no_crash by blast
  let ?s1 = "NewServer\<lparr>conns := (conns NewServer)(0 := Accepted)\<rparr>"
  let ?s2 = "?s1\<lparr>clients := None, closing := Some []\<rparr>"
  have "sync_step NewServer (Accept 0) ?s1" by (simp add: sync_step_simps NewServer_def)
  moreover have "sync_step ?s1 CloseStart ?s2"
    by (rule close_start) (simp_all add: NewServer_def client_map_def)
  moreover have "sync_step ?s2 (FirstLine 0 (register_msg 7)) (serve_line ?s2 0 (register_msg 7))"
    by (simp add: sync_step_simps NewServer_def)
  moreover have "crashed (serve_line ?s2 0 (register_msg 7))"
    using register_roundtrip [of 7] by (simp add: serve_line_def min_int_def max_int_def)
  ultimately show "\<exists>s. sync_run NewServer [Accept 0, CloseStart, FirstLine 0 (register_msg 7)] s \<and> crashed s"
    by (meson sync_run.intros)
qed

theorem sync_panic_only_after_close_witness:
  "\<exists>s. sync_run NewServer [Accept 0, CloseStart, FirstLine 0 (register_msg 7)] s \<and> crashed s"
  using sync_panic_only_after_close by (rule conjunct2)

text \<open>
  A slow worker never queues more than 16 reconcile tokens, whatever arrives: further ones are
  counted as dropped, and after BYE or a read error nothing is queued any more.
\<close>

theorem sync_client_bounded:
  "queued (client_run evs) \<le> chan_capacity \<and>
   queued (client_run (evs @ [ReadError, Line (line_of MsgReconcile) b])) = queued (client_run evs) \<and>
   queued (client_run (evs @ [Line (line_of MsgBye) b, Line (line_of MsgReconcile) b'])) = queued (client_run evs)"
proof -
  have bye: "TrimSpace (line_of MsgBye) = MsgBye"
    by (rule TrimSpace_line) (simp_all add: MsgBye_def plain_def byte_def)
  have "queued (client_run evs) \<le> chan_capacity"
    unfolding client_run_def by (rule client_fold_bound) (simp add: new_client_def)
  then show ?thesis by (simp add: client_run_def client_line_def bye)
qed

end
