(* ===== verification/SyncBursts.thy ===== *)
theory SyncBursts
  imports SyncProto Worker
begin

text \<open>
  Synchronised bursts from end to end: what the server of \<open>pkg/sync\<close> writes to a worker's connection,
  what the worker's reader puts into its channel, what the coordinator of \<open>cmd/chaos-worker\<close> takes out
  of it, and the bursts it starts.
\<close>

section \<open>The server's side\<close>

text \<open>A broadcast under way has yet to write to a connection at most once.\<close>

definition reconcile_lines :: "string list \<Rightarrow> nat" where
  "reconcile_lines ls = count_list ls (line_of MsgReconcile)"

definition to_write :: "Server \<Rightarrow> nat \<Rightarrow> nat" where
  "to_write s c = (case bcast s of None \<Rightarrow> 0 | Some (cs, n) \<Rightarrow> count_list cs c)"

definition single_writes :: "Server \<Rightarrow> bool" where
  "single_writes s \<longleftrightarrow> (\<forall>cs n. bcast s = Some (cs, n) \<longrightarrow> distinct cs)"

lemma bye_no_reconcile: "line_of MsgBye \<noteq> line_of MsgReconcile"
  by (simp add: line_of_def MsgBye_def MsgReconcile_def)

lemma distinct_count: "distinct xs \<Longrightarrow> count_list xs x \<le> 1"
  by (induction xs) (auto simp: count_list_0_iff)

lemma count_list_snoc: "count_list (xs @ [y]) x = count_list xs x + (if y = x then 1 else 0)"
  by (induction xs) auto

lemma reconciles_step:
  assumes "sync_step s l s'" "single_writes s"
  shows "single_writes s' \<and>
    reconcile_lines (sent s' c) + to_write s' c \<le> reconcile_lines (sent s c) + to_write s c + (if l = TriggerStart then 1 else 0)"
  using assms
proof (cases rule: sync_step.cases)
  case (trigger_start cs)
  then show ?thesis using distinct_count [of cs c]
    by (auto simp: single_writes_def to_write_def)
next
  case (trigger_write d cs n ok)
  with assms(2) show ?thesis
    by (auto simp: single_writes_def to_write_def write_msg_def reconcile_lines_def count_list_snoc)
next
  case (close_conn d cs ok)
  with assms(2) show ?thesis
    by (auto simp: single_writes_def to_write_def write_msg_def reconcile_lines_def count_list_snoc bye_no_reconcile
        split: option.splits)
qed (auto simp: single_writes_def to_write_def serve_line_def drop_client_def split: option.splits)

lemma reconciles_run:
  "sync_run s ls s' \<Longrightarrow> single_writes s \<Longrightarrow>
   reconcile_lines (sent s' c) + to_write s' c \<le> reconcile_lines (sent s c) + to_write s c + count_list ls TriggerStart"
proof (induction rule: sync_run.induct)
  case (more s l s' ls s'')
  from reconciles_step [OF more.hyps(1) more.prems, of c] more.IH show ?case by auto
qed simp

section \<open>The worker's side\<close>

text \<open>The lines a worker has read, and a coordinator that takes a token only when there is one.\<close>

fun lines_read :: "client_event list \<Rightarrow> string list" where
  "lines_read [] = []"
| "lines_read (Line raw cancelled # evs) = raw # lines_read evs"
| "lines_read (e # evs) = lines_read evs"

fun orderly :: "client_event list \<Rightarrow> Client \<Rightarrow> bool" where
  "orderly [] k \<longleftrightarrow> True"
| "orderly (e # evs) k \<longleftrightarrow> (e = Consume \<longrightarrow> 0 < queued k) \<and> orderly evs (client_step e k)"

lemma tokens_bound:
  "orderly evs k \<Longrightarrow> \<forall>raw \<in> set (lines_read evs). TrimSpace raw = MsgReconcile \<longrightarrow> raw = line_of MsgReconcile \<Longrightarrow>
   count_list evs Consume + queued (fold client_step evs k) + dropped (fold client_step evs k) \<le>
   queued k + dropped k + reconcile_lines (lines_read evs)"
proof (induction evs arbitrary: k)
  case (Cons e evs)
  show ?case
  proof (cases e)
    case (Line raw cancelled)
    have "queued (client_step e k) + dropped (client_step e k) \<le>
        queued k + dropped k + (if TrimSpace raw = MsgReconcile then 1 else 0)"
      by (auto simp: Line client_line_def offer_def Let_def)
    moreover have "count_list evs Consume + queued (fold client_step evs (client_step e k)) +
        dropped (fold client_step evs (client_step e k)) \<le>
        queued (client_step e k) + dropped (client_step e k) + reconcile_lines (lines_read evs)"
      using Cons by (simp add: Line)
    ultimately show ?thesis using Cons.prems(2) by (auto simp: Line reconcile_lines_def split: if_splits)
  next
    case ReadError
    with Cons show ?thesis using Cons.IH [of "client_step e k"] by simp
  next
    case Consume
    then have "0 < queued k" using Cons.prems(1) by simp
    moreover have "count_list evs Consume + queued (fold client_step evs (client_step e k)) +
        dropped (fold client_step evs (client_step e k)) \<le>
        (queued k - 1) + dropped k + reconcile_lines (lines_read evs)"
      using Cons.IH [of "client_step e k"] Cons.prems by (simp add: Consume)
    ultimately show ?thesis by (simp add: Consume)
  qed
qed (simp add: reconcile_lines_def)

text \<open>The bursts the coordinator starts on its tokens.\<close>

lemma bursts_bound:
  "count_list (coordinator_loop On_token p es) ''reconcile_start'' \<le> count_list es Token"
  by (induction es) (auto simp: burst_events_def split: coord_event.splits)

section \<open>The lines on the wire\<close>

text \<open>The server writes two lines, and the worker takes only the first for a burst.\<close>

lemma sent_lines_step:
  assumes "sync_step s l s'" "set (sent s c) \<subseteq> {line_of MsgReconcile, line_of MsgBye}"
  shows "set (sent s' c) \<subseteq> {line_of MsgReconcile, line_of MsgBye}"
  using assms by (cases rule: sync_step.cases) (auto simp: write_msg_def serve_line_def drop_client_def split: option.splits)

lemma sent_lines_run:
  "sync_run s ls s' \<Longrightarrow> set (sent s c) \<subseteq> {line_of MsgReconcile, line_of MsgBye} \<Longrightarrow>
   set (sent s' c) \<subseteq> {line_of MsgReconcile, line_of MsgBye}"
  by (induction rule: sync_run.induct) (blast dest: sent_lines_step)+

lemma bye_line_not_reconcile: "TrimSpace (line_of MsgBye) \<noteq> MsgReconcile"
  by code_simp

lemma reconcile_lines_prefix: "reconcile_lines (take k ls) \<le> reconcile_lines ls"
proof -
  have "count_list ls x = count_list (take k ls) x + count_list (drop k ls) x" for x
    by (metis append_take_drop_id count_list_append)
  then show ?thesis by (simp add: reconcile_lines_def)
qed

section \<open>Properties\<close>

text \<open>
  C17. A worker in sync mode starts at most one burst per Trigger: whatever the interleaving of the
  server's goroutines, for a connected worker whose reader has read a prefix of the lines written to
  it and a coordinator that has taken as many tokens as left the channel, the bursts started, the
  tokens that wait and the tokens dropped on a full channel are together no more than the Triggers
  begun. Ticks of the clock start none.
\<close>

theorem sync_burst_per_trigger:
  assumes "sync_run NewServer ls s" "Connect path dialled written pid = Inr (reg, k)"
    and "lines_read evs = take n (sent s c)" "orderly evs k" "count_list es Token = count_list evs Consume"
  shows "count_list (coordinator ''sync'' p cut_short (\<not> isl (Connect path dialled written pid)) es) ''reconcile_start'' +
      queued (fold client_step evs k) + dropped (fold client_step evs k) \<le> count_list ls TriggerStart"
proof -
  have k: "k = new_client" using assms(2) by (simp add: Connect_def split: if_splits)
  have "set (sent s c) \<subseteq> {line_of MsgReconcile, line_of MsgBye}"
    by (rule sent_lines_run [OF assms(1)]) (simp add: NewServer_def)
  then have "\<forall>raw \<in> set (lines_read evs). TrimSpace raw = MsgReconcile \<longrightarrow> raw = line_of MsgReconcile"
    using bye_line_not_reconcile by (auto simp: assms(3) dest!: in_set_takeD)
  from tokens_bound [OF assms(4) this]
  have "count_list evs Consume + queued (fold client_step evs k) + dropped (fold client_step evs k) \<le>
      reconcile_lines (sent s c)"
    using reconcile_lines_prefix [of n "sent s c"] by (simp add: k new_client_def assms(3))
  moreover have "reconcile_lines (sent s c) \<le> count_list ls TriggerStart"
    using reconciles_run [OF assms(1), of c]
    by (simp add: single_writes_def to_write_def reconcile_lines_def NewServer_def)
  moreover have "coordinator ''sync'' p cut_short (\<not> isl (Connect path dialled written pid)) es = coordinator_loop On_token p es"
    by (simp add: assms(2) coordinator_def coordinator_setup_def)
  ultimately show ?thesis using bursts_bound [of p es] assms(5) by simp
qed

theorem sync_burst_per_trigger_witness:
  "count_list (coordinator ''sync'' etcd_like_profile False (\<not> isl (Connect ''s'' True True 42)) [Token, Tick_fires]) ''reconcile_start'' \<le> 1"
proof -
  have rest: "sync_run server1 [TriggerStart, TriggerWrite 0 True] server2"
    by (rule sync_run.more [OF sample_start sync_run.more [OF sample_write sync_run.nothing]])
  have "sync_run NewServer ([Accept 0, FirstLine 0 (register_msg 42)] @ [TriggerStart, TriggerWrite 0 True]) server2"
    unfolding sync_run_append using sample_register rest by (intro exI conjI)
  then have run: "sync_run NewServer [Accept 0, FirstLine 0 (register_msg 42), TriggerStart, TriggerWrite 0 True] server2"
    by simp
  have up: "Connect ''s'' True True 42 = Inr (register_msg 42, new_client)" by (simp add: Connect_def)
  have read: "lines_read [Line (line_of MsgReconcile) False, Consume] = take 1 (sent server2 0)"
    by (simp add: server2_def)
  have ord: "orderly [Line (line_of MsgReconcile) False, Consume] new_client" by code_simp
  from sync_burst_per_trigger [OF run up read ord, of "[Token, Tick_fires]" etcd_like_profile False]
  show ?thesis by simp
qed

end
