(* ===== verification/Spec2Isabelle.thy ===== *)
theory Spec2Isabelle
  imports Children Generators Measure WorkerRun LauncherMain TunedGuarantees SyncBursts
begin

text \<open>
  A verification of chaos-harness, a Go program that loads a node with worker processes and
  measures a victim process on CPUs kept free of them.

  \<^bold>\<open>The program.\<close> \<open>cmd/chaos-launcher\<close> loads a run config (\<open>pkg/runconfig\<close>), a topology
  (\<open>pkg/topology\<close>) and, for a tuned run, a performance profile (\<open>pkg/tuning/profile.go\<close>). It checks
  the host against the profile (\<open>preflight.go\<close>), plans CPUs for every process of the flattened
  topology, the observer and the victim (\<open>plan.go\<close>, over the CPU lists of \<open>cpulist.go\<close>), picks a
  back end that can confine processes (\<open>applier*.go\<close>), spawns each process wrapped for its
  assignment, finds the real processes behind the wrappers in \<open>/proc\<close>, and verifies that the kernel
  confines them (\<open>verify.go\<close>) before the run begins. Workers can be triggered together over a Unix
  socket (\<open>pkg/sync\<close>). At the end the children are terminated. \<open>cmd/chaos-tuned\<close> does the planning,
  checking, preparing and verifying by hand.

  Each child is a program of its own: \<open>cmd/chaos-worker\<close> runs the generators of a load profile
  (\<open>pkg/profile\<close> over \<open>pkg/workload\<close>) and writes events with runtime metrics
  (\<open>pkg/runtimeinfo\<close>) through an asynchronous writer (\<open>pkg/output\<close>); \<open>cmd/chaos-victim\<close> pins
  itself and measures latency; \<open>cmd/chaos-observer\<close> samples \<open>/proc\<close>.

  \<^bold>\<open>Theories of the libraries.\<close>
  \<^item> \<open>Prelude\<close>: outcomes (a value, an error, or no return), loops over slices, strictly sorted
    lists, Go's maps as association lists with the iteration order as a parameter, 64-bit \<open>int\<close>.
  \<^item> \<open>GoStrings\<close>: the parts of \<open>strings\<close>, \<open>strconv\<close>, \<open>unicode/utf8\<close>, \<open>bufio\<close> and \<open>time\<close> that the
    program uses, on byte strings. \<open>GoFloat\<close>: truncated division and \<open>float64\<close> as rationals with a
    rounding function. \<open>GoFlags\<close>: \<open>FlagSet.Parse\<close>.

  \<^bold>\<open>Theories of the tuning core.\<close>
  \<^item> \<open>CPUList\<close>: \<open>ParseCPUList\<close>, \<open>String\<close> and the set operations; parsing denotes, rendering
    round-trips, and a range that ends in the largest \<open>int\<close> never returns.
  \<^item> \<open>PerfProfile\<close>, \<open>Topo\<close>, \<open>RunConfig\<close>: the three documents, their validation as declarative
    predicates, their loading with the YAML decoder and the file system as parameters, \<open>Flatten\<close>.
  \<^item> \<open>Plan\<close>: \<open>BuildPlan\<close> as its four passes over explicit state, every error a value; \<open>PlanProps\<close>: the
    invariants of the passes; \<open>PlanGuarantees\<close>: isolation, bounds, capacity, termination,
    determinism and lookup of a returned plan.
  \<^item> \<open>Verify\<close>: the verifier, exact with respect to a status file, and isolation end to end.
  \<^item> \<open>Preflight\<close>: the host checks, their report and what strict mode guarantees.
  \<^item> \<open>Applier\<close>: the three back ends, with effects as the list of system calls made so far;
    \<open>ApplierContract\<close>: what a wrapped command runs under which limits, and the contract of Wrap as
    a locale that the three back ends interpret; \<open>ApplierGuarantees\<close>: the properties.
  \<^item> \<open>SyncProto\<close>: the trigger protocol, all interleavings of its goroutines as a step relation and
    the reader of \<open>Connect\<close>; \<open>SyncBursts\<close>: its composition with the worker's coordinator, from a
    Trigger to the bursts it causes.

  \<^bold>\<open>Theories of the programs.\<close>
  \<^item> \<open>ProcTree\<close>: the process table and the search for the inner process; \<open>Terminate\<close>: shutdown as
    a step relation of the goroutines, the children and the timer; \<open>Launcher\<close>: the composition,
    from the loaded documents to a verified run; \<open>LaunchGuarantees\<close>: its properties and a sample
    launch that is evaluated; \<open>LaunchRun\<close>: flags, the manifest and plan documents, the triggers and
    the aggregator command; \<open>LauncherMain\<close>: \<open>main\<close> from the arguments to the exit code with what it
    does in order, which refines the launch of \<open>Launcher\<close>.
  \<^item> \<open>Workload\<close>, \<open>LoadProfiles\<close>: the generators from a configuration to rates, periods and payloads,
    the ping-pong pair as a step relation, the registry and the six profiles; \<open>Generators\<close>: the
    goroutines of the loopback, fsync and lock loads. \<open>RuntimeInfo\<close>: affinity,
    limits, threads and memory of the calling process. \<open>Emitter\<close>: the event writer as a step relation
    of emitters, drainer and closer.
  \<^item> \<open>Worker\<close>, \<open>WorkerGuarantees\<close>: the worker's flags, steady load, bursts, percentile and events;
    \<open>WorkerRun\<close>: its \<open>main\<close> as a machine of goroutines over the event writer, every step of which is a
    step of \<open>Emitter\<close> or leaves the writer alone. \<open>Victim\<close>: its flags, CPU set, wake-up loop and HTTP
    pacing; \<open>Measure\<close>: the two modes with their histograms, mutex and files, the jitter mode a
    refinement of the wake-up loop. \<open>Observer\<close>, \<open>ObserverGuarantees\<close>: samples, deltas, the worker
    search, the rows, and \<open>main\<close> from the arguments to the exit code and the file.
  \<^item> \<open>Tuned\<close>, \<open>TunedGuarantees\<close>: the subcommands from their arguments to the exit code, and the
    agreement of \<open>apply\<close> with the launcher. \<open>Children\<close>: the command lines the launcher builds, read
    by the flag tables of the programs it starts; a planned CPU list reaches the victim's pinning.

  \<^bold>\<open>Parameters.\<close> What is not the program's code is an argument: file contents (\<open>procfs\<close>, \<open>sysfs\<close>,
  \<open>proc_fs\<close>), the host's programs and the success of system calls (\<open>host\<close>), the YAML and JSON
  codecs, the process ids of started commands, the Go runtime's answers and the clock, the rounding
  of \<open>float64\<close>, the readers of durations and numbers in a base, the histograms of the HDR library,
  the wording of a detail message, and every iteration order over a map. An order is assumed fair: it
  visits each key exactly once. A law of another parameter is a hypothesis of the theorem that
  needs it: that \<open>time.ParseDuration\<close> reads back what a duration prints, that rounding is
  monotone and keeps small integers, and that a histogram counts the values it accepts.

  \<^bold>\<open>Bounds.\<close> Values of Go's \<open>int\<close> are mathematical integers; the wrap-around is written out where it
  decides something: in the range loops of the two CPU-list parsers, where it decides termination.
  The parser's range errors keep parsed numbers inside 64 bits. Counters that the code keeps as
  \<open>uint64\<close> are 64-bit words: the drops of the writer, the counters of \<open>/proc/stat\<close>, histogram counts.
  Loops without a bound are a \<open>partial_function\<close> into option, with no result when they do not return:
  the ranges of both parsers, the search of the process table, which is proved to return on forests,
  and the repeated sleep of the victim. No fuel is used.

  \<^bold>\<open>Machines.\<close> Goroutines, the kernel's side of a socket and the clock are interleaved as step
  relations: \<open>sync_step\<close>, \<open>term_step\<close>, \<open>wr_step\<close>, \<open>pair_step\<close>, \<open>echo_step\<close>, \<open>lock_step\<close>,
  \<open>worker_step\<close>, \<open>jitter_step\<close> and \<open>http_step\<close>. A region under a mutex and a channel operation are one
  step each, and so is every other access to shared state. Safety is an invariant by rule induction;
  what can always be completed is shown by a continuation from every reachable state.

  \<^bold>\<open>Not modelled.\<close> Printing and the rendered text of errors (errors are datatypes); the goroutines
  that only wait for a signal, whose effect is a step that may come at any time; the HTTP server and
  client of the victim and the HDR library, whose results are parameters; the stubs for other
  platforms; \<open>MustParseCPUList\<close>; the aggregator script, which the launcher only starts.
\<close>

end
